(* ===== verification/Smi_Prelude.thy ===== *)
theory Smi_Prelude
  imports Main "HOL-Library.Word" "HOL-Library.Signed_Division"
begin

unbundle bit_operations_syntax

text \<open>
  The prelude of the development: the machine types of the C code, the outcome type in
  which undefined behaviour and exhausted fuel are values, the two loop combinators every
  C loop of the model is an instance of, and byte buffers with bounds-checked accesses.

  The build that is modelled is the LP64 one (\<^verbatim>\<open>aarch64\<close>): \<open>size_t\<close>,
  \<open>uintptr_t\<close> and \<open>long\<close> have 64 bits, \<open>int\<close> has 32. Values of type \<open>int\<close>
  that only count up from zero are \<open>nat\<close>, the others are HOL integers; conversions to a
  fixed-width type are written out where the code makes them, and so is the overflow of an \<open>int\<close>
  (\<open>c_int\<close>) where lengths and spin counts that the code does not bound can bring it about.
\<close>

type_synonym u8 = "8 word"
type_synonym u16 = "16 word"
type_synonym u32 = "32 word"
type_synonym size_t = "64 word"
type_synonym uintptr = "64 word"

named_theorems outcome_simps \<open>equations of the outcome monad\<close>
named_theorems buffer_simps \<open>equations of bounds-checked buffer accesses\<close>

section \<open>Outcomes\<close>

text \<open>
  What running a piece of C can come to: a value, undefined behaviour (an access outside an
  object or through a null pointer, the use of a missing return value, the overflow of an
  \<open>int\<close>), or no result within the given fuel.
\<close>

datatype 'a outcome = Returns 'a | Undefined | OutOfFuel

primrec obind :: "'a outcome \<Rightarrow> ('a \<Rightarrow> 'b outcome) \<Rightarrow> 'b outcome" where
  "obind (Returns x) f = f x"
| "obind Undefined f = Undefined"
| "obind OutOfFuel f = OutOfFuel"

declare obind.simps [outcome_simps]

lemma obind_Returns_right [simp, outcome_simps]: "obind r Returns = r"
  by (cases r) simp_all

lemma obind_assoc: "obind (obind r f) g = obind r (\<lambda>x. obind (f x) g)"
  by (cases r) simp_all

lemma obind_eq_Returns [simp]:
  "obind r f = Returns y \<longleftrightarrow> (\<exists>x. r = Returns x \<and> f x = Returns y)"
  by (cases r) auto

lemma obind_eq_Undefined [simp]:
  "obind r f = Undefined \<longleftrightarrow> r = Undefined \<or> (\<exists>x. r = Returns x \<and> f x = Undefined)"
  by (cases r) auto

lemma obind_eq_OutOfFuel [simp]:
  "obind r f = OutOfFuel \<longleftrightarrow> r = OutOfFuel \<or> (\<exists>x. r = Returns x \<and> f x = OutOfFuel)"
  by (cases r) auto

lemma obind_if: "obind (if b then r else s) f = (if b then obind r f else obind s f)"
  by simp

section \<open>Loops that may not end\<close>

text \<open>
  One iteration of a C loop either goes round again with a new state or leaves the loop;
  \<open>ibind\<close> is for the parts of an iteration that are outcomes themselves.
  \<open>loop\<close> runs at most \<open>fuel\<close> iterations.
\<close>

datatype ('s, 'r) iter = Again 's | Leave "'r outcome"

primrec ibind :: "'a outcome \<Rightarrow> ('a \<Rightarrow> ('s, 'r) iter) \<Rightarrow> ('s, 'r) iter" where
  "ibind (Returns x) f = f x"
| "ibind Undefined f = Leave Undefined"
| "ibind OutOfFuel f = Leave OutOfFuel"

primrec loop :: "nat \<Rightarrow> ('s \<Rightarrow> ('s, 'r) iter) \<Rightarrow> 's \<Rightarrow> 'r outcome" where
  "loop 0 body s = OutOfFuel"
| "loop (Suc fuel) body s =
     (case body s of Again s' \<Rightarrow> loop fuel body s' | Leave r \<Rightarrow> r)"

lemma loop_step_Again: "body s = Again s' \<Longrightarrow> loop (Suc fuel) body s = loop fuel body s'"
  by simp

lemma loop_step_Leave: "body s = Leave r \<Longrightarrow> loop (Suc fuel) body s = r"
  by simp

lemma loop_once: "body s = Leave r \<Longrightarrow> 0 < fuel \<Longrightarrow> loop fuel body s = r"
  by (cases fuel) simp_all

text \<open>
  Total correctness: a measure that every further iteration decreases bounds the number of
  iterations, and what holds of every way out of the loop holds of its result.
\<close>

lemma loop_total:
  assumes again: "\<And>s s'. I s \<Longrightarrow> body s = Again s' \<Longrightarrow> I s' \<and> M s' < (M s :: nat)"
    and leave: "\<And>s r. I s \<Longrightarrow> body s = Leave r \<Longrightarrow> Q r"
    and "I s" and "M s < fuel"
  shows "Q (loop fuel body s)"
  using assms(3,4)
proof (induction fuel arbitrary: s)
  case 0
  then show ?case by simp
next
  case (Suc fuel)
  show ?case
  proof (cases "body s")
    case (Again s')
    with Suc.prems again have "I s'" and "M s' < fuel" by fastforce+
    with Again Suc.IH show ?thesis by simp
  next
    case (Leave r)
    with Suc.prems leave show ?thesis by simp
  qed
qed

text \<open>Partial correctness: the same without a measure, for a loop that does end.\<close>

lemma loop_partial:
  assumes again: "\<And>s s'. I s \<Longrightarrow> body s = Again s' \<Longrightarrow> I s'"
    and leave: "\<And>s r. I s \<Longrightarrow> body s = Leave r \<Longrightarrow> Q r"
    and "I s" and "Q OutOfFuel"
  shows "Q (loop fuel body s)"
  using assms(3)
proof (induction fuel arbitrary: s)
  case 0
  then show ?case using assms(4) by simp
next
  case (Suc fuel)
  then show ?case
    by (cases "body s") (auto dest: again leave)
qed

text \<open>A loop whose every iteration goes round again, under an invariant, never ends.\<close>

lemma loop_diverges:
  assumes "\<And>s. I s \<Longrightarrow> \<exists>s'. body s = Again s' \<and> I s'" and "I s"
  shows "loop fuel body s = OutOfFuel"
  using assms(2)
proof (induction fuel arbitrary: s)
  case 0
  then show ?case by simp
next
  case (Suc fuel)
  from assms(1) [OF Suc.prems] obtain s' where "body s = Again s'" and "I s'" by blast
  with Suc.IH show ?case by simp
qed

section \<open>Counted loops\<close>

text \<open>\<^verbatim>\<open>for (i = i0; i < n; i++)\<close>: the number of iterations is known, so no fuel.\<close>

function c_for :: "nat \<Rightarrow> nat \<Rightarrow> (nat \<Rightarrow> 's \<Rightarrow> 's outcome) \<Rightarrow> 's \<Rightarrow> 's outcome" where
  "c_for i n f s = (if i < n then obind (f i s) (c_for (Suc i) n f) else Returns s)"
  by pat_completeness auto
termination
  by (relation "measure (\<lambda>(i, n, f, s). n - i)") auto

declare c_for.simps [simp del]

lemma c_for_done [simp]: "n \<le> i \<Longrightarrow> c_for i n f s = Returns s"
  by (subst c_for.simps) simp

lemma c_for_step: "i < n \<Longrightarrow> c_for i n f s = obind (f i s) (c_for (Suc i) n f)"
  by (subst c_for.simps) simp

lemma c_for_snoc: "i \<le> n \<Longrightarrow> c_for i (Suc n) f s = obind (c_for i n f s) (f n)"
proof (induction "n - i" arbitrary: i s)
  case 0
  then show ?case by (cases "f i s") (simp_all add: c_for_step)
next
  case (Suc k)
  then have "i < n" and "k = n - Suc i" by simp_all
  moreover have "c_for (Suc i) (Suc n) f x = obind (c_for (Suc i) n f x) (f n)" for x
    using Suc.hyps(1) \<open>k = n - Suc i\<close> \<open>i < n\<close> by simp
  ultimately show ?case
    by (cases "f i s") (simp_all add: c_for_step)
qed

text \<open>\<^verbatim>\<open>for (i = i0; i <= n; i *= 2)\<close>, for a positive start.\<close>

function c_double :: "int \<Rightarrow> int \<Rightarrow> (int \<Rightarrow> 's \<Rightarrow> 's outcome) \<Rightarrow> 's \<Rightarrow> 's outcome" where
  "c_double i n f s = (if 0 < i \<and> i \<le> n then obind (f i s) (c_double (2 * i) n f) else Returns s)"
  by pat_completeness auto
termination
  by (relation "measure (\<lambda>(i, n, f, s). nat (n + 1 - i))") auto

declare c_double.simps [simp del]

text \<open>The values such a loop goes through.\<close>

function doubles :: "int \<Rightarrow> int \<Rightarrow> int list" where
  "doubles i n = (if 0 < i \<and> i \<le> n then i # doubles (2 * i) n else [])"
  by pat_completeness auto
termination
  by (relation "measure (\<lambda>(i, n). nat (n + 1 - i))") auto

declare doubles.simps [simp del]

lemma c_double_doubles:
  assumes step: "\<And>xs i s. P xs s \<Longrightarrow> 0 < i \<Longrightarrow> i \<le> n \<Longrightarrow> \<exists>s'. f i s = Returns s' \<and> P (xs @ [i]) s'"
    and "P xs s"
  shows "\<exists>s'. c_double i n f s = Returns s' \<and> P (xs @ doubles i n) s'"
  using assms(2)
proof (induction "nat (n + 1 - i)" arbitrary: i xs s rule: less_induct)
  case less
  show ?case
  proof (cases "0 < i \<and> i \<le> n")
    case True
    with step less.prems obtain s1 where "f i s = Returns s1" and "P (xs @ [i]) s1" by blast
    with True less.hyps [of "2 * i" "xs @ [i]" s1] show ?thesis
      by (subst c_double.simps, subst doubles.simps) simp
  next
    case False
    with less.prems show ?thesis by (subst c_double.simps, subst doubles.simps) auto
  qed
qed

section \<open>Buffers\<close>

text \<open>
  An object in memory is the list of its elements; an access outside it is undefined.
  \<open>overlay buf d xs\<close> is \<open>buf\<close> with \<open>xs\<close> written at offset \<open>d\<close>.
\<close>

definition fetch :: "'a list \<Rightarrow> nat \<Rightarrow> 'a outcome" where
  "fetch xs i = (if i < length xs then Returns (xs ! i) else Undefined)"

definition overlay :: "'a list \<Rightarrow> nat \<Rightarrow> 'a list \<Rightarrow> 'a list" where
  "overlay buf d xs = take d buf @ xs @ drop (d + length xs) buf"

definition store :: "'a list \<Rightarrow> nat \<Rightarrow> 'a list \<Rightarrow> 'a list outcome" where
  "store buf d xs = (if d + length xs \<le> length buf then Returns (overlay buf d xs) else Undefined)"

lemma length_overlay [simp, buffer_simps]:
  "d + length xs \<le> length buf \<Longrightarrow> length (overlay buf d xs) = length buf"
  by (simp add: overlay_def)

lemma overlay_Nil [simp, buffer_simps]: "overlay buf d [] = buf"
  by (simp add: overlay_def)

lemma overlay_overlay:
  "d + length xs + length ys \<le> length buf \<Longrightarrow>
   overlay (overlay buf d xs) (d + length xs) ys = overlay buf d (xs @ ys)"
  by (cases xs) (auto simp: overlay_def min_def ac_simps)

lemma take_overlay: "d + length xs \<le> length buf \<Longrightarrow> take d (overlay buf d xs) = take d buf"
  by (simp add: overlay_def min_def)

lemma drop_overlay:
  "d + length xs \<le> length buf \<Longrightarrow> drop (d + length xs) (overlay buf d xs) = drop (d + length xs) buf"
  by (cases xs) (auto simp: overlay_def min_def)

text \<open>Consecutive stores are one store, up to the first that does not fit.\<close>

lemma store_store:
  "obind (store buf d xs) (\<lambda>b. store b (d + length xs) ys) = store buf d (xs @ ys)"
  by (auto simp: store_def overlay_overlay add.assoc)

lemma fetch_eq_Returns [simp]: "fetch xs i = Returns x \<longleftrightarrow> i < length xs \<and> x = xs ! i"
  by (auto simp: fetch_def)

lemma overlay_single: "i < length buf \<Longrightarrow> overlay buf i [x] = buf[i := x]"
  by (simp add: overlay_def upd_conv_take_nth_drop)

section \<open>Bytes of a stored word, least significant first\<close>

definition le16 :: "u16 \<Rightarrow> u8 list" where
  "le16 v = [ucast v, ucast (drop_bit 8 v)]"

definition le32 :: "u32 \<Rightarrow> u8 list" where
  "le32 v = [ucast v, ucast (drop_bit 8 v), ucast (drop_bit 16 v), ucast (drop_bit 24 v)]"

lemma length_le [simp]: "length (le16 v) = 2" "length (le32 u) = 4"
  by (simp_all add: le16_def le32_def)

section \<open>Integers of C\<close>

text \<open>
  A signed operation whose exact result is no \<^verbatim>\<open>int\<close> is undefined. Division of \<^verbatim>\<open>int\<close>s
  truncates towards zero (\<open>sdiv\<close>).
\<close>

definition INT_MAX :: int where "INT_MAX = 2147483647"
definition INT_MIN :: int where "INT_MIN = - 2147483648"

definition c_int :: "int \<Rightarrow> int outcome" where
  "c_int x = (if INT_MIN \<le> x \<and> x \<le> INT_MAX then Returns x else Undefined)"

definition SMI_DIV_CEIL :: "int \<Rightarrow> int \<Rightarrow> int outcome" where
  "SMI_DIV_CEIL a b = obind (c_int (a + b)) (\<lambda>s. obind (c_int (s - 1)) (\<lambda>s. Returns (s sdiv b)))"

lemma c_int_fits [outcome_simps]: "0 \<le> x \<Longrightarrow> x < 2 ^ 31 \<Longrightarrow> c_int x = Returns x"
  by (simp add: c_int_def INT_MIN_def INT_MAX_def)

lemma c_int_eq_Returns: "c_int x = Returns y \<longleftrightarrow> y = x \<and> INT_MIN \<le> x \<and> x \<le> INT_MAX"
  by (auto simp: c_int_def)

lemma sdiv_pos: "0 \<le> (a :: int) \<Longrightarrow> 0 < b \<Longrightarrow> a sdiv b = a div b"
  by (cases "a = 0") (simp_all add: signed_divide_int_def sgn_mult)

lemma SMI_DIV_CEIL_pos:
  "0 \<le> a \<Longrightarrow> 0 < b \<Longrightarrow> a + b < 2 ^ 31 \<Longrightarrow> SMI_DIV_CEIL a b = Returns ((a + b - 1) div b)"
  by (simp add: SMI_DIV_CEIL_def sdiv_pos c_int_fits)

text \<open>A non-negative \<^verbatim>\<open>int\<close> converted to \<^verbatim>\<open>size_t\<close> keeps its value.\<close>

lemma size_t_of_int:
  assumes "0 \<le> k" and "k < 2 ^ 64"
  shows "unat (word_of_int k :: size_t) = nat k"
proof -
  have "k mod 2 ^ 64 = k" using assms by (intro mod_pos_pos_trivial) simp_all
  then show ?thesis by (simp add: unat_eq_nat_uint uint_word_of_int)
qed

end
