(* ===== verification/Smi_Bitfield.thy ===== *)
theory Smi_Bitfield
  imports Smi_Prelude
begin

unbundle bit_operations_syntax

text \<open>
  Bit fields of 32-bit registers. The C code reaches registers through unions of a
  \<^verbatim>\<open>uint32_t\<close> and a bit-field struct; GCC lays the fields out from bit 0 upwards, and
  a volatile access to a field is one access of the whole 32-bit container. Here a field is an
  offset and a width, \<open>bf_get\<close> reads it and \<open>bf_set\<close> is the read-modify-write value,
  the same as the macro \<^verbatim>\<open>REG_SETFIELD\<close> of \<^verbatim>\<open>gpio.h\<close> computes.

  The locale \<open>field_access\<close> states what a client of a register layout relies on, with the
  lemmas about whole sequences of field assignments; it is interpreted on \<open>bf_get\<close> and
  \<open>bf_set\<close>.
\<close>

datatype field = Field (fld_off: nat) (fld_width: nat)

definition fld_ok :: "field \<Rightarrow> bool" where
  "fld_ok f \<longleftrightarrow> fld_off f + fld_width f \<le> 32"

definition fld_apart :: "field \<Rightarrow> field \<Rightarrow> bool" where
  "fld_apart f g \<longleftrightarrow> fld_off f + fld_width f \<le> fld_off g \<or> fld_off g + fld_width g \<le> fld_off f"

definition bf_get :: "field \<Rightarrow> u32 \<Rightarrow> u32" where
  "bf_get f r = take_bit (fld_width f) (drop_bit (fld_off f) r)"

definition REG_SETFIELD :: "u32 \<Rightarrow> nat \<Rightarrow> nat \<Rightarrow> u32 \<Rightarrow> u32" where
  "REG_SETFIELD reg offset width v =
     (let m = push_bit offset (mask width) in
      (reg AND NOT m) OR push_bit offset (v AND mask width))"

definition bf_set :: "field \<Rightarrow> u32 \<Rightarrow> u32 \<Rightarrow> u32" where
  "bf_set f x r = REG_SETFIELD r (fld_off f) (fld_width f) x"

definition bf_trunc :: "field \<Rightarrow> u32 \<Rightarrow> u32" where
  "bf_trunc f x = take_bit (fld_width f) x"

section \<open>The laws, bit by bit\<close>

lemma bit_bf_get: "bit (bf_get f r) n \<longleftrightarrow> n < fld_width f \<and> bit r (fld_off f + n)"
  by (simp add: bf_get_def bit_simps)

lemma bit_bf_set:
  "bit (bf_set f x r) n \<longleftrightarrow>
     (if fld_off f \<le> n \<and> n < fld_off f + fld_width f then n < 32 \<and> bit x (n - fld_off f)
      else bit r n)"
  by (auto simp: bf_set_def REG_SETFIELD_def Let_def bit_simps dest: bit_imp_le_length)

lemma bit_bf_trunc: "bit (bf_trunc f x) n \<longleftrightarrow> n < fld_width f \<and> bit x n"
  by (simp add: bf_trunc_def bit_simps)

lemmas bit_field_simps = bit_bf_get bit_bf_set bit_bf_trunc

lemma bf_get_set: "fld_ok f \<Longrightarrow> bf_get f (bf_set f x r) = bf_trunc f x"
  by (rule bit_word_eqI) (auto simp: bit_field_simps fld_ok_def)

lemma bf_get_set_apart: "fld_apart f g \<Longrightarrow> bf_get f (bf_set g x r) = bf_get f r"
  by (rule bit_word_eqI) (auto simp: bit_field_simps fld_apart_def)

lemma bf_set_set: "bf_set f y (bf_set f x r) = bf_set f y r"
  by (rule bit_word_eqI) (auto simp: bit_field_simps)

lemma bf_set_get: "bf_set f (bf_get f r) r = r"
  by (rule bit_word_eqI) (auto simp: bit_field_simps)

lemma bf_set_commute: "fld_apart f g \<Longrightarrow> bf_set f x (bf_set g y r) = bf_set g y (bf_set f x r)"
  by (rule bit_word_eqI) (auto simp: bit_field_simps fld_apart_def)

lemma fld_apart_sym: "fld_apart f g \<longleftrightarrow> fld_apart g f"
  by (auto simp: fld_apart_def)

lemma bf_set_trunc [simp]: "bf_set f (bf_trunc f x) r = bf_set f x r"
  by (rule bit_word_eqI) (auto simp: bit_field_simps)

section \<open>Sequences of field assignments\<close>

definition put_all :: "('f \<Rightarrow> 'v \<Rightarrow> 'r \<Rightarrow> 'r) \<Rightarrow> ('f \<times> 'v) list \<Rightarrow> 'r \<Rightarrow> 'r" where
  "put_all put xs r = fold (\<lambda>(f, x). put f x) xs r"

lemma put_all_simps [simp]:
  "put_all put [] r = r"
  "put_all put ((f, x) # xs) r = put_all put xs (put f x r)"
  by (simp_all add: put_all_def)

locale field_access =
  fixes ok :: "'f \<Rightarrow> bool"
    and apart :: "'f \<Rightarrow> 'f \<Rightarrow> bool"
    and get :: "'f \<Rightarrow> 'r \<Rightarrow> 'v"
    and put :: "'f \<Rightarrow> 'v \<Rightarrow> 'r \<Rightarrow> 'r"
    and trunc :: "'f \<Rightarrow> 'v \<Rightarrow> 'v"
  assumes get_put: "ok f \<Longrightarrow> get f (put f x r) = trunc f x"
    and get_put_apart: "apart f g \<Longrightarrow> get f (put g x r) = get f r"
    and put_put: "put f y (put f x r) = put f y r"
    and put_get: "put f (get f r) r = r"
    and put_commute: "apart f g \<Longrightarrow> put f x (put g y r) = put g y (put f x r)"
    and apart_sym: "apart f g \<longleftrightarrow> apart g f"
begin

lemma get_put_all_apart:
  "(\<And>g. g \<in> fst ` set xs \<Longrightarrow> apart f g) \<Longrightarrow> get f (put_all put xs r) = get f r"
proof (induction xs arbitrary: r)
  case Nil
  then show ?case by simp
next
  case (Cons a xs)
  then show ?case by (cases a) (simp add: get_put_apart)
qed

text \<open>Every field of a sequence over pairwise disjoint fields reads back what it was given.\<close>

lemma get_put_all:
  assumes "sorted_wrt apart (map fst xs)" and "(f, x) \<in> set xs" and "ok f"
  shows "get f (put_all put xs r) = trunc f x"
  using assms(1,2)
proof (induction xs arbitrary: r)
  case Nil
  then show ?case by simp
next
  case (Cons a xs)
  show ?case
  proof (cases "(f, x) \<in> set xs")
    case True
    with Cons show ?thesis by (cases a) simp
  next
    case False
    with Cons.prems have a: "a = (f, x)" by auto
    with Cons.prems have "\<And>g. g \<in> fst ` set xs \<Longrightarrow> apart f g" by auto
    then have "get f (put_all put xs (put f x r)) = get f (put f x r)"
      by (rule get_put_all_apart)
    with a assms(3) show ?thesis by (simp add: get_put)
  qed
qed

end

interpretation bf: field_access fld_ok fld_apart bf_get bf_set bf_trunc
  by unfold_locales
    (simp_all add: bf_get_set bf_get_set_apart bf_set_set bf_set_get bf_set_commute fld_apart_sym)

end
