(* ===== verification/Smi_Regs.thy ===== *)
theory Smi_Regs
  imports Smi_Bitfield
begin

text \<open>
  The register map of \<^verbatim>\<open>smi.h\<close>, \<^verbatim>\<open>dma.h\<close>, \<^verbatim>\<open>gpio.h\<close> and \<^verbatim>\<open>clk.h\<close>: base addresses,
  register offsets, and the bit-field structs, each as the list of its members with their
  widths, in declaration order. \<open>layout\<close> computes where GCC puts the members (from bit 0
  upwards); the abbreviations give the members the positions the model uses, and each
  \<open>layout_\<close> lemma proves that they are the computed ones.
\<close>

section \<open>Bit-field layout\<close>

type_synonym bitfield_struct = "(string \<times> nat) list"

fun layout_from :: "nat \<Rightarrow> bitfield_struct \<Rightarrow> field list" where
  "layout_from off [] = []"
| "layout_from off ((_, w) # ms) = Field off w # layout_from (off + w) ms"

definition layout :: "bitfield_struct \<Rightarrow> field list" where
  "layout ms = layout_from 0 ms"

definition struct_bits :: "bitfield_struct \<Rightarrow> nat" where
  "struct_bits ms = sum_list (map snd ms)"

lemma layout_from_above: "f \<in> set (layout_from off ms) \<Longrightarrow> off \<le> fld_off f"
  by (induction off ms rule: layout_from.induct) fastforce+

lemma layout_from_below:
  "f \<in> set (layout_from off ms) \<Longrightarrow> fld_off f + fld_width f \<le> off + struct_bits ms"
  by (induction off ms rule: layout_from.induct) (fastforce simp: struct_bits_def)+

text \<open>The members of a struct never overlap, and fit the register if their widths do.\<close>

lemma layout_from_apart: "sorted_wrt fld_apart (layout_from off ms)"
proof (induction off ms rule: layout_from.induct)
  case (1 off)
  then show ?case by simp
next
  case (2 off n w ms)
  then show ?case by (auto simp: fld_apart_def dest: layout_from_above)
qed

lemma layout_apart: "sorted_wrt fld_apart (layout ms)"
  by (simp add: layout_def layout_from_apart)

lemma layout_ok: "struct_bits ms \<le> 32 \<Longrightarrow> f \<in> set (layout ms) \<Longrightarrow> fld_ok f"
  by (auto simp: layout_def fld_ok_def dest!: layout_from_below)

section \<open>The bit-field structs\<close>

definition SMI_CS_BITFIELD :: bitfield_struct where
  "SMI_CS_BITFIELD =
     [(''enable'', 1), (''done'', 1), (''active'', 1), (''start'', 1), (''clear'', 1),
      (''write'', 1), (''pad'', 2), (''teen'', 1), (''intd'', 1), (''intt'', 1),
      (''intr'', 1), (''pvmode'', 1), (''seterr'', 1), (''pxldat'', 1), (''edreq'', 1),
      (''_res'', 7), (''prdy'', 1), (''aferr'', 1), (''rxr'', 1), (''txw'', 1),
      (''rxd'', 1), (''txd'', 1), (''rxf'', 1), (''txe'', 1)]"

definition SMI_L_BITFIELD :: bitfield_struct where
  "SMI_L_BITFIELD =
     [(''length'', 32)]"

definition SMI_A_BITFIELD :: bitfield_struct where
  "SMI_A_BITFIELD =
     [(''addr'', 6), (''_x2'', 2), (''device'', 2), (''_x1'', 21)]"

definition SMI_D_BITFIELD :: bitfield_struct where
  "SMI_D_BITFIELD =
     [(''data'', 32)]"

definition SMI_DC_BITFIELD :: bitfield_struct where
  "SMI_DC_BITFIELD =
     [(''reqw'', 6), (''reqr'', 6), (''panicw'', 6), (''panicr'', 6), (''dmap'', 1),
      (''_x2'', 3), (''dmaen'', 1), (''_x1'', 3)]"

definition SMI_DSR_BITFIELD :: bitfield_struct where
  "SMI_DSR_BITFIELD =
     [(''rstrobe'', 7), (''rdreq'', 1), (''rpace'', 7), (''rpaceall'', 1), (''rhold'', 6),
      (''fsetup'', 1), (''mode68'', 1), (''rsetup'', 6), (''rwidth'', 2)]"

definition SMI_DSW_BITFIELD :: bitfield_struct where
  "SMI_DSW_BITFIELD =
     [(''wstrobe'', 7), (''wdreq'', 1), (''wpace'', 7), (''wpaceall'', 1), (''whold'', 6),
      (''wswap'', 1), (''wformat'', 1), (''wsetup'', 6), (''wwidth'', 2)]"

definition SMI_DCS_BITFIELD :: bitfield_struct where
  "SMI_DCS_BITFIELD =
     [(''enable'', 1), (''start'', 1), (''done'', 1), (''write'', 1), (''_res'', 28)]"

definition SMI_DA_BITFIELD :: bitfield_struct where
  "SMI_DA_BITFIELD =
     [(''addr'', 6), (''_x2'', 2), (''device'', 2), (''_x1'', 22)]"

definition SMI_DD_BITFIELD :: bitfield_struct where
  "SMI_DD_BITFIELD =
     [(''data'', 18), (''_res'', 14)]"

definition SMI_FD_BITFIELD :: bitfield_struct where
  "SMI_FD_BITFIELD =
     [(''fcnt'', 6), (''_x2'', 2), (''flvl'', 6), (''_x1'', 18)]"

definition DMA_CS_BITFIELD :: bitfield_struct where
  "DMA_CS_BITFIELD =
     [(''active'', 1), (''end'', 1), (''intr'', 1), (''dreq'', 1), (''pause'', 1),
      (''dreqstop'', 1), (''waiting_write'', 1), (''_x1'', 1), (''error'', 1), (''_x2'', 7),
      (''priority'', 4), (''panic_priority'', 4), (''_x3'', 4), (''wait_write'', 1), (''disdebug'', 1),
      (''abort'', 1), (''reset'', 1)]"

definition DMA_DEBUG_BITFIELD :: bitfield_struct where
  "DMA_DEBUG_BITFIELD =
     [(''rlnse'', 1), (''fifo_error'', 1), (''read_error'', 1), (''_x1'', 1), (''outstanding_wr'', 4),
      (''dma_id'', 8), (''dma_state'', 9), (''version'', 3), (''lite'', 1), (''_x2'', 3)]"

lemmas bitfield_struct_defs =
  SMI_CS_BITFIELD_def SMI_L_BITFIELD_def SMI_A_BITFIELD_def
  SMI_D_BITFIELD_def SMI_DC_BITFIELD_def SMI_DSR_BITFIELD_def
  SMI_DSW_BITFIELD_def SMI_DCS_BITFIELD_def SMI_DA_BITFIELD_def
  SMI_DD_BITFIELD_def SMI_FD_BITFIELD_def DMA_CS_BITFIELD_def
  DMA_DEBUG_BITFIELD_def

text \<open>Where the members the code names lie.\<close>

abbreviation (input) CS_enable :: field where "CS_enable \<equiv> Field 0 1"
abbreviation (input) CS_done :: field where "CS_done \<equiv> Field 1 1"
abbreviation (input) CS_active :: field where "CS_active \<equiv> Field 2 1"
abbreviation (input) CS_start :: field where "CS_start \<equiv> Field 3 1"
abbreviation (input) CS_clear :: field where "CS_clear \<equiv> Field 4 1"
abbreviation (input) CS_write :: field where "CS_write \<equiv> Field 5 1"
abbreviation (input) CS_pad :: field where "CS_pad \<equiv> Field 6 2"
abbreviation (input) CS_teen :: field where "CS_teen \<equiv> Field 8 1"
abbreviation (input) CS_intd :: field where "CS_intd \<equiv> Field 9 1"
abbreviation (input) CS_intt :: field where "CS_intt \<equiv> Field 10 1"
abbreviation (input) CS_intr :: field where "CS_intr \<equiv> Field 11 1"
abbreviation (input) CS_pvmode :: field where "CS_pvmode \<equiv> Field 12 1"
abbreviation (input) CS_seterr :: field where "CS_seterr \<equiv> Field 13 1"
abbreviation (input) CS_pxldat :: field where "CS_pxldat \<equiv> Field 14 1"
abbreviation (input) CS_edreq :: field where "CS_edreq \<equiv> Field 15 1"
abbreviation (input) CS_prdy :: field where "CS_prdy \<equiv> Field 23 1"
abbreviation (input) CS_aferr :: field where "CS_aferr \<equiv> Field 24 1"
abbreviation (input) CS_rxr :: field where "CS_rxr \<equiv> Field 25 1"
abbreviation (input) CS_txw :: field where "CS_txw \<equiv> Field 26 1"
abbreviation (input) CS_rxd :: field where "CS_rxd \<equiv> Field 27 1"
abbreviation (input) CS_txd :: field where "CS_txd \<equiv> Field 28 1"
abbreviation (input) CS_rxf :: field where "CS_rxf \<equiv> Field 29 1"
abbreviation (input) CS_txe :: field where "CS_txe \<equiv> Field 30 1"

abbreviation (input) A_addr :: field where "A_addr \<equiv> Field 0 6"
abbreviation (input) A_device :: field where "A_device \<equiv> Field 8 2"

abbreviation (input) DC_reqw :: field where "DC_reqw \<equiv> Field 0 6"
abbreviation (input) DC_reqr :: field where "DC_reqr \<equiv> Field 6 6"
abbreviation (input) DC_panicw :: field where "DC_panicw \<equiv> Field 12 6"
abbreviation (input) DC_panicr :: field where "DC_panicr \<equiv> Field 18 6"
abbreviation (input) DC_dmap :: field where "DC_dmap \<equiv> Field 24 1"
abbreviation (input) DC_dmaen :: field where "DC_dmaen \<equiv> Field 28 1"

abbreviation (input) DSR_rstrobe :: field where "DSR_rstrobe \<equiv> Field 0 7"
abbreviation (input) DSR_rdreq :: field where "DSR_rdreq \<equiv> Field 7 1"
abbreviation (input) DSR_rpace :: field where "DSR_rpace \<equiv> Field 8 7"
abbreviation (input) DSR_rpaceall :: field where "DSR_rpaceall \<equiv> Field 15 1"
abbreviation (input) DSR_rhold :: field where "DSR_rhold \<equiv> Field 16 6"
abbreviation (input) DSR_fsetup :: field where "DSR_fsetup \<equiv> Field 22 1"
abbreviation (input) DSR_mode68 :: field where "DSR_mode68 \<equiv> Field 23 1"
abbreviation (input) DSR_rsetup :: field where "DSR_rsetup \<equiv> Field 24 6"
abbreviation (input) DSR_rwidth :: field where "DSR_rwidth \<equiv> Field 30 2"

abbreviation (input) DSW_wstrobe :: field where "DSW_wstrobe \<equiv> Field 0 7"
abbreviation (input) DSW_wdreq :: field where "DSW_wdreq \<equiv> Field 7 1"
abbreviation (input) DSW_wpace :: field where "DSW_wpace \<equiv> Field 8 7"
abbreviation (input) DSW_wpaceall :: field where "DSW_wpaceall \<equiv> Field 15 1"
abbreviation (input) DSW_whold :: field where "DSW_whold \<equiv> Field 16 6"
abbreviation (input) DSW_wswap :: field where "DSW_wswap \<equiv> Field 22 1"
abbreviation (input) DSW_wformat :: field where "DSW_wformat \<equiv> Field 23 1"
abbreviation (input) DSW_wsetup :: field where "DSW_wsetup \<equiv> Field 24 6"
abbreviation (input) DSW_wwidth :: field where "DSW_wwidth \<equiv> Field 30 2"

abbreviation (input) DCS_enable :: field where "DCS_enable \<equiv> Field 0 1"
abbreviation (input) DCS_start :: field where "DCS_start \<equiv> Field 1 1"
abbreviation (input) DCS_done :: field where "DCS_done \<equiv> Field 2 1"
abbreviation (input) DCS_write :: field where "DCS_write \<equiv> Field 3 1"

abbreviation (input) DA_addr :: field where "DA_addr \<equiv> Field 0 6"
abbreviation (input) DA_device :: field where "DA_device \<equiv> Field 8 2"

abbreviation (input) DD_data :: field where "DD_data \<equiv> Field 0 18"

abbreviation (input) FD_fcnt :: field where "FD_fcnt \<equiv> Field 0 6"
abbreviation (input) FD_flvl :: field where "FD_flvl \<equiv> Field 8 6"

abbreviation (input) DMACS_active :: field where "DMACS_active \<equiv> Field 0 1"
abbreviation (input) DMACS_end :: field where "DMACS_end \<equiv> Field 1 1"
abbreviation (input) DMACS_intr :: field where "DMACS_intr \<equiv> Field 2 1"
abbreviation (input) DMACS_dreq :: field where "DMACS_dreq \<equiv> Field 3 1"
abbreviation (input) DMACS_pause :: field where "DMACS_pause \<equiv> Field 4 1"
abbreviation (input) DMACS_dreqstop :: field where "DMACS_dreqstop \<equiv> Field 5 1"
abbreviation (input) DMACS_waiting_write :: field where "DMACS_waiting_write \<equiv> Field 6 1"
abbreviation (input) DMACS_error :: field where "DMACS_error \<equiv> Field 8 1"
abbreviation (input) DMACS_priority :: field where "DMACS_priority \<equiv> Field 16 4"
abbreviation (input) DMACS_panic_priority :: field where "DMACS_panic_priority \<equiv> Field 20 4"
abbreviation (input) DMACS_wait_write :: field where "DMACS_wait_write \<equiv> Field 28 1"
abbreviation (input) DMACS_disdebug :: field where "DMACS_disdebug \<equiv> Field 29 1"
abbreviation (input) DMACS_abort :: field where "DMACS_abort \<equiv> Field 30 1"
abbreviation (input) DMACS_reset :: field where "DMACS_reset \<equiv> Field 31 1"

abbreviation (input) DMADBG_rlnse :: field where "DMADBG_rlnse \<equiv> Field 0 1"
abbreviation (input) DMADBG_fifo_error :: field where "DMADBG_fifo_error \<equiv> Field 1 1"
abbreviation (input) DMADBG_read_error :: field where "DMADBG_read_error \<equiv> Field 2 1"
abbreviation (input) DMADBG_outstanding_wr :: field where "DMADBG_outstanding_wr \<equiv> Field 4 4"
abbreviation (input) DMADBG_dma_id :: field where "DMADBG_dma_id \<equiv> Field 8 8"
abbreviation (input) DMADBG_dma_state :: field where "DMADBG_dma_state \<equiv> Field 16 9"
abbreviation (input) DMADBG_version :: field where "DMADBG_version \<equiv> Field 25 3"
abbreviation (input) DMADBG_lite :: field where "DMADBG_lite \<equiv> Field 28 1"

lemma layout_CS:
  "layout SMI_CS_BITFIELD =
     [CS_enable, CS_done, CS_active, CS_start, CS_clear, CS_write,
      CS_pad, CS_teen, CS_intd, CS_intt, CS_intr, CS_pvmode,
      CS_seterr, CS_pxldat, CS_edreq, Field 16 7, CS_prdy, CS_aferr,
      CS_rxr, CS_txw, CS_rxd, CS_txd, CS_rxf, CS_txe]"
  by (simp add: layout_def SMI_CS_BITFIELD_def)

lemma layout_A:
  "layout SMI_A_BITFIELD =
     [A_addr, Field 6 2, A_device, Field 10 21]"
  by (simp add: layout_def SMI_A_BITFIELD_def)

lemma layout_DC:
  "layout SMI_DC_BITFIELD =
     [DC_reqw, DC_reqr, DC_panicw, DC_panicr, DC_dmap, Field 25 3,
      DC_dmaen, Field 29 3]"
  by (simp add: layout_def SMI_DC_BITFIELD_def)

lemma layout_DSR:
  "layout SMI_DSR_BITFIELD =
     [DSR_rstrobe, DSR_rdreq, DSR_rpace, DSR_rpaceall, DSR_rhold, DSR_fsetup,
      DSR_mode68, DSR_rsetup, DSR_rwidth]"
  by (simp add: layout_def SMI_DSR_BITFIELD_def)

lemma layout_DSW:
  "layout SMI_DSW_BITFIELD =
     [DSW_wstrobe, DSW_wdreq, DSW_wpace, DSW_wpaceall, DSW_whold, DSW_wswap,
      DSW_wformat, DSW_wsetup, DSW_wwidth]"
  by (simp add: layout_def SMI_DSW_BITFIELD_def)

lemma layout_DCS:
  "layout SMI_DCS_BITFIELD =
     [DCS_enable, DCS_start, DCS_done, DCS_write, Field 4 28]"
  by (simp add: layout_def SMI_DCS_BITFIELD_def)

lemma layout_DA:
  "layout SMI_DA_BITFIELD =
     [DA_addr, Field 6 2, DA_device, Field 10 22]"
  by (simp add: layout_def SMI_DA_BITFIELD_def)

lemma layout_DD:
  "layout SMI_DD_BITFIELD =
     [DD_data, Field 18 14]"
  by (simp add: layout_def SMI_DD_BITFIELD_def)

lemma layout_FD:
  "layout SMI_FD_BITFIELD =
     [FD_fcnt, Field 6 2, FD_flvl, Field 14 18]"
  by (simp add: layout_def SMI_FD_BITFIELD_def)

lemma layout_DMACS:
  "layout DMA_CS_BITFIELD =
     [DMACS_active, DMACS_end, DMACS_intr, DMACS_dreq, DMACS_pause, DMACS_dreqstop,
      DMACS_waiting_write, Field 7 1, DMACS_error, Field 9 7, DMACS_priority, DMACS_panic_priority,
      Field 24 4, DMACS_wait_write, DMACS_disdebug, DMACS_abort, DMACS_reset]"
  by (simp add: layout_def DMA_CS_BITFIELD_def)

lemma layout_DMADBG:
  "layout DMA_DEBUG_BITFIELD =
     [DMADBG_rlnse, DMADBG_fifo_error, DMADBG_read_error, Field 3 1, DMADBG_outstanding_wr, DMADBG_dma_id,
      DMADBG_dma_state, DMADBG_version, DMADBG_lite, Field 29 3]"
  by (simp add: layout_def DMA_DEBUG_BITFIELD_def)

section \<open>Base addresses and register offsets\<close>

text \<open>The build is the one of the Makefile, for the Raspberry Pi 3 (\<^verbatim>\<open>-DPI3\<close>).\<close>

definition PHYS_REG_BASE :: uintptr where "PHYS_REG_BASE = 0x3F000000"
definition BUS_REG_BASE :: uintptr where "BUS_REG_BASE = 0x74000000"
definition SMI_BASE :: uintptr where "SMI_BASE = PHYS_REG_BASE + 0x600000"
definition GPIO_BASE :: uintptr where "GPIO_BASE = PHYS_REG_BASE + 0x200000"
definition CLK_BASE :: uintptr where "CLK_BASE = PHYS_REG_BASE + 0x101000"
definition DMA_BASE :: uintptr where "DMA_BASE = 0x3F007000"

definition SMIO_CS :: uintptr where "SMIO_CS = 0x00"
definition SMIO_L :: uintptr where "SMIO_L = 0x04"
definition SMIO_A :: uintptr where "SMIO_A = 0x08"
definition SMIO_D :: uintptr where "SMIO_D = 0x0c"
definition SMIO_DSR0 :: uintptr where "SMIO_DSR0 = 0x10"
definition SMIO_DSW0 :: uintptr where "SMIO_DSW0 = 0x14"
definition SMIO_DC :: uintptr where "SMIO_DC = 0x30"
definition SMIO_DCS :: uintptr where "SMIO_DCS = 0x34"
definition SMIO_DA :: uintptr where "SMIO_DA = 0x38"
definition SMIO_DD :: uintptr where "SMIO_DD = 0x3c"
definition SMIO_FD :: uintptr where "SMIO_FD = 0x40"
definition GPIO_MODE0 :: uintptr where "GPIO_MODE0 = 0x00"
definition GPIO_SET0 :: uintptr where "GPIO_SET0 = 0x1c"
definition GPIO_CLR0 :: uintptr where "GPIO_CLR0 = 0x28"
definition GPIO_LEV0 :: uintptr where "GPIO_LEV0 = 0x34"
definition CLK_SMI_CTL :: uintptr where "CLK_SMI_CTL = 0xb0"
definition CLK_SMI_DIV :: uintptr where "CLK_SMI_DIV = 0xb4"
definition DMAO_CS :: uintptr where "DMAO_CS = 0x0"
definition DMAO_DEBUG :: uintptr where "DMAO_DEBUG = 0x20"

definition SMIO_DSR :: "u8 \<Rightarrow> uintptr" where
  "SMIO_DSR dev = 0x10 + ucast dev * 0x08"

definition SMIO_DSW :: "u8 \<Rightarrow> uintptr" where
  "SMIO_DSW dev = SMIO_DSR dev + 4"

definition DMA_CS_OFFSET :: "u8 \<Rightarrow> uintptr" where
  "DMA_CS_OFFSET c = ucast c * 0x100"

definition DMA_CTRL_BLK :: "u8 \<Rightarrow> uintptr" where
  "DMA_CTRL_BLK c = ucast c * 0x100 + 0x04"

lemmas offset_defs =
  SMIO_CS_def SMIO_L_def SMIO_A_def SMIO_D_def SMIO_DSR0_def
  SMIO_DSW0_def SMIO_DC_def SMIO_DCS_def SMIO_DA_def SMIO_DD_def
  SMIO_FD_def GPIO_MODE0_def GPIO_SET0_def GPIO_CLR0_def GPIO_LEV0_def
  CLK_SMI_CTL_def CLK_SMI_DIV_def DMAO_CS_def DMAO_DEBUG_def
  SMIO_DSR_def SMIO_DSW_def DMA_CS_OFFSET_def DMA_CTRL_BLK_def

section \<open>Modes, pins, widths and formats\<close>

definition GPIO_OUT :: u32 where "GPIO_OUT = 1"
definition GPIO_ALT1 :: u32 where "GPIO_ALT1 = 5"
definition SMI_SOE_PIN :: nat where "SMI_SOE_PIN = 6"
definition SMI_SWE_PIN :: nat where "SMI_SWE_PIN = 7"

abbreviation (input) SMI_8_BITS :: u8 where "SMI_8_BITS \<equiv> 0"
abbreviation (input) SMI_16_BITS :: u8 where "SMI_16_BITS \<equiv> 1"
abbreviation (input) SMI_18_BITS :: u8 where "SMI_18_BITS \<equiv> 2"
abbreviation (input) SMI_9_BITS :: u8 where "SMI_9_BITS \<equiv> 3"

text \<open>\<^verbatim>\<open>wformat\<close> is a \<^verbatim>\<open>bool\<close>: 0 is RGB565, 1 is XRGB.\<close>

abbreviation (input) SMI_RGB565 :: bool where "SMI_RGB565 \<equiv> False"
abbreviation (input) SMI_XRGB :: bool where "SMI_XRGB \<equiv> True"

section \<open>Error codes of \<^verbatim>\<open>errors.h\<close>\<close>

definition SMI_OK :: int where "SMI_OK = 0"
definition SMI_ERR_INVALID_ARG :: int where "SMI_ERR_INVALID_ARG = -1"
definition SMI_ERR_NULL_PTR :: int where "SMI_ERR_NULL_PTR = -2"
definition SMI_ERR_NULL_CXT :: int where "SMI_ERR_NULL_CXT = -3"
definition SMI_ERR_ALLOC_FAIL :: int where "SMI_ERR_ALLOC_FAIL = -11"
definition SMI_ERR_BUF_TO_SMALL :: int where "SMI_ERR_BUF_TO_SMALL = -12"
definition SMI_ERR_MMAP_FAIL :: int where "SMI_ERR_MMAP_FAIL = -13"
definition SMI_ERR_FILE_IO_FAIL :: int where "SMI_ERR_FILE_IO_FAIL = -14"
definition SMI_ERR_TIMEOUT :: int where "SMI_ERR_TIMEOUT = -21"
definition SMI_ERR_DMA_FAIL :: int where "SMI_ERR_DMA_FAIL = -22"
definition SMI_ERR_INVALID_WIDTH :: int where "SMI_ERR_INVALID_WIDTH = -31"
definition SMI_ERR_INVALID_DEVICE :: int where "SMI_ERR_INVALID_DEVICE = -32"
definition SMI_ERR_INVALID_ADDR :: int where "SMI_ERR_INVALID_ADDR = -33"
definition SMI_ERR_INVALID_FORMAT :: int where "SMI_ERR_INVALID_FORMAT = -34"

lemmas error_code_defs =
  SMI_OK_def SMI_ERR_INVALID_ARG_def SMI_ERR_NULL_PTR_def SMI_ERR_NULL_CXT_def
  SMI_ERR_ALLOC_FAIL_def SMI_ERR_BUF_TO_SMALL_def SMI_ERR_MMAP_FAIL_def
  SMI_ERR_FILE_IO_FAIL_def SMI_ERR_TIMEOUT_def SMI_ERR_DMA_FAIL_def
  SMI_ERR_INVALID_WIDTH_def SMI_ERR_INVALID_DEVICE_def SMI_ERR_INVALID_ADDR_def
  SMI_ERR_INVALID_FORMAT_def

end
