(* ===== verification/Smi_Machine.thy ===== *)
theory Smi_Machine
  imports Smi_Regs "HOL-Library.Multiset"
begin

text \<open>
  What lies outside the program, as a parameter of every definition that touches it. A
  \<open>machine\<close> holds the memory-mapped peripherals, the clock, the scheduler, the allocator and
  the kernel as functions on a hardware state \<open>'h\<close> of which nothing is known; a \<open>world\<close> is
  that state with the log of all accesses made so far, oldest first. A volatile access of the C
  code is one \<open>ld32\<close> or \<open>st32\<close>; an assignment to a bit-field member is a load, the update
  of the field and a store (\<open>fset\<close>), as GCC compiles it for volatile members on ARM.

  \<open>clock_law\<close> and \<open>storage\<close> name documented behaviour that some theorems need: the
  monotonic clock with sleeps that last, and registers that keep what is stored in them.
\<close>

section \<open>Machines and worlds\<close>

record timespec =
  tv_sec :: int
  tv_nsec :: int

datatype syscall =
    Open string string
  | Close int
  | Fopen string
  | Fclose int
  | Mmap size_t int uintptr
  | Munmap uintptr size_t
  | WriteFd int "u8 list" size_t
  | ScanSize string
  | ScanPtr string
  | PollFd int
  | ReadFd int size_t
  | PthreadCreate
  | Malloc size_t
  | Free

datatype io =
    Load uintptr u32
  | Store uintptr u32
  | ClockRead timespec
  | CpuYield
  | SchedYield
  | NanoSleep timespec
  | Sleep int
  | Stderr string
  | Realloc size_t
  | Sys syscall int

record 'h machine =
  m_ld :: "uintptr \<Rightarrow> 'h \<Rightarrow> u32 \<times> 'h"
  m_st :: "uintptr \<Rightarrow> u32 \<Rightarrow> 'h \<Rightarrow> 'h"
  m_clock :: "'h \<Rightarrow> timespec \<times> 'h"
  m_yield :: "'h \<Rightarrow> 'h"
  m_sched :: "'h \<Rightarrow> 'h"
  m_nanosleep :: "timespec \<Rightarrow> 'h \<Rightarrow> 'h"
  m_sleep :: "int \<Rightarrow> 'h \<Rightarrow> 'h"
  m_realloc :: "size_t \<Rightarrow> u32 list \<Rightarrow> 'h \<Rightarrow> u32 list option \<times> 'h"
  m_sys :: "syscall \<Rightarrow> 'h \<Rightarrow> int \<times> 'h"

record 'h world =
  hw :: 'h
  log :: "io list"

section \<open>Accesses\<close>

definition ld32 :: "'h machine \<Rightarrow> uintptr \<Rightarrow> 'h world \<Rightarrow> u32 \<times> 'h world" where
  "ld32 m a w = (let (v, h) = m_ld m a (hw w) in (v, \<lparr>hw = h, log = log w @ [Load a v]\<rparr>))"

definition st32 :: "'h machine \<Rightarrow> uintptr \<Rightarrow> u32 \<Rightarrow> 'h world \<Rightarrow> 'h world" where
  "st32 m a v w = \<lparr>hw = m_st m a v (hw w), log = log w @ [Store a v]\<rparr>"

definition fget :: "'h machine \<Rightarrow> uintptr \<Rightarrow> field \<Rightarrow> 'h world \<Rightarrow> u32 \<times> 'h world" where
  "fget m a f w = (let (v, w') = ld32 m a w in (bf_get f v, w'))"

definition fset :: "'h machine \<Rightarrow> uintptr \<Rightarrow> field \<Rightarrow> u32 \<Rightarrow> 'h world \<Rightarrow> 'h world" where
  "fset m a f x w = (let (v, w') = ld32 m a w in st32 m a (bf_set f x v) w')"

definition fsets :: "'h machine \<Rightarrow> uintptr \<Rightarrow> (field \<times> u32) list \<Rightarrow> 'h world \<Rightarrow> 'h world" where
  "fsets m a xs w = fold (\<lambda>(f, x). fset m a f x) xs w"

definition clock_gettime :: "'h machine \<Rightarrow> 'h world \<Rightarrow> timespec \<times> 'h world" where
  "clock_gettime m w =
     (let (t, h) = m_clock m (hw w) in (t, \<lparr>hw = h, log = log w @ [ClockRead t]\<rparr>))"

definition cpu_yield :: "'h machine \<Rightarrow> 'h world \<Rightarrow> 'h world" where
  "cpu_yield m w = \<lparr>hw = m_yield m (hw w), log = log w @ [CpuYield]\<rparr>"

definition sched_yield :: "'h machine \<Rightarrow> 'h world \<Rightarrow> 'h world" where
  "sched_yield m w = \<lparr>hw = m_sched m (hw w), log = log w @ [SchedYield]\<rparr>"

definition nanosleep :: "'h machine \<Rightarrow> timespec \<Rightarrow> 'h world \<Rightarrow> 'h world" where
  "nanosleep m ts w = \<lparr>hw = m_nanosleep m ts (hw w), log = log w @ [NanoSleep ts]\<rparr>"

definition sleep :: "'h machine \<Rightarrow> int \<Rightarrow> 'h world \<Rightarrow> 'h world" where
  "sleep m s w = \<lparr>hw = m_sleep m s (hw w), log = log w @ [Sleep s]\<rparr>"

definition perr :: "string \<Rightarrow> 'h world \<Rightarrow> 'h world" where
  "perr e w = w\<lparr>log := log w @ [Stderr e]\<rparr>"

definition realloc32 ::
  "'h machine \<Rightarrow> size_t \<Rightarrow> u32 list \<Rightarrow> 'h world \<Rightarrow> u32 list option \<times> 'h world" where
  "realloc32 m n buf w =
     (let (r, h) = m_realloc m n buf (hw w) in (r, \<lparr>hw = h, log = log w @ [Realloc n]\<rparr>))"

definition sys :: "'h machine \<Rightarrow> syscall \<Rightarrow> 'h world \<Rightarrow> int \<times> 'h world" where
  "sys m c w = (let (r, h) = m_sys m c (hw w) in (r, \<lparr>hw = h, log = log w @ [Sys c r]\<rparr>))"

lemmas access_defs =
  ld32_def st32_def fget_def fset_def clock_gettime_def cpu_yield_def sched_yield_def
  nanosleep_def sleep_def perr_def realloc32_def sys_def

lemma fsets_simps [simp]:
  "fsets m a [] w = w"
  "fsets m a ((f, x) # xs) w = fsets m a xs (fset m a f x w)"
  by (simp_all add: fsets_def)

section \<open>Reading the log\<close>

text \<open>The stores of a log, in order, and the addresses they went to.\<close>

fun stores :: "io list \<Rightarrow> (uintptr \<times> u32) list" where
  "stores [] = []"
| "stores (Store a v # l) = (a, v) # stores l"
| "stores (_ # l) = stores l"

fun loads_from :: "uintptr \<Rightarrow> io list \<Rightarrow> u32 list" where
  "loads_from a [] = []"
| "loads_from a (Load b v # l) = (if a = b then v # loads_from a l else loads_from a l)"
| "loads_from a (_ # l) = loads_from a l"

definition store_addrs :: "'h world \<Rightarrow> uintptr list" where
  "store_addrs w = map fst (stores (log w))"

lemma stores_append [simp]: "stores (l @ l') = stores l @ stores l'"
  by (induction l rule: stores.induct) simp_all

lemma loads_from_append [simp]: "loads_from a (l @ l') = loads_from a l @ loads_from a l'"
  by (induction a l rule: loads_from.induct) simp_all

lemma store_addrs_simps [simp]:
  "store_addrs (snd (ld32 m a w)) = store_addrs w"
  "store_addrs (st32 m a v w) = store_addrs w @ [a]"
  "store_addrs (snd (fget m a f w)) = store_addrs w"
  "store_addrs (fset m a f x w) = store_addrs w @ [a]"
  "store_addrs (snd (clock_gettime m w)) = store_addrs w"
  "store_addrs (cpu_yield m w) = store_addrs w"
  "store_addrs (sched_yield m w) = store_addrs w"
  "store_addrs (nanosleep m ts w) = store_addrs w"
  "store_addrs (sleep m s w) = store_addrs w"
  "store_addrs (perr e w) = store_addrs w"
  "store_addrs (snd (realloc32 m n b w)) = store_addrs w"
  "store_addrs (snd (sys m c w)) = store_addrs w"
  by (simp_all add: store_addrs_def access_defs split_beta Let_def)

lemma stores_log_simps [simp]:
  "stores (log (snd (ld32 m a w))) = stores (log w)"
  "stores (log (st32 m a v w)) = stores (log w) @ [(a, v)]"
  "stores (log (snd (fget m a f w))) = stores (log w)"
  "stores (log (fset m a f x w)) = stores (log w) @ [(a, bf_set f x (fst (ld32 m a w)))]"
  "stores (log (snd (clock_gettime m w))) = stores (log w)"
  "stores (log (cpu_yield m w)) = stores (log w)"
  "stores (log (sched_yield m w)) = stores (log w)"
  "stores (log (nanosleep m ts w)) = stores (log w)"
  "stores (log (sleep m s w)) = stores (log w)"
  "stores (log (perr e w)) = stores (log w)"
  "stores (log (snd (realloc32 m n b w))) = stores (log w)"
  "stores (log (snd (sys m c w))) = stores (log w)"
  by (simp_all add: access_defs split_beta Let_def)

lemma loads_log_simps [simp]:
  "loads_from b (log (snd (ld32 m a w))) =
     loads_from b (log w) @ (if b = a then [fst (ld32 m a w)] else [])"
  "loads_from b (log (st32 m a v w)) = loads_from b (log w)"
  "b \<noteq> a \<Longrightarrow> loads_from b (log (snd (fget m a f w))) = loads_from b (log w)"
  "b \<noteq> a \<Longrightarrow> loads_from b (log (fset m a f x w)) = loads_from b (log w)"
  "loads_from b (log (snd (clock_gettime m w))) = loads_from b (log w)"
  "loads_from b (log (cpu_yield m w)) = loads_from b (log w)"
  "loads_from b (log (sched_yield m w)) = loads_from b (log w)"
  "loads_from b (log (nanosleep m ts w)) = loads_from b (log w)"
  "loads_from b (log (perr e w)) = loads_from b (log w)"
  by (simp_all add: access_defs split_beta Let_def)

lemma loads_fset_same:
  "loads_from a (log (fset m a f x w)) = loads_from a (log w) @ [fst (ld32 m a w)]"
  by (simp add: fset_def split_beta)

text \<open>
  All that was stored between two worlds is one assignment to a field of register \<open>a\<close>: the
  value last loaded from it with that field set.
\<close>

definition only_set :: "uintptr \<Rightarrow> field \<Rightarrow> u32 \<Rightarrow> 'h world \<Rightarrow> 'h world \<Rightarrow> bool" where
  "only_set a f x w w' \<longleftrightarrow>
     stores (log w') = stores (log w) @ [(a, bf_set f x (last (loads_from a (log w'))))]"

lemma only_set_fset: "stores (log v) = stores (log w) \<Longrightarrow> only_set a f x w (fset m a f x v)"
  by (simp add: only_set_def loads_fset_same)

lemma only_set_start: "stores (log w0) = stores (log w) \<Longrightarrow> only_set a f x w0 w' = only_set a f x w w'"
  by (simp add: only_set_def)

lemma store_addrs_fsets [simp]:
  "store_addrs (fsets m a xs w) = store_addrs w @ replicate (length xs) a"
  by (induction xs arbitrary: w) (auto simp: replicate_app_Cons_same)

section \<open>Calls that may end the process\<close>

definition unless_exit ::
  "'a option \<times> 'h world \<Rightarrow> ('a \<Rightarrow> 'h world \<Rightarrow> 'b option \<times> 'h world) \<Rightarrow> 'b option \<times> 'h world" where
  "unless_exit r f = (case r of (None, w) \<Rightarrow> (None, w) | (Some x, w) \<Rightarrow> f x w)"

lemma unless_exit_Some:
  "unless_exit r f = (Some y, w') \<longleftrightarrow> (\<exists>x w. r = (Some x, w) \<and> f x w = (Some y, w'))"
  by (auto simp: unless_exit_def split: prod.splits option.splits)

section \<open>Handles\<close>

text \<open>
  The descriptors, streams and mapped segments the program holds: what \<^verbatim>\<open>open\<close>,
  \<^verbatim>\<open>fopen\<close> and \<^verbatim>\<open>mmap\<close> returned, less what was handed back.
\<close>

datatype handle = Fd int | File int | Seg uintptr

fun handle_step :: "io \<Rightarrow> handle multiset \<Rightarrow> handle multiset" where
  "handle_step (Sys (Open p f) r) M = (if r < 0 then M else add_mset (Fd r) M)"
| "handle_step (Sys (Close fd) r) M = M - {#Fd fd#}"
| "handle_step (Sys (Fopen p) r) M = (if r = 0 then M else add_mset (File r) M)"
| "handle_step (Sys (Fclose f) r) M = M - {#File f#}"
| "handle_step (Sys (Mmap n fd a) r) M = (if r = -1 then M else add_mset (Seg (word_of_int r)) M)"
| "handle_step (Sys (Munmap a n) r) M = M - {#Seg a#}"
| "handle_step _ M = M"

definition handles :: "'h world \<Rightarrow> handle multiset" where
  "handles w = fold handle_step (log w) {#}"

lemma handles_simps [simp]:
  "handles (snd (ld32 m a w)) = handles w"
  "handles (st32 m a v w) = handles w"
  "handles (snd (fget m a f w)) = handles w"
  "handles (fset m a f x w) = handles w"
  "handles (snd (clock_gettime m w)) = handles w"
  "handles (cpu_yield m w) = handles w"
  "handles (sched_yield m w) = handles w"
  "handles (nanosleep m ts w) = handles w"
  "handles (sleep m s w) = handles w"
  "handles (perr e w) = handles w"
  "handles (snd (realloc32 m n b w)) = handles w"
  "handles (snd (sys m c w)) = handle_step (Sys c (fst (sys m c w))) (handles w)"
  by (simp_all add: handles_def access_defs split_beta Let_def)

lemma handles_fsets [simp]: "handles (fsets m a xs w) = handles w"
  by (induction xs arbitrary: w) auto

section \<open>The clock\<close>

definition ns_of :: "timespec \<Rightarrow> int" where
  "ns_of t = tv_sec t * 1000000000 + tv_nsec t"

text \<open>
  \<open>now\<close> is the value of the monotonic clock in a hardware state. The law: reading the clock
  gives \<open>now\<close>, nothing takes the clock back, and \<^verbatim>\<open>nanosleep\<close> lasts at least as long as
  asked (no signal handler interrupts it, since the program installs none).
\<close>

definition clock_law :: "'h machine \<Rightarrow> ('h \<Rightarrow> int) \<Rightarrow> bool" where
  "clock_law m now \<longleftrightarrow>
     (\<forall>h. ns_of (fst (m_clock m h)) = now h \<and> now h \<le> now (snd (m_clock m h))
        \<and> (\<forall>a. now h \<le> now (snd (m_ld m a h))) \<and> (\<forall>a v. now h \<le> now (m_st m a v h))
        \<and> now h \<le> now (m_yield m h) \<and> now h \<le> now (m_sched m h)
        \<and> (\<forall>ts. now h + ns_of ts \<le> now (m_nanosleep m ts h)))"

lemma clock_law_simps:
  assumes "clock_law m now"
  shows "ns_of (fst (clock_gettime m w)) = now (hw w)"
    and "now (hw w) \<le> now (hw (snd (clock_gettime m w)))"
    and "now (hw w) \<le> now (hw (snd (ld32 m a w)))"
    and "now (hw w) \<le> now (hw (st32 m a v w))"
    and "now (hw w) \<le> now (hw (cpu_yield m w))"
    and "now (hw w) \<le> now (hw (sched_yield m w))"
    and "now (hw w) + ns_of ts \<le> now (hw (nanosleep m ts w))"
    and "now (hw (perr e w)) = now (hw w)"
  using assms by (simp_all add: clock_law_def access_defs split_beta Let_def)

lemma clock_law_fields:
  assumes "clock_law m now"
  shows "now (hw w) \<le> now (hw (snd (fget m a f w)))"
    and "now (hw w) \<le> now (hw (fset m a f x w))"
proof -
  show "now (hw w) \<le> now (hw (snd (fget m a f w)))"
    using clock_law_simps(3) [OF assms] by (simp add: fget_def split_beta)
  have "now (hw w) \<le> now (hw (snd (ld32 m a w)))"
    by (rule clock_law_simps(3) [OF assms])
  also have "\<dots> \<le> now (hw (st32 m a v (snd (ld32 m a w))))" for v
    by (rule clock_law_simps(4) [OF assms])
  finally show "now (hw w) \<le> now (hw (fset m a f x w))"
    by (simp add: fset_def split_beta)
qed

section \<open>Registers that store\<close>

text \<open>
  The registers of \<open>R\<close> are plain storage, with \<open>val a h\<close> the content of \<open>a\<close>: a load
  of one gives its content, a store replaces it, and no load, nor a store elsewhere, changes it.
\<close>

definition storage :: "'h machine \<Rightarrow> (uintptr \<Rightarrow> 'h \<Rightarrow> u32) \<Rightarrow> uintptr set \<Rightarrow> bool" where
  "storage m val R \<longleftrightarrow>
     (\<forall>a h. (a \<in> R \<longrightarrow> fst (m_ld m a h) = val a h) \<and>
        (\<forall>b\<in>R. val b (snd (m_ld m a h)) = val b h) \<and>
        (\<forall>v. \<forall>b\<in>R. val b (m_st m a v h) = (if a = b then v else val b h)))"

lemma storage_ld:
  assumes "storage m val R" and "b \<in> R"
  shows "val b (hw (snd (ld32 m a w))) = val b (hw w)"
    and "fst (ld32 m b w) = val b (hw w)"
  using assms by (simp_all add: storage_def ld32_def split_beta Let_def)

lemma storage_st:
  assumes "storage m val R" and "b \<in> R"
  shows "val b (hw (st32 m a v w)) = (if a = b then v else val b (hw w))"
  using assms by (simp add: storage_def st32_def)

lemma storage_fset:
  assumes "storage m val R" and "a \<in> R" and "b \<in> R"
  shows "val b (hw (fset m a f x w)) = (if a = b then bf_set f x (val a (hw w)) else val b (hw w))"
  using assms by (simp add: fset_def split_beta storage_ld storage_st)

lemma storage_fset_other:
  assumes "storage m val R" and "b \<in> R" and "a \<noteq> b"
  shows "val b (hw (fset m a f x w)) = val b (hw w)"
  using assms by (simp add: fset_def split_beta storage_ld storage_st)

text \<open>A sequence of field assignments to a storing register is one update of its content.\<close>

lemma storage_fsets:
  assumes "storage m val R" and "a \<in> R" and "b \<in> R"
  shows "val b (hw (fsets m a xs w)) =
    (if a = b then put_all bf_set xs (val a (hw w)) else val b (hw w))"
proof (induction xs arbitrary: w)
  case Nil
  then show ?case by simp
next
  case (Cons c xs)
  obtain f x where "c = (f, x)" by (cases c)
  with Cons.IH [of "fset m a f x w"] show ?case
    by (auto simp: storage_fset [OF assms] storage_fset [OF assms(1,3,3)])
qed

text \<open>A sequence of assignments over a duplicate-free layout leaves each field as assigned.\<close>

lemma storage_fsets_get:
  assumes "storage m val R" and "a \<in> R"
    and "sorted_wrt fld_apart (map fst xs)" and "(f, x) \<in> set xs" and "fld_ok f"
  shows "bf_get f (val a (hw (fsets m a xs w))) = bf_trunc f x"
  using storage_fsets [OF assms(1,2,2)] bf.get_put_all [OF assms(3-5)] by simp

section \<open>The allocator\<close>

text \<open>
  \<^verbatim>\<open>realloc\<close> fails, or gives a block of the size asked for that begins with as much of the
  old one as fits. The elements are 32-bit words, so \<open>n\<close> bytes hold \<open>n div 4\<close> of them.
  (For 0 bytes, which the driver asks for only when \<^verbatim>\<open>len * 4\<close> wraps around to 0, C lets
  \<^verbatim>\<open>realloc\<close> free the block and return \<^verbatim>\<open>NULL\<close>; here failure keeps the old block then too.)
\<close>

definition alloc_law :: "'h machine \<Rightarrow> bool" where
  "alloc_law m \<longleftrightarrow>
     (\<forall>n buf h xs. fst (m_realloc m n buf h) = Some xs \<longrightarrow>
        length xs = unat n div 4 \<and>
        take (min (length buf) (length xs)) xs = take (min (length buf) (length xs)) buf)"

lemma alloc_lawD:
  assumes "alloc_law m" and "realloc32 m n buf w = (Some xs, w')"
  shows "length xs = unat n div 4"
    and "take (min (length buf) (length xs)) xs = take (min (length buf) (length xs)) buf"
proof -
  have some: "fst (m_realloc m n buf (hw w)) = Some xs"
    using assms(2) by (auto simp: realloc32_def split_beta Let_def)
  have law: "length xs = unat n div 4 \<and>
      take (min (length buf) (length xs)) xs = take (min (length buf) (length xs)) buf"
    using assms(1) some unfolding alloc_law_def by blast
  show "length xs = unat n div 4" using law by (rule conjunct1)
  show "take (min (length buf) (length xs)) xs = take (min (length buf) (length xs)) buf"
    using law by (rule conjunct2)
qed

section \<open>A machine of plain memory\<close>

text \<open>
  A concrete machine, for evaluating the definitions and to show that the laws can hold: every
  address is a storing word, time is counted in nanoseconds and passes with loads and sleeps, and
  the kernel answers a call \<open>c\<close> with \<open>answer c\<close>.
\<close>

type_synonym ram = "(uintptr \<Rightarrow> u32) \<times> int"

definition ram_machine :: "(syscall \<Rightarrow> int) \<Rightarrow> ram machine" where
  "ram_machine answer =
     \<lparr>m_ld = \<lambda>a (r, t). (r a, (r, t + 1)),
      m_st = \<lambda>a v (r, t). (r(a := v), t),
      m_clock = \<lambda>(r, t). (\<lparr>tv_sec = t div 1000000000, tv_nsec = t mod 1000000000\<rparr>, (r, t)),
      m_yield = \<lambda>h. h,
      m_sched = \<lambda>h. h,
      m_nanosleep = \<lambda>ts (r, t). (r, t + ns_of ts),
      m_sleep = \<lambda>s (r, t). (r, t + s * 1000000000),
      m_realloc = \<lambda>n buf h.
        (Some (take (unat n div 4) buf @ replicate (unat n div 4 - length buf) 0), h),
      m_sys = \<lambda>c h. (answer c, h)\<rparr>"

definition ram_world :: "(uintptr \<Rightarrow> u32) \<Rightarrow> ram world" where
  "ram_world r = \<lparr>hw = (r, 0), log = []\<rparr>"

abbreviation ram_reg :: "uintptr \<Rightarrow> ram \<Rightarrow> u32" where
  "ram_reg a h \<equiv> fst h a"

abbreviation ram0 :: "ram machine" where
  "ram0 \<equiv> ram_machine (\<lambda>_. 0)"

lemma ram_clock_law: "clock_law (ram_machine answer) snd"
  by (simp add: clock_law_def ram_machine_def ns_of_def split_beta)

lemma ram_storage: "storage (ram_machine answer) ram_reg R"
  by (auto simp: storage_def ram_machine_def split_beta)

lemma ram_alloc_law: "alloc_law (ram_machine answer)"
  by (auto simp: alloc_law_def ram_machine_def min_def)

end
