(* ===== verification/Smi_Timeout.thy ===== *)
theory Smi_Timeout
  imports Smi_Machine
begin

text \<open>
  \<^verbatim>\<open>timeout.h\<close>: deadlines on the monotonic clock, and the tiered wait every await loop of
  the driver polls with. The locale \<open>deadline_wait\<close> is the contract between that wait and
  the loops: a wait that does not expire uses up some of a budget, so a loop that makes progress
  or waits in every iteration ends.
\<close>

section \<open>The functions of the header\<close>

definition start_timeout :: "'h machine \<Rightarrow> int \<Rightarrow> 'h world \<Rightarrow> int \<times> 'h world" where
  "start_timeout m seconds w =
     (let (t, w) = clock_gettime m w in
      (tv_sec t * 1000000000 + tv_nsec t + seconds * 1000000000, w))"

definition timeout_complete :: "'h machine \<Rightarrow> int \<Rightarrow> 'h world \<Rightarrow> bool \<times> 'h world" where
  "timeout_complete m deadline w =
     (let (t, w) = clock_gettime m w; now_ns = tv_sec t * 1000000000 + tv_nsec t in
      (deadline \<le> now_ns, w))"

definition timeout_spin_tier :: "nat \<Rightarrow> nat \<Rightarrow> nat \<Rightarrow> nat \<Rightarrow> nat" where
  "timeout_spin_tier spin hard yield soft =
     (if spin < hard then 0 else if spin < yield then 1 else if spin < soft then 2 else 3)"

definition timeout_apply :: "'h machine \<Rightarrow> int \<Rightarrow> nat \<Rightarrow> 'h world \<Rightarrow> bool \<times> 'h world" where
  "timeout_apply m deadline tier w =
     (if tier = 0 then (False, w)
      else if tier = 1 then (False, cpu_yield m w)
      else if tier = 2 then
        (let (c, w) = timeout_complete m deadline w in
         if c then (True, w) else (False, sched_yield m w))
      else if tier = 3 then
        (let (c, w) = timeout_complete m deadline w in
         if c then (True, w)
         else
           (let w = nanosleep m \<lparr>tv_sec = 0, tv_nsec = 100000\<rparr> w;
                (c, w) = timeout_complete m deadline w in
            (c, w)))
      else (False, w))"

definition SPIN_HARD_LIMIT :: nat where "SPIN_HARD_LIMIT = 128"
definition SPIN_YIELD_LIMIT :: nat where "SPIN_YIELD_LIMIT = 192"
definition SPIN_SOFT_LIMIT :: nat where "SPIN_SOFT_LIMIT = 512"

definition DIRECT_READ_TIMEOUT_S :: int where "DIRECT_READ_TIMEOUT_S = 2"
definition PROG_READ_TIMEOUT_S :: int where "PROG_READ_TIMEOUT_S = 50"
definition PROG_WRITE_TIMEOUT_S :: int where "PROG_WRITE_TIMEOUT_S = 50"

lemmas spin_limits = SPIN_HARD_LIMIT_def SPIN_YIELD_LIMIT_def SPIN_SOFT_LIMIT_def

text \<open>The call every await loop makes with its deadline and spin count.\<close>

definition spin_wait :: "'h machine \<Rightarrow> int \<Rightarrow> nat \<Rightarrow> 'h world \<Rightarrow> bool \<times> 'h world" where
  "spin_wait m deadline spin w =
     timeout_apply m deadline
       (timeout_spin_tier spin SPIN_HARD_LIMIT SPIN_YIELD_LIMIT SPIN_SOFT_LIMIT) w"

section \<open>Accesses made by a wait\<close>

lemma timeout_complete_world [simp]:
  "snd (timeout_complete m d w) = snd (clock_gettime m w)"
  by (simp add: timeout_complete_def split_beta Let_def)

lemma start_timeout_world: "snd (start_timeout m s w) = snd (clock_gettime m w)"
  by (simp add: start_timeout_def split_beta Let_def)

lemma store_addrs_spin_wait [simp]: "store_addrs (snd (spin_wait m d k w)) = store_addrs w"
  by (simp add: spin_wait_def timeout_apply_def split_beta Let_def)

lemma log_spin_wait [simp]:
  "stores (log (snd (spin_wait m d k w))) = stores (log w)"
  "loads_from a (log (snd (spin_wait m d k w))) = loads_from a (log w)"
  by (simp_all add: spin_wait_def timeout_apply_def timeout_complete_def split_beta Let_def)

text \<open>In the first two tiers a wait never expires, whatever the clock says.\<close>

lemma spin_wait_early: "k < SPIN_YIELD_LIMIT \<Longrightarrow> \<not> fst (spin_wait m d k w)"
  by (simp add: spin_wait_def timeout_apply_def timeout_spin_tier_def spin_limits)

section \<open>Budgets\<close>

locale deadline_wait =
  fixes lawful :: "'e \<Rightarrow> bool"
    and now :: "'e \<Rightarrow> 'w \<Rightarrow> int"
    and wait :: "'e \<Rightarrow> int \<Rightarrow> nat \<Rightarrow> 'w \<Rightarrow> bool \<times> 'w"
    and left :: "int \<Rightarrow> nat \<Rightarrow> int \<Rightarrow> nat"
    and slack :: nat
  assumes wait_left:
      "lawful e \<Longrightarrow> wait e d k w = (False, w') \<Longrightarrow> left d (Suc k) (now e w') < left d k (now e w)"
    and wait_expired: "lawful e \<Longrightarrow> wait e d k w = (True, w') \<Longrightarrow> d \<le> now e w'"
    and wait_now: "lawful e \<Longrightarrow> wait e d k w = (b, w') \<Longrightarrow> now e w \<le> now e w'"
    and left_later: "t \<le> t' \<Longrightarrow> left d k t' \<le> left d k t"
    and left_reset: "left d 0 t \<le> left d k t + slack"
begin

text \<open>
  The measure of a loop with \<open>p\<close> units of work left that resets its spin count on
  progress: a unit of work is worth one more than a reset can cost.
\<close>

lemma progress_decreases:
  assumes "p' < p" and "t \<le> t'"
  shows "p' * Suc slack + left d 0 t' < p * Suc slack + left d k t"
proof -
  have "left d 0 t' \<le> left d k t + slack"
    using left_reset [of d t' k] left_later [OF assms(2), of d k] by linarith
  moreover have "Suc p' * Suc slack \<le> p * Suc slack"
    using assms(1) by (intro mult_le_mono1) simp
  ultimately show ?thesis by simp
qed

lemma progress_kept_decreases:
  assumes "p' < p" and "t \<le> t'"
  shows "p' * Suc slack + left d k t' < p * Suc slack + left d k t"
proof -
  have "Suc p' * Suc slack \<le> p * Suc slack"
    using assms(1) by (intro mult_le_mono1) simp
  with left_later [OF assms(2), of d k] show ?thesis by simp
qed

lemma wait_decreases:
  assumes "lawful e" and "wait e d k w = (False, w')" and "t \<le> now e w" and "now e w' \<le> t'"
  shows "p * Suc slack + left d (Suc k) t' < p * Suc slack + left d k t"
  using wait_left [OF assms(1,2)] left_later [OF assms(3), of d k]
    left_later [OF assms(4), of d "Suc k"] by linarith

end

section \<open>The driver's wait keeps the contract\<close>

text \<open>
  Up to the soft limit every wait costs one spin; from there on every wait that does not
  expire sleeps 100 microseconds before the deadline.
\<close>

definition spin_budget :: "int \<Rightarrow> nat \<Rightarrow> int \<Rightarrow> nat" where
  "spin_budget d k t = (SPIN_SOFT_LIMIT - k) + nat (d - t) div 100000"

lemma clock_gettime_ns:
  "clock_law m now \<Longrightarrow>
   tv_sec (fst (clock_gettime m w)) * 1000000000 + tv_nsec (fst (clock_gettime m w)) = now (hw w)"
  using clock_law_simps(1) by (simp add: ns_of_def)

lemma timeout_complete_iff:
  "clock_law m now \<Longrightarrow> fst (timeout_complete m d w) \<longleftrightarrow> d \<le> now (hw w)"
  by (simp add: timeout_complete_def split_beta Let_def clock_gettime_ns)

lemma spin_wait_now:
  assumes "clock_law m now"
  shows "now (hw w) \<le> now (hw (snd (spin_wait m d k w)))"
proof -
  note law = clock_law_simps [OF assms]
  have sleep: "now (hw w) \<le> now (hw (nanosleep m \<lparr>tv_sec = 0, tv_nsec = 100000\<rparr> w))" for w
    using law(7) [of w "\<lparr>tv_sec = 0, tv_nsec = 100000\<rparr>"] by (simp add: ns_of_def)
  show ?thesis
    unfolding spin_wait_def timeout_apply_def
    by (auto simp: split_beta Let_def
        intro: law(2) law(5) order_trans [OF law(2) law(6)]
          order_trans [OF law(2)] order_trans [OF sleep law(2)])
qed

lemma spin_wait_expired:
  assumes "clock_law m now" and "fst (spin_wait m d k w)"
  shows "d \<le> now (hw (snd (spin_wait m d k w)))"
proof -
  note law = clock_law_simps [OF assms(1)]
  have later: "d \<le> now (hw w') \<Longrightarrow> d \<le> now (hw (snd (clock_gettime m w')))" for w'
    using law(2) order_trans by blast
  from assms(2) show ?thesis
    unfolding spin_wait_def timeout_apply_def
    by (auto simp: split_beta Let_def timeout_complete_iff [OF assms(1)] split: if_splits
        intro: later)
qed

lemma spin_wait_left:
  assumes "clock_law m now" and "\<not> fst (spin_wait m d k w)"
  shows "spin_budget d (Suc k) (now (hw (snd (spin_wait m d k w)))) < spin_budget d k (now (hw w))"
proof (cases "k < SPIN_SOFT_LIMIT")
  case True
  have "nat (d - now (hw (snd (spin_wait m d k w)))) \<le> nat (d - now (hw w))"
    using spin_wait_now [OF assms(1), of w d k] by simp
  then have "nat (d - now (hw (snd (spin_wait m d k w)))) div 100000
      \<le> nat (d - now (hw w)) div 100000"
    by (rule div_le_mono)
  with True show ?thesis unfolding spin_budget_def by linarith
next
  case False
  define w1 where "w1 = snd (clock_gettime m w)"
  define w2 where "w2 = nanosleep m \<lparr>tv_sec = 0, tv_nsec = 100000\<rparr> w1"
  define w3 where "w3 = snd (clock_gettime m w2)"
  note law = clock_law_simps [OF assms(1)]
  from False assms(2) have w3: "snd (spin_wait m d k w) = w3" and end2: "now (hw w2) < d"
    by (auto simp: spin_wait_def timeout_apply_def timeout_spin_tier_def spin_limits split_beta
        Let_def timeout_complete_iff [OF assms(1)] w1_def w2_def w3_def split: if_splits)
  have "now (hw w) + 100000 \<le> now (hw w2)"
    using law(2) [of w] law(7) [of w1 "\<lparr>tv_sec = 0, tv_nsec = 100000\<rparr>"]
    by (simp add: w1_def w2_def ns_of_def)
  moreover have "now (hw w2) \<le> now (hw w3)"
    using law(2) [of w2] by (simp add: w3_def)
  ultimately have "nat (d - now (hw w3)) + 100000 \<le> nat (d - now (hw w))"
    using end2 by linarith
  then have "nat (d - now (hw w3)) div 100000 + 1 \<le> nat (d - now (hw w)) div 100000"
    by (metis div_le_mono div_add_self2 zero_neq_numeral)
  with False w3 show ?thesis by (simp add: spin_budget_def)
qed

interpretation tw: deadline_wait
  "\<lambda>(m, now). clock_law m now"
  "\<lambda>(m :: 'h machine, now) w. now (hw w)"
  "\<lambda>(m, now). spin_wait m"
  spin_budget SPIN_SOFT_LIMIT
proof (unfold_locales, goal_cases)
  case (1 e d k w w')
  then show ?case using spin_wait_left [of "fst e" "snd e" d k w] by (simp add: split_beta)
next
  case (2 e d k w w')
  then show ?case using spin_wait_expired [of "fst e" "snd e" d k w] by (simp add: split_beta)
next
  case (3 e d k w b w')
  then show ?case using spin_wait_now [of "fst e" "snd e" w d k] by (simp add: split_beta)
next
  case (4 t t' d k)
  then show ?case by (simp add: spin_budget_def div_le_mono)
next
  case (5 d t k)
  then show ?case by (simp add: spin_budget_def)
qed

text \<open>The contract for a machine and its clock, as the await loops use it.\<close>

lemma wait_cost:
  assumes "clock_law m now" and "\<not> fst (spin_wait m d k w)" and "t \<le> now (hw w)"
  shows "p * Suc SPIN_SOFT_LIMIT + spin_budget d (Suc k) (now (hw (snd (spin_wait m d k w))))
    < p * Suc SPIN_SOFT_LIMIT + spin_budget d k t"
  using tw.wait_decreases [of "(m, now)" d k w "snd (spin_wait m d k w)" t _ p] assms
  by (cases "spin_wait m d k w") auto

lemmas work_cost = tw.progress_decreases
lemmas work_cost_kept = tw.progress_kept_decreases

text \<open>A deadline set \<open>s\<close> seconds ahead leaves at most this budget.\<close>

lemma spin_budget_start:
  assumes "clock_law m now" and "start_timeout m s w = (d, w')" and "now (hw w') \<le> t" and "0 \<le> s"
  shows "spin_budget d k t \<le> SPIN_SOFT_LIMIT + nat s * 10000"
proof -
  have "d = now (hw w) + s * 1000000000" and w': "w' = snd (clock_gettime m w)"
    using assms(2) clock_gettime_ns [OF assms(1), of w]
    by (auto simp: start_timeout_def split_beta Let_def)
  moreover have "now (hw w) \<le> t"
    using clock_law_simps(2) [OF assms(1), of w] assms(3) by (simp add: w')
  ultimately have "nat (d - t) \<le> nat s * 10000 * 100000" using assms(4) by simp
  then have "nat (d - t) div 100000 \<le> nat s * 10000 * 100000 div 100000" by (rule div_le_mono)
  then have "nat (d - t) div 100000 \<le> nat s * 10000" by simp
  then show ?thesis unfolding spin_budget_def by linarith
qed

end
