(* ===== verification/Smi_Gpio.thy ===== *)
theory Smi_Gpio
  imports Smi_Timeout
begin

unbundle bit_operations_syntax

text \<open>
  \<^verbatim>\<open>gpio.c\<close> and \<^verbatim>\<open>gpio.h\<close>: mapped segments and page rounding, the sysfs helpers of
  u-dma-buf, and the GPIO function-select, set, clear and level registers, with the two pin
  initialisers of \<^verbatim>\<open>smi.c\<close>. Pins are natural numbers: a negative pin is an undefined shift
  in C, and no caller passes one. A call of \<^verbatim>\<open>exit\<close> ends the process: the result is \<open>None\<close>.
\<close>

section \<open>Mapped segments\<close>

record MEM_MAP =
  mm_fd :: int
  mm_h :: int
  mm_size :: size_t
  mm_bus :: uintptr
  mm_virt :: uintptr
  mm_phys :: uintptr

definition REG32 :: "MEM_MAP \<Rightarrow> uintptr \<Rightarrow> uintptr" where
  "REG32 mp x = mm_virt mp + x"

definition REG_BUS_ADDR :: "MEM_MAP \<Rightarrow> uintptr \<Rightarrow> u32" where
  "REG_BUS_ADDR mp x = ucast (mm_bus mp) + ucast x"

definition MEM_BUS_ADDR :: "MEM_MAP \<Rightarrow> uintptr \<Rightarrow> u32" where
  "MEM_BUS_ADDR mp a = ucast a - ucast (mm_virt mp) + ucast (mm_bus mp)"

definition PAGE_SIZE :: u32 where "PAGE_SIZE = 0x1000"

definition PAGE_ROUNDUP :: "u32 \<Rightarrow> u32" where
  "PAGE_ROUNDUP n =
     (if n mod PAGE_SIZE = 0 then n else (n + PAGE_SIZE) AND NOT (PAGE_SIZE - 1))"

definition map_segment ::
  "'h machine \<Rightarrow> MEM_MAP \<Rightarrow> uintptr \<Rightarrow> u32 \<Rightarrow> 'h world \<Rightarrow> MEM_MAP option \<times> 'h world" where
  "map_segment m mp addr sz w =
     (let sz = PAGE_ROUNDUP sz;
          (fd, w) = sys m (Open ''/dev/mem'' ''O_RDWR|O_SYNC'') w in
      if fd < 0 then (None, perr ''Could not open /dev/'' w)
      else
        (let (mem, w) = sys m (Mmap (ucast sz) fd addr) w;
             (_, w) = sys m (Close fd) w in
         if mem = -1 then (None, perr ''Could not map memory'' w)
         else
           (Some (mp\<lparr>mm_virt := word_of_int mem, mm_bus := 0, mm_phys := addr,
                      mm_size := ucast sz\<rparr>), w)))"

definition unmap_segment :: "'h machine \<Rightarrow> uintptr \<Rightarrow> u32 \<Rightarrow> 'h world \<Rightarrow> 'h world" where
  "unmap_segment m mem sz w =
     (if mem \<noteq> 0 then snd (sys m (Munmap mem (ucast (PAGE_ROUNDUP sz))) w) else w)"

section \<open>Files of u-dma-buf\<close>

definition read_sysfile_size :: "'h machine \<Rightarrow> string \<Rightarrow> 'h world \<Rightarrow> size_t \<times> 'h world" where
  "read_sysfile_size m file w =
     (let (f, w) = sys m (Fopen file) w in
      if f = 0 then (- 1, perr ''File size couldn't be read'' w)
      else
        (let (sz, w) = sys m (ScanSize file) w;
             (_, w) = sys m (Fclose f) w in
         (word_of_int sz, w)))"

definition read_sysfile_phys_addr ::
  "'h machine \<Rightarrow> string \<Rightarrow> 'h world \<Rightarrow> uintptr \<times> 'h world" where
  "read_sysfile_phys_addr m file w =
     (let (f, w) = sys m (Fopen file) w in
      if f = 0 then (0, perr ''File size couldn't be read'' w)
      else
        (let (location, w) = sys m (ScanPtr file) w;
             (_, w) = sys m (Fclose f) w in
         (word_of_int location, w)))"

text \<open>\<^verbatim>\<open>sprintf\<close> of a decimal number, as bytes.\<close>

fun decimal :: "nat \<Rightarrow> u8 list" where
  "decimal n = (if n < 10 then [48 + of_nat n] else decimal (n div 10) @ [48 + of_nat (n mod 10)])"

declare decimal.simps [simp del]

text \<open>
  The first bytes of \<^verbatim>\<open>attr\<close> are the number and its terminator; the rest of the 1024 bytes
  handed to \<^verbatim>\<open>write\<close> is never initialised.
\<close>

definition write_sync :: "'h machine \<Rightarrow> int \<Rightarrow> nat \<Rightarrow> 'h world \<Rightarrow> int \<times> 'h world" where
  "write_sync m fd val w =
     (if fd < 0 then (- 1, perr ''File size couldn't be read'' w)
      else (0, snd (sys m (WriteFd fd (decimal val @ [0]) 1024) w)))"

definition sync_for_cpu :: "'h machine \<Rightarrow> int \<Rightarrow> 'h world \<Rightarrow> int \<times> 'h world" where
  "sync_for_cpu m fd w = write_sync m fd 1 w"

definition sync_for_device :: "'h machine \<Rightarrow> int \<Rightarrow> 'h world \<Rightarrow> int \<times> 'h world" where
  "sync_for_device m fd w = write_sync m fd 1 w"

section \<open>Pins\<close>

definition gpio_mode :: "'h machine \<Rightarrow> MEM_MAP \<Rightarrow> nat \<Rightarrow> u32 \<Rightarrow> 'h world \<Rightarrow> 'h world" where
  "gpio_mode m gpio_regs pin mode w =
     (let reg = REG32 gpio_regs GPIO_MODE0 + 4 * of_nat (pin div 10);
          shift = (pin mod 10) * 3;
          (v, w) = ld32 m reg w in
      st32 m reg ((v AND NOT (push_bit shift 7)) OR push_bit shift mode) w)"

definition gpio_set :: "'h machine \<Rightarrow> MEM_MAP \<Rightarrow> nat \<Rightarrow> bool \<Rightarrow> 'h world \<Rightarrow> 'h world" where
  "gpio_set m gpio_regs pin val w =
     (let reg = REG32 gpio_regs (if val then GPIO_SET0 else GPIO_CLR0) + 4 * of_nat (pin div 32) in
      st32 m reg (push_bit (pin mod 32) 1) w)"

definition gpio_read :: "'h machine \<Rightarrow> MEM_MAP \<Rightarrow> nat \<Rightarrow> 'h world \<Rightarrow> u8 \<times> 'h world" where
  "gpio_read m gpio_regs pin w =
     (let reg = REG32 gpio_regs GPIO_LEV0 + 4 * of_nat (pin div 32);
          (v, w) = ld32 m reg w in
      (ucast (drop_bit (pin mod 32) v AND 1), w))"

definition GPIO_MODE_STRS :: "string list" where
  "GPIO_MODE_STRS =
     [''IN'', ''OUT'', ''ALT5'', ''ALT4'', ''ALT0'', ''ALT1'', ''ALT2'', ''ALT3'']"

text \<open>The ten strings \<^verbatim>\<open>disp_mode_pins\<close> prints for a function-select register.\<close>

definition disp_mode_pins :: "u32 \<Rightarrow> string list" where
  "disp_mode_pins mode =
     map (\<lambda>i. GPIO_MODE_STRS ! unat (drop_bit (i * 3) mode AND 7)) [0..<10]"

definition gpio_test :: "'h machine \<Rightarrow> MEM_MAP \<Rightarrow> nat \<Rightarrow> 'h world \<Rightarrow> int \<times> 'h world" where
  "gpio_test m gpio_regs pin w =
     (if pin > 53 then (- 1, perr ''Pin out of range'' w)
      else
        (let w = gpio_mode m gpio_regs pin GPIO_OUT w in
         (1, fold (\<lambda>_ w.
                let w = gpio_set m gpio_regs pin True w;
                    w = sleep m 1 w;
                    w = gpio_set m gpio_regs pin False w in
                sleep m 1 w) [0..<5::nat] w)))"

definition smi_gpio_init :: "'h machine \<Rightarrow> MEM_MAP \<Rightarrow> 'h world \<Rightarrow> 'h world" where
  "smi_gpio_init m gpio_map w =
     (let w = gpio_mode m gpio_map SMI_SOE_PIN GPIO_ALT1 w in
      gpio_mode m gpio_map SMI_SWE_PIN GPIO_ALT1 w)"

definition smi_8b_init :: "'h machine \<Rightarrow> MEM_MAP \<Rightarrow> 'h world \<Rightarrow> 'h world" where
  "smi_8b_init m gpio_map w = fold (\<lambda>i. gpio_mode m gpio_map i GPIO_ALT1) [0..<26] w"

section \<open>Page rounding\<close>

lemma page_round_down: "unat ((n :: u32) AND NOT (PAGE_SIZE - 1)) = unat n div 0x1000 * 0x1000"
proof -
  have "n AND NOT (PAGE_SIZE - 1) = push_bit 12 (drop_bit 12 n)"
  proof -
    have "PAGE_SIZE - 1 = (mask 12 :: u32)" by (simp add: PAGE_SIZE_def mask_eq_exp_minus_1)
    then show ?thesis by (auto intro!: bit_word_eqI simp: bit_simps)
  qed
  moreover have "unat n div 0x1000 * 0x1000 < 2 ^ 32"
    using unsigned_less [of n, where ?'a = nat] by simp
  ultimately show ?thesis
    by (simp add: push_bit_eq_mult drop_bit_eq_div unat_word_ariths unat_div)
qed

lemma round_up_nat:
  "(k + 0xFFF) div 0x1000 * 0x1000 = (if k mod 0x1000 = 0 then k else (k + 0x1000) div 0x1000 * 0x1000)"
  for k :: nat
proof -
  define q r where "q = k div 0x1000" and "r = k mod 0x1000"
  then have k: "k = r + q * 0x1000" and "r < 0x1000" by simp_all
  have "(r + 0xFFF + q * 0x1000) div 0x1000 = (if r = 0 then 0 else 1) + q"
  proof (cases "r = 0")
    case True
    then show ?thesis by simp
  next
    case False
    then have "(r + 0xFFF) div 0x1000 = 1"
      using \<open>r < 0x1000\<close> by (intro div_nat_eqI) simp_all
    with False show ?thesis by simp
  qed
  moreover have "(r + (1 + q) * 0x1000) div 0x1000 = 1 + q"
    using \<open>r < 0x1000\<close> by (subst div_mult_self1) simp_all
  ultimately show ?thesis using k \<open>r < 0x1000\<close> by (simp add: ac_simps)
qed

lemma PAGE_ROUNDUP_unat:
  assumes "unat n < 2 ^ 32 - 0x1000"
  shows "unat (PAGE_ROUNDUP n) = (unat n + 0xFFF) div 0x1000 * 0x1000"
proof -
  have m: "n mod PAGE_SIZE = 0 \<longleftrightarrow> unat n mod 0x1000 = 0"
    by (simp add: PAGE_SIZE_def word_unat_eq_iff unat_mod_distrib)
  have "unat (n + PAGE_SIZE) = unat n + 0x1000"
    using assms by (simp add: PAGE_SIZE_def unat_word_ariths)
  then show ?thesis
    by (simp add: PAGE_ROUNDUP_def m page_round_down round_up_nat)
qed

section \<open>Function-select fields\<close>

definition fsel_reg :: "MEM_MAP \<Rightarrow> nat \<Rightarrow> uintptr" where
  "fsel_reg regs pin = REG32 regs GPIO_MODE0 + 4 * of_nat (pin div 10)"

definition pin_field :: "nat \<Rightarrow> field" where
  "pin_field pin = Field ((pin mod 10) * 3) 3"

definition pin_mode :: "(uintptr \<Rightarrow> 'h \<Rightarrow> u32) \<Rightarrow> MEM_MAP \<Rightarrow> nat \<Rightarrow> 'h \<Rightarrow> u32" where
  "pin_mode val regs pin h = bf_get (pin_field pin) (val (fsel_reg regs pin) h)"

lemma pin_field_ok: "fld_ok (pin_field pin)"
  using mod_less_divisor [of 10 pin] by (simp add: fld_ok_def pin_field_def)

lemma pin_field_apart: "p mod 10 \<noteq> q mod 10 \<Longrightarrow> fld_apart (pin_field p) (pin_field q)"
  by (auto simp: fld_apart_def pin_field_def)

lemma fsel_reg_eq:
  assumes "p < 54" and "q < 54"
  shows "fsel_reg regs p = fsel_reg regs q \<longleftrightarrow> p div 10 = q div 10"
proof -
  have "unat (4 * of_nat k :: uintptr) = 4 * k" if "k < 6" for k
    using that by (simp add: unat_word_ariths unat_of_nat)
  moreover have "p div 10 < 6" and "q div 10 < 6" using assms by simp_all
  ultimately have "(4 * of_nat (p div 10) :: uintptr) = 4 * of_nat (q div 10) \<longleftrightarrow> p div 10 = q div 10"
    by (metis mult_left_cancel zero_neq_numeral)
  then show ?thesis by (simp add: fsel_reg_def)
qed

lemma take_3: "(mode :: u32) < 8 \<Longrightarrow> take_bit 3 mode = mode"
  by (simp add: word_unat_eq_iff unsigned_take_bit_eq take_bit_nat_eq_self word_less_nat_alt)

text \<open>A mode that fits its three bits is one assignment to the pin's field.\<close>

lemma gpio_mode_fset:
  assumes "mode < 8"
  shows "gpio_mode m regs pin mode w = fset m (fsel_reg regs pin) (pin_field pin) mode w"
proof -
  have seven: "(7 :: u32) = mask 3" by (simp add: mask_eq_exp_minus_1)
  have "mode AND mask 3 = mode"
    using take_3 [OF assms] by (simp add: take_bit_eq_mask)
  then show ?thesis
    by (simp add: gpio_mode_def fset_def fsel_reg_def bf_set_def REG_SETFIELD_def pin_field_def
        Let_def split_beta seven)
qed

lemma pin_mode_gpio_mode:
  assumes "storage m val R" and "fsel_reg regs p \<in> R" and "fsel_reg regs q \<in> R"
    and "p < 54" and "q < 54" and "mode < 8"
  shows "pin_mode val regs q (hw (gpio_mode m regs p mode w)) =
    (if p = q then mode else pin_mode val regs q (hw w))"
proof -
  have trunc: "bf_trunc (pin_field q) mode = mode"
    using take_3 [OF assms(6)] by (simp add: bf_trunc_def pin_field_def)
  show ?thesis
  proof (cases "p div 10 = q div 10")
    case True
    then have reg: "fsel_reg regs p = fsel_reg regs q" using assms(4,5) by (simp add: fsel_reg_eq)
    show ?thesis
    proof (cases "p = q")
      case True
      then show ?thesis
        by (simp add: pin_mode_def gpio_mode_fset assms storage_fset [OF assms(1,3,3)]
            bf_get_set pin_field_ok trunc)
    next
      case False
      with \<open>p div 10 = q div 10\<close> have "p mod 10 \<noteq> q mod 10" by (metis div_mult_mod_eq)
      with False show ?thesis
        by (simp add: pin_mode_def gpio_mode_fset assms reg storage_fset [OF assms(1,3,3)]
            bf_get_set_apart pin_field_apart)
    qed
  next
    case False
    then have "fsel_reg regs p \<noteq> fsel_reg regs q" using assms(4,5) by (simp add: fsel_reg_eq)
    with False show ?thesis
      by (auto simp: pin_mode_def gpio_mode_fset assms storage_fset [OF assms(1,2,3)])
  qed
qed

lemma pin_mode_fold:
  assumes "storage m val R" and "\<And>p. p < 54 \<Longrightarrow> fsel_reg regs p \<in> R"
    and "q < 54" and "mode < 8" and "n \<le> 54"
  shows "pin_mode val regs q (hw (fold (\<lambda>i. gpio_mode m regs i mode) [0..<n] w)) =
    (if q < n then mode else pin_mode val regs q (hw w))"
  using assms(5)
proof (induction n)
  case 0
  then show ?case by simp
next
  case (Suc n)
  then show ?case
    using assms by (simp add: pin_mode_gpio_mode [OF assms(1)] less_Suc_eq)
qed

section \<open>Properties\<close>

text \<open>A segment mapped at a given address, for evaluating the definitions.\<close>

definition sample_map :: "uintptr \<Rightarrow> MEM_MAP" where
  "sample_map a = \<lparr>mm_fd = 0, mm_h = 0, mm_size = 4096, mm_bus = 0, mm_virt = a, mm_phys = 0\<rparr>"

text \<open>
  \<^verbatim>\<open>PAGE_ROUNDUP\<close> gives the least multiple of the page size that is not below its argument,
  for every 32-bit size up to the last page; above that the sum would wrap.
\<close>
theorem PAGE_ROUNDUP_least:
  assumes "unat n \<le> 2 ^ 32 - 0x1000"
  shows "0x1000 dvd unat (PAGE_ROUNDUP n) \<and> n \<le> PAGE_ROUNDUP n \<and>
    unat (PAGE_ROUNDUP n) < unat n + 0x1000"
proof (cases "unat n = 2 ^ 32 - 0x1000")
  case True
  then have "n mod PAGE_SIZE = 0" by (simp add: PAGE_SIZE_def word_unat_eq_iff unat_mod_distrib)
  then show ?thesis using True by (simp add: PAGE_ROUNDUP_def)
next
  case False
  define k where "k = unat n"
  have r: "unat (PAGE_ROUNDUP n) = (k + 0xFFF) div 0x1000 * 0x1000"
    using False assms by (simp add: PAGE_ROUNDUP_unat k_def)
  have "(k + 0xFFF) div 0x1000 * 0x1000 + (k + 0xFFF) mod 0x1000 = k + 0xFFF"
    by (rule div_mult_mod_eq)
  moreover have "(k + 0xFFF) mod 0x1000 < 0x1000" by simp
  ultimately show ?thesis
    unfolding word_le_nat_alt r k_def [symmetric] by (intro conjI dvd_triv_right) linarith+
qed

theorem PAGE_ROUNDUP_least_witness:
  "unat (PAGE_ROUNDUP 0x1001) < 0x2001 \<and> 0x1001 \<le> PAGE_ROUNDUP 0x1001"
  using PAGE_ROUNDUP_least [of "0x1001"] by simp

text \<open>
  \<^verbatim>\<open>smi_gpio_init\<close> puts the SOE and SWE pins in alternate function 1, and \<^verbatim>\<open>smi_8b_init\<close>
  pins 0 to 25; the mode of every other pin of the controller is as it was.
\<close>
theorem pin_initialisers:
  assumes "storage m val (fsel_reg regs ` {..<54})" and "q < 54"
  shows "pin_mode val regs q (hw (smi_gpio_init m regs w)) =
      (if q = SMI_SOE_PIN \<or> q = SMI_SWE_PIN then GPIO_ALT1 else pin_mode val regs q (hw w)) \<and>
    pin_mode val regs q (hw (smi_8b_init m regs w)) =
      (if q < 26 then GPIO_ALT1 else pin_mode val regs q (hw w))"
proof
  show "pin_mode val regs q (hw (smi_gpio_init m regs w)) =
      (if q = SMI_SOE_PIN \<or> q = SMI_SWE_PIN then GPIO_ALT1 else pin_mode val regs q (hw w))"
    using assms(2) by (auto simp: smi_gpio_init_def SMI_SOE_PIN_def SMI_SWE_PIN_def GPIO_ALT1_def
        Let_def pin_mode_gpio_mode [OF assms(1)])
  show "pin_mode val regs q (hw (smi_8b_init m regs w)) =
      (if q < 26 then GPIO_ALT1 else pin_mode val regs q (hw w))"
    using assms(2) by (simp add: smi_8b_init_def GPIO_ALT1_def pin_mode_fold [OF assms(1)])
qed

theorem pin_initialisers_witness:
  "pin_mode ram_reg (sample_map 0x2000) 7
     (hw (smi_gpio_init (ram0) (sample_map 0x2000) (ram_world (\<lambda>_. 0)))) = GPIO_ALT1"
  using pin_initialisers [where q = 7, OF ram_storage] by (simp add: SMI_SWE_PIN_def)

lemma map_segment_handles:
  "map_segment m mp addr sz w = (Some mp', w') \<Longrightarrow>
     handles w' = add_mset (Seg (mm_virt mp')) (handles w) \<and> mm_phys mp' = addr"
  by (auto simp: map_segment_def split_beta Let_def multiset_eq_iff split: if_splits)

lemma gpio_mode_handles [simp]: "handles (gpio_mode m regs p mode w) = handles w"
  by (simp add: gpio_mode_def split_beta Let_def)

lemma smi_gpio_init_handles [simp]: "handles (smi_gpio_init m regs w) = handles w"
  by (simp add: smi_gpio_init_def Let_def)

lemma unmap_segment_handles:
  "handles (unmap_segment m a n w) = (if a = 0 then handles w else handles w - {#Seg a#})"
  by (simp add: unmap_segment_def)

end
