(* ===== verification/Smi_Context.thy ===== *)
theory Smi_Context
  imports Smi_Gpio
begin

text \<open>
  The structs of \<^verbatim>\<open>smi.h\<close> that hold the driver's configuration. A pointer member is an
  \<open>option\<close>, with \<open>None\<close> the null pointer, and following a null pointer is undefined
  (\<open>deref\<close>). A C \<^verbatim>\<open>bool\<close> is a \<open>bool\<close>; assigning an integer to one keeps only
  whether it is zero. \<open>wf_cxt\<close> is the well-formedness the library functions keep: four
  configurations of each kind, and a raw buffer as long as its recorded size.
\<close>

definition deref :: "'a option \<Rightarrow> 'a outcome" where
  "deref p = (case p of None \<Rightarrow> Undefined | Some x \<Rightarrow> Returns x)"

lemma deref_simps [simp, outcome_simps]:
  "deref (Some x) = Returns x"
  "deref None = Undefined"
  by (simp_all add: deref_def)

lemma deref_eq_Returns [simp]: "deref p = Returns x \<longleftrightarrow> p = Some x"
  by (cases p) auto

section \<open>Structs\<close>

record SMI_CLK =
  clk_device_num :: u8
  clk_rsetup :: u8
  clk_rhold :: u8
  clk_rstrobe :: u8
  clk_rpace :: u8
  clk_wsetup :: u8
  clk_whold :: u8
  clk_wstrobe :: u8
  clk_wpace :: u8

record SMI_READ =
  rwidth :: u8
  rhold :: u8
  rpace :: u8
  rstrobe :: u8
  rsetup :: u8
  mode68 :: bool
  fsetup :: bool
  rpaceall :: bool
  rdreq :: bool

record SMI_WRITE =
  wwidth :: u8
  wsetup :: u8
  whold :: u8
  wpace :: u8
  wstrobe :: u8
  wformat :: bool
  wswap :: bool
  wpaceall :: bool
  wdreq :: bool

record SMI_RW =
  write_device_num :: u8
  read_device_num :: u8
  clk :: "SMI_CLK option"
  rconfig :: "SMI_READ list"
  wconfig :: "SMI_WRITE list"

record SMI_DMA =
  dmap :: bool
  panicr :: bool
  panicw :: bool
  reqr :: bool
  reqw :: bool

record SMI_RAW_BUF =
  rb_buf :: "u32 list option"
  rb_size :: size_t

record SMI_CXT =
  interface_width :: u8
  pixel_format :: u8
  pixel_value_mode :: u8
  device_settings_select :: u8
  pad :: bool
  tear :: bool
  prdy :: bool
  pxldata :: bool
  intr :: bool
  intt :: bool
  intd :: bool
  dma :: bool
  fd_sync_dev :: int
  fd_sync_cpu :: int
  raw_buffer :: SMI_RAW_BUF
  dma_config :: SMI_DMA
  smi_regs :: "MEM_MAP option"
  gpio_regs :: "MEM_MAP option"
  dma_regs :: "MEM_MAP option"
  clk_regs :: "MEM_MAP option"
  dma_buffer :: "MEM_MAP option"
  rw_config :: "SMI_RW option"

record smi_pack_ratio_t =
  ratio_read :: u8
  ratio_out_pixels :: u8

text \<open>A C \<^verbatim>\<open>bool\<close> or \<^verbatim>\<open>uint8_t\<close> assigned to a register member.\<close>

abbreviation bool32 :: "bool \<Rightarrow> u32" where
  "bool32 b \<equiv> of_bool b"

abbreviation byte32 :: "u8 \<Rightarrow> u32" where
  "byte32 b \<equiv> ucast b"

section \<open>Well-formedness\<close>

definition wf_rw :: "SMI_RW \<Rightarrow> bool" where
  "wf_rw rw \<longleftrightarrow> length (rconfig rw) = 4 \<and> length (wconfig rw) = 4"

definition wf_raw :: "SMI_RAW_BUF \<Rightarrow> bool" where
  "wf_raw rb \<longleftrightarrow> (\<exists>xs. rb_buf rb = Some xs \<and> length xs = unat (rb_size rb))"

definition wf_cxt :: "SMI_CXT \<Rightarrow> bool" where
  "wf_cxt cxt \<longleftrightarrow> wf_raw (raw_buffer cxt) \<and> (\<exists>rw. rw_config cxt = Some rw \<and> wf_rw rw)"

text \<open>
  The configuration of device 0, which the packing and unpacking functions read
  (\<^verbatim>\<open>rconfig->rwidth\<close> and \<^verbatim>\<open>wconfig->wformat\<close> are the first array elements).
\<close>

definition config0 :: "SMI_CXT \<Rightarrow> (SMI_READ \<times> SMI_WRITE) outcome" where
  "config0 cxt =
     obind (deref (rw_config cxt)) (\<lambda>rw.
     obind (fetch (rconfig rw) 0) (\<lambda>rc.
     obind (fetch (wconfig rw) 0) (\<lambda>wc.
     Returns (rc, wc))))"

lemma config0_wf:
  "rw_config cxt = Some rw \<Longrightarrow> wf_rw rw \<Longrightarrow> config0 cxt = Returns (rconfig rw ! 0, wconfig rw ! 0)"
  by (auto simp: wf_rw_def config0_def fetch_def)

lemma config0_cong:
  "rw_config cxt = rw_config cxt' \<Longrightarrow> config0 cxt = config0 cxt'"
  by (simp add: config0_def)

section \<open>A sample context\<close>

text \<open>
  A context as \<^verbatim>\<open>main.c\<close> sets one up, for evaluating the definitions: all four devices
  configured alike, the peripherals mapped one page apart.
\<close>

definition sample_read :: "u8 \<Rightarrow> SMI_READ" where
  "sample_read width =
     \<lparr>rwidth = width, rhold = 1, rpace = 2, rstrobe = 3, rsetup = 4, mode68 = False,
      fsetup = True, rpaceall = False, rdreq = True\<rparr>"

definition sample_write :: "bool \<Rightarrow> bool \<Rightarrow> SMI_WRITE" where
  "sample_write format swap =
     \<lparr>wwidth = 0, wsetup = 5, whold = 6, wpace = 7, wstrobe = 8, wformat = format, wswap = swap,
      wpaceall = False, wdreq = True\<rparr>"

definition sample_rw :: "u8 \<Rightarrow> bool \<Rightarrow> bool \<Rightarrow> SMI_RW" where
  "sample_rw width format swap =
     \<lparr>write_device_num = 2, read_device_num = 1, clk = None,
      rconfig = replicate 4 (sample_read width), wconfig = replicate 4 (sample_write format swap)\<rparr>"

definition sample_cxt :: "u8 \<Rightarrow> bool \<Rightarrow> bool \<Rightarrow> bool \<Rightarrow> SMI_CXT" where
  "sample_cxt width format swap packed =
     \<lparr>interface_width = 0, pixel_format = 0, pixel_value_mode = 0, device_settings_select = 0,
      pad = False, tear = False, prdy = False, pxldata = packed, intr = False, intt = False,
      intd = False, dma = False, fd_sync_dev = 3, fd_sync_cpu = 4,
      raw_buffer = \<lparr>rb_buf = Some (replicate 2 0), rb_size = 2\<rparr>,
      dma_config = \<lparr>dmap = False, panicr = True, panicw = True, reqr = True, reqw = True\<rparr>,
      smi_regs = Some (sample_map 0x1000), gpio_regs = Some (sample_map 0x2000),
      dma_regs = Some (sample_map 0x10000), clk_regs = Some (sample_map 0x3000),
      dma_buffer = Some (sample_map 0x4000),
      rw_config = Some (sample_rw width format swap)\<rparr>"

lemmas sample_defs =
  sample_read_def sample_write_def sample_map_def sample_cxt_def sample_rw_def

lemma sample_simps [simp]:
  "smi_regs (sample_cxt width format swap packed) = Some (sample_map 0x1000)"
  "dma_regs (sample_cxt width format swap packed) = Some (sample_map 0x10000)"
  "dma_buffer (sample_cxt width format swap packed) = Some (sample_map 0x4000)"
  "rw_config (sample_cxt width format swap packed) = Some (sample_rw width format swap)"
  "raw_buffer (sample_cxt width format swap packed) = \<lparr>rb_buf = Some (replicate 2 0), rb_size = 2\<rparr>"
  "pxldata (sample_cxt width format swap packed) = packed"
  "REG32 (sample_map a) x = a + x"
  "wf_rw (sample_rw width format swap)"
  "rconfig (sample_rw width format swap) = replicate 4 (sample_read width)"
  "wconfig (sample_rw width format swap) = replicate 4 (sample_write format swap)"
  "read_device_num (sample_rw width format swap) = 1"
  "write_device_num (sample_rw width format swap) = 2"
  by (simp_all add: sample_cxt_def sample_map_def sample_rw_def REG32_def wf_rw_def)

lemma sample_cxt_wf: "wf_cxt (sample_cxt width format swap packed)"
  by (simp add: wf_cxt_def wf_raw_def)

lemma sample_config0:
  "config0 (sample_cxt width format swap packed) =
     Returns (sample_read width, sample_write format swap)"
  by (simp add: config0_def fetch_def)

end
