(* ===== verification/Smi_Dma.thy ===== *)
theory Smi_Dma
  imports Smi_Context
begin

unbundle bit_operations_syntax

text \<open>
  \<^verbatim>\<open>dma.c\<close> and \<^verbatim>\<open>dma.h\<close>: the control block, mapping and testing the u-dma-buf buffer, and
  starting a channel. The build is the 64-bit one (\<^verbatim>\<open>PI_ARM64\<close>), which syncs the buffer before
  a start. The mapped buffer is ordinary memory, a list of bytes handed to and returned by the
  functions that work on it; what \<^verbatim>\<open>printf\<close> shows of it is left out.
\<close>

section \<open>Control blocks\<close>

record DMA_CB =
  cb_ti :: u32
  cb_src_addr :: u32
  cb_dest_addr :: u32
  cb_tfr_len :: u32
  cb_stride :: u32
  cb_next_cb :: u32
  cb_debug :: u32
  cb_unused :: u32

definition DMA_WAIT_RSP :: u32 where "DMA_WAIT_RSP = push_bit 3 1"
definition DMA_CB_DEST_INC :: u32 where "DMA_CB_DEST_INC = push_bit 4 1"
definition DMA_DEST_DREQ :: u32 where "DMA_DEST_DREQ = push_bit 6 1"
definition DMA_CB_SRCE_INC :: u32 where "DMA_CB_SRCE_INC = push_bit 8 1"
definition DMA_SRCE_DREQ :: u32 where "DMA_SRCE_DREQ = push_bit 10 1"
definition DMA_SMI_DREQ :: u32 where "DMA_SMI_DREQ = 4"

lemmas dma_flag_defs =
  DMA_WAIT_RSP_def DMA_CB_DEST_INC_def DMA_DEST_DREQ_def DMA_CB_SRCE_INC_def DMA_SRCE_DREQ_def
  DMA_SMI_DREQ_def

definition DMA_BUFFER_SIZE :: nat where "DMA_BUFFER_SIZE = 1024"
definition NADJ_CHANNELS :: u32 where "NADJ_CHANNELS = 14"

section \<open>The buffer\<close>

definition map_dma_buffer :: "'h machine \<Rightarrow> size_t \<Rightarrow> 'h world \<Rightarrow> uintptr \<times> 'h world" where
  "map_dma_buffer m buf_size w =
     (let (fd, w) = sys m (Open ''/dev/udmabuf0'' ''O_RDWR'') w in
      if fd < 0 then (0, perr ''ERROR: failed opening /dev/udmabuf0'' w)
      else
        (let (buf, w) = sys m (Mmap buf_size fd 0) w in
         if buf = - 1 then
           (let w = perr ''ERROR: buffer mapping failed'' w;
                (_, w) = sys m (Close fd) w in
            (0, w))
         else
           (let (_, w) = sys m (Close fd) w in
            (word_of_int buf, w))))"

text \<open>
  One of the nine passes of \<^verbatim>\<open>check_buf\<close>: from offset \<open>i\<close>, write a chunk of at most 256 bytes,
  then compare it, and go on after it. Offsets and sizes are exact: the C code has them in \<^verbatim>\<open>int\<close>
  and \<^verbatim>\<open>unsigned\<close>, which agree with that for buffers below 2 GiB (its only caller passes
  \<^verbatim>\<open>DMA_BUFFER_SIZE\<close>).
\<close>

definition check_write :: "nat \<Rightarrow> nat \<Rightarrow> u8 list \<Rightarrow> u8 list outcome" where
  "check_write i m = c_for 0 m (\<lambda>k buf. store buf (i + k) [of_nat k AND 0xFF])"

definition check_read :: "nat \<Rightarrow> nat \<Rightarrow> u8 list \<Rightarrow> nat \<Rightarrow> nat outcome" where
  "check_read i m buf = c_for 0 m (\<lambda>k errors. obind (fetch buf (i + k)) (\<lambda>b.
     Returns (if b \<noteq> of_nat k AND 0xFF then errors + 1 else errors)))"

function check_pass :: "nat \<Rightarrow> nat \<Rightarrow> u8 list \<times> nat \<Rightarrow> (u8 list \<times> nat) outcome" where
  "check_pass i sz (buf, errors) =
     (if i < sz then
        (let m = if i + 256 < sz then 256 else sz - i in
         obind (check_write i m buf) (\<lambda>buf.
         obind (check_read i m buf errors) (\<lambda>errors.
         check_pass (i + m) sz (buf, errors))))
      else Returns (buf, errors))"
  by pat_completeness auto
termination
  by (relation "measure (\<lambda>(i, sz, s). sz - i)") auto

declare check_pass.simps [simp del]

definition check_buf :: "u8 list \<Rightarrow> nat \<Rightarrow> (nat \<times> u8 list) outcome" where
  "check_buf buf sz =
     obind (c_for 0 9 (\<lambda>_. check_pass 0 sz) (buf, 0)) (\<lambda>(buf, errors). Returns (errors, buf))"

definition clear_buf :: "u8 list \<Rightarrow> nat \<Rightarrow> (nat \<times> u8 list) outcome" where
  "clear_buf buf sz =
     obind (c_for 0 99 (\<lambda>_ buf. store buf 0 (replicate sz 0)) buf) (\<lambda>buf. Returns (0, buf))"

definition dma_buffer_init ::
  "'h machine \<Rightarrow> MEM_MAP \<Rightarrow> bool \<Rightarrow> bool \<Rightarrow> u8 list \<Rightarrow> 'h world
     \<Rightarrow> (size_t \<times> MEM_MAP \<times> u8 list \<times> 'h world) outcome" where
  "dma_buffer_init m buff check clear mem w =
     (let (virt, w) = map_dma_buffer m (of_nat DMA_BUFFER_SIZE) w;
          buff = buff\<lparr>mm_virt := virt\<rparr> in
      if virt = 0 then Returns (- 1, buff, mem, perr ''Error mapping segment'' w)
      else
        (let (sz, w) = read_sysfile_size m ''/sys/class/u-dma-buf/udmabuf0/size'' w;
             buff = buff\<lparr>mm_size := sz\<rparr>;
             (phys, w) = read_sysfile_phys_addr m ''/sys/class/u-dma-buf/udmabuf0/phys_addr'' w;
             buff = buff\<lparr>mm_phys := phys\<rparr>;
             buff = buff\<lparr>mm_bus := mm_phys buff + 0xC0000000\<rparr> in
         obind (if check then check_buf mem DMA_BUFFER_SIZE else Returns (0, mem)) (\<lambda>(errors, mem).
         if 0 < errors then Returns (- 1, buff, mem, perr ''ERROR: Buffer initialisation check failed'' w)
         else
           obind (if clear then clear_buf mem DMA_BUFFER_SIZE else Returns (0, mem)) (\<lambda>(errors, mem).
           if 0 < errors then Returns (- 1, buff, mem, perr ''ERROR: Buffer initialisation clear failed'' w)
           else Returns (mm_size buff, buff, mem, w)))))"

section \<open>Starting a channel\<close>

definition start_dma ::
  "'h machine \<Rightarrow> uintptr \<Rightarrow> uintptr \<Rightarrow> u8 \<Rightarrow> int \<Rightarrow> int \<Rightarrow> 'h world \<Rightarrow> int \<times> 'h world" where
  "start_dma m regs cb channel fd_dev fd_cpu w =
     (if cb = 0 then (- 1, perr ''ERROR: CB Null Pointer'' w)
      else if channel > 14 then (- 1, perr ''ERROR: Channel out of range'' w)
      else
        (let (_, w) = sync_for_cpu m fd_cpu w;
             dma_cs = regs + DMA_CS_OFFSET channel;
             dma_conblk_ad = regs + DMA_CTRL_BLK channel;
             (active, w) = fget m dma_cs DMACS_active w in
         if active \<noteq> 0 then (- 1, perr ''DMA already active'' w)
         else
           (let w = st32 m dma_conblk_ad (ucast cb) w;
                w = fset m dma_cs DMACS_active 1 w in
            (0, w))))"

section \<open>Testing and clearing memory\<close>

definition ramp :: "nat \<Rightarrow> nat \<Rightarrow> u8 list" where
  "ramp i j = map of_nat [i..<j]"

lemma length_ramp [simp]: "length (ramp i j) = j - i"
  by (simp add: ramp_def)

lemma ramp_append: "i \<le> j \<Longrightarrow> j \<le> k \<Longrightarrow> ramp i j @ ramp j k = ramp i k"
  by (metis ramp_def map_append le_add_diff_inverse upt_add_eq_append)

lemma byte_and_mask [simp]: "(x :: u8) AND 0xFF = x"
  by (rule bit_word_eqI) (auto simp: bit_simps less_Suc_eq eval_nat_numeral dest: bit_imp_le_length)

text \<open>A chunk starts at a multiple of 256, so its bytes are the low bytes of the offsets.\<close>

lemma of_nat_chunk:
  assumes "256 dvd i"
  shows "(of_nat (i + k) :: u8) = of_nat k"
proof -
  have "(of_nat i :: u8) = 0"
    using assms by (simp add: word_of_nat_eq_0_iff)
  then show ?thesis by simp
qed

lemma check_write_ramp:
  assumes "256 dvd i" and "i + m \<le> length buf"
  shows "check_write i m buf = Returns (overlay buf i (ramp i (i + m)))"
  using assms(2)
proof (induction m)
  case 0
  then show ?case by (simp add: check_write_def ramp_def)
next
  case (Suc m)
  have "overlay (overlay buf i (ramp i (i + m))) (i + length (ramp i (i + m))) [of_nat m]
      = overlay buf i (ramp i (i + m) @ [of_nat m])"
    using Suc.prems by (intro overlay_overlay) simp
  moreover have "ramp i (i + m) @ [of_nat m] = ramp i (i + Suc m)"
    using of_nat_chunk [OF assms(1), of m] by (simp add: ramp_def)
  ultimately show ?case
    using Suc by (simp add: check_write_def c_for_snoc store_def)
qed

lemma check_read_same:
  assumes "256 dvd i" and "i + m \<le> length buf" and "\<forall>k<m. buf ! (i + k) = of_nat (i + k)"
  shows "check_read i m buf errors = Returns errors"
  using assms(2,3)
proof (induction m)
  case 0
  then show ?case by (simp add: check_read_def)
next
  case (Suc m)
  then show ?case
    using of_nat_chunk [OF assms(1), of m] by (simp add: check_read_def c_for_snoc fetch_def)
qed

lemma nth_overlay_mid:
  "d \<le> i \<Longrightarrow> i < d + length xs \<Longrightarrow> d + length xs \<le> length buf \<Longrightarrow> overlay buf d xs ! i = xs ! (i - d)"
  by (auto simp: overlay_def nth_append)

lemma check_pass_ramp:
  assumes "256 dvd i" and "i \<le> sz" and "sz \<le> length buf"
  shows "check_pass i sz (buf, errors) = Returns (overlay buf i (ramp i sz), errors)"
  using assms
proof (induction i sz "(buf, errors)" arbitrary: buf rule: check_pass.induct)
  case (1 i sz buf)
  show ?case
  proof (cases "i < sz")
    case False
    then show ?thesis using 1(3) by (simp add: check_pass.simps ramp_def)
  next
    case True
    define m where "m = (if i + 256 < sz then 256 else sz - i)"
    define buf' where "buf' = overlay buf i (ramp i (i + m))"
    have fit: "i + m \<le> sz" using True by (simp add: m_def)
    have same: "check_read i m buf' errors = Returns errors"
      using 1(2,4) fit by (intro check_read_same) (simp_all add: buf'_def nth_overlay_mid ramp_def)
    have written: "check_write i m buf = Returns buf'"
      using 1(2,4) fit by (simp add: check_write_ramp buf'_def)
    have len: "sz \<le> length buf'" using 1(4) fit by (simp add: buf'_def)
    have step: "check_pass i sz (buf, errors) = check_pass (i + m) sz (buf', errors)"
      using True by (simp add: check_pass.simps [of i sz] written same flip: m_def)
    show ?thesis
    proof (cases "i + 256 < sz")
      case True
      then have "m = 256" by (simp add: m_def)
      then have "check_pass (i + m) sz (buf', errors)
          = Returns (overlay buf' (i + m) (ramp (i + m) sz), errors)"
        using 1(1) [OF \<open>i < sz\<close> m_def, of buf'] 1(2) fit len by simp
      moreover have "overlay buf' (i + length (ramp i (i + m))) (ramp (i + m) sz)
          = overlay buf i (ramp i (i + m) @ ramp (i + m) sz)"
        unfolding buf'_def using 1(4) fit by (intro overlay_overlay) simp
      ultimately show ?thesis using step fit by (simp add: ramp_append)
    next
      case False
      with \<open>i < sz\<close> have "i + m = sz" by (simp add: m_def)
      then show ?thesis using step by (simp add: check_pass.simps buf'_def)
    qed
  qed
qed

lemma overlay_again: "length ys = length xs \<Longrightarrow> d + length xs \<le> length buf \<Longrightarrow>
    overlay (overlay buf d xs) d ys = overlay buf d ys"
  by (simp add: overlay_def)

lemma c_for_repeat:
  assumes "\<And>i s. P s \<Longrightarrow> f i s = Returns (g s) \<and> P (g s) \<and> g (g s) = g s" and "P s"
  shows "c_for 0 (Suc n) f s = Returns (g s)"
proof (induction n)
  case 0
  then show ?case using assms by (simp add: c_for_step)
next
  case (Suc n)
  have "c_for 0 (Suc (Suc n)) f s = obind (c_for 0 (Suc n) f s) (f (Suc n))"
    by (rule c_for_snoc) simp
  then show ?case using Suc assms by simp
qed

lemma check_buf_ramp:
  assumes "sz \<le> length buf"
  shows "check_buf buf sz = Returns (0, overlay buf 0 (ramp 0 sz))"
proof -
  have "c_for 0 (Suc 8) (\<lambda>_. check_pass 0 sz) (buf, 0) =
      Returns ((\<lambda>(b, e). (overlay b 0 (ramp 0 sz), e)) (buf, 0))"
    by (rule c_for_repeat [where P = "\<lambda>(b, e). sz \<le> length b"])
      (use assms in \<open>auto simp: check_pass_ramp overlay_again\<close>)
  then show ?thesis by (simp add: check_buf_def)
qed

lemma clear_buf_zero:
  assumes "sz \<le> length buf"
  shows "clear_buf buf sz = Returns (0, overlay buf 0 (replicate sz 0))"
proof -
  have "c_for 0 (Suc 98) (\<lambda>_ buf. store buf 0 (replicate sz 0)) buf =
      Returns (overlay buf 0 (replicate sz 0))"
    by (rule c_for_repeat [where P = "\<lambda>b. sz \<le> length b"])
      (use assms in \<open>auto simp: store_def overlay_again\<close>)
  then show ?thesis by (simp add: clear_buf_def)
qed

section \<open>Handles of the buffer set-up\<close>

lemma map_dma_buffer_handles:
  "handles (snd (map_dma_buffer m n w)) = handles w
   \<or> handles (snd (map_dma_buffer m n w)) = add_mset (Seg (fst (map_dma_buffer m n w))) (handles w)"
  by (auto simp: map_dma_buffer_def split_beta Let_def multiset_eq_iff)

lemma map_dma_buffer_mapped:
  "fst (map_dma_buffer m n w) \<noteq> 0 \<Longrightarrow>
   handles (snd (map_dma_buffer m n w)) = add_mset (Seg (fst (map_dma_buffer m n w))) (handles w)"
  by (auto simp: map_dma_buffer_def split_beta Let_def multiset_eq_iff split: if_splits)

lemma read_sysfile_handles [simp]:
  "handles (snd (read_sysfile_size m f w)) = handles w"
  "handles (snd (read_sysfile_phys_addr m f w)) = handles w"
  by (auto simp: read_sysfile_size_def read_sysfile_phys_addr_def split_beta Let_def)

lemma write_sync_log [simp]:
  "handles (snd (sync_for_cpu m fd w)) = handles w"
  "store_addrs (snd (sync_for_cpu m fd w)) = store_addrs w"
  "stores (log (snd (sync_for_cpu m fd w))) = stores (log w)"
  by (simp_all add: sync_for_cpu_def write_sync_def split_beta Let_def)

lemma dma_buffer_init_result:
  assumes "DMA_BUFFER_SIZE \<le> length mem"
  shows "\<exists>r b mem' w'. dma_buffer_init m buff True True mem w = Returns (r, b, mem', w') \<and>
    (if mm_virt b = 0 then r = - 1 \<and> mem' = mem
     else r = mm_size b \<and> mem' = replicate DMA_BUFFER_SIZE 0 @ drop DMA_BUFFER_SIZE mem \<and>
       mm_bus b = mm_phys b + 0xC0000000 \<and> handles w' = add_mset (Seg (mm_virt b)) (handles w)) \<and>
    (handles w' = handles w \<or> handles w' = add_mset (Seg (mm_virt b)) (handles w))"
proof -
  define v where "v = fst (map_dma_buffer m (of_nat DMA_BUFFER_SIZE) w)"
  have check: "check_buf mem DMA_BUFFER_SIZE =
      Returns (0, overlay mem 0 (ramp 0 DMA_BUFFER_SIZE))"
    using assms by (rule check_buf_ramp)
  have clear: "clear_buf (overlay mem 0 (ramp 0 DMA_BUFFER_SIZE)) DMA_BUFFER_SIZE =
      Returns (0, replicate DMA_BUFFER_SIZE 0 @ drop DMA_BUFFER_SIZE mem)"
    using assms by (simp add: clear_buf_zero overlay_again) (simp add: overlay_def)
  show ?thesis
    using map_dma_buffer_handles [of m "of_nat DMA_BUFFER_SIZE" w]
      map_dma_buffer_mapped [of m "of_nat DMA_BUFFER_SIZE" w]
    by (auto simp: dma_buffer_init_def split_beta Let_def check clear simp flip: v_def)
qed

section \<open>Properties\<close>



text \<open>
  C27: Setting up the u-dma-buf buffer with \<^verbatim>\<open>check\<close> and \<^verbatim>\<open>clear\<close> always comes to an end: if the
  mapping fails the result is \<^verbatim>\<open>-1\<close> and the memory is untouched; if not, the buffer is all zero,
  its bus address is its physical one plus \<^verbatim>\<open>0xC0000000\<close>, and the result is its size. Either
  way no descriptor and no stream stays open, and the one segment kept is the buffer's.
\<close>
theorem dma_buffer_init_ready:
  assumes "DMA_BUFFER_SIZE \<le> length mem"
  shows "\<exists>r b mem' w'. dma_buffer_init m buff True True mem w = Returns (r, b, mem', w') \<and>
    (if mm_virt b = 0 then r = - 1 \<and> mem' = mem
     else r = mm_size b \<and> mem' = replicate DMA_BUFFER_SIZE 0 @ drop DMA_BUFFER_SIZE mem \<and>
       mm_bus b = mm_phys b + 0xC0000000 \<and> handles w' = add_mset (Seg (mm_virt b)) (handles w)) \<and>
    (handles w' = handles w \<or> handles w' = add_mset (Seg (mm_virt b)) (handles w))"
  using assms by (rule dma_buffer_init_result)

theorem dma_buffer_init_ready_witness:
  "\<exists>r b mem' w'. dma_buffer_init (ram_machine (\<lambda>_. 5)) (sample_map 0) True True (replicate 1024 7)
       (ram_world (\<lambda>_. 0)) = Returns (r, b, mem', w') \<and> mem' = replicate 1024 0"
proof -
  have "fst (map_dma_buffer (ram_machine (\<lambda>_. 5)) (of_nat DMA_BUFFER_SIZE) (ram_world (\<lambda>_. 0))) = 5"
    by (simp add: map_dma_buffer_def sys_def ram_machine_def ram_world_def)
  then have v: "dma_buffer_init (ram_machine (\<lambda>_. 5)) (sample_map 0) True True (replicate 1024 7)
       (ram_world (\<lambda>_. 0)) = Returns (r, b, mem', w') \<Longrightarrow> mm_virt b = 5" for r b mem' w'
    by (auto simp: dma_buffer_init_def split_beta Let_def split: if_splits)
  have "DMA_BUFFER_SIZE \<le> length (replicate 1024 (7 :: u8))" by (simp add: DMA_BUFFER_SIZE_def)
  from dma_buffer_init_ready [OF this, of "ram_machine (\<lambda>_. 5)" "sample_map 0" "ram_world (\<lambda>_. 0)"]
  obtain r b mem' w' where init: "dma_buffer_init (ram_machine (\<lambda>_. 5)) (sample_map 0) True True
       (replicate 1024 7) (ram_world (\<lambda>_. 0)) = Returns (r, b, mem', w')"
    and "mm_virt b \<noteq> 0 \<longrightarrow> mem' = replicate 1024 0"
    by (auto simp: DMA_BUFFER_SIZE_def split: if_splits)
  with v [OF init] show ?thesis by auto
qed

text \<open>
  \<^verbatim>\<open>start_dma\<close> either fails and stores to no register, or succeeds on a channel up to 14 that
  was not active, having stored exactly the control block address and then the activated control
  register, of that channel.
\<close>
theorem start_dma_stores:
  "case start_dma m regs cb channel fd_dev fd_cpu w of (r, w') \<Rightarrow>
     r = - 1 \<and> store_addrs w' = store_addrs w \<or>
     r = 0 \<and> cb \<noteq> 0 \<and> channel \<le> 14 \<and>
     (\<exists>v. bf_get DMACS_active v = 1 \<and>
        fst (fget m (regs + DMA_CS_OFFSET channel) DMACS_active (snd (sync_for_cpu m fd_cpu w))) = 0 \<and>
        stores (log w') = stores (log w) @
          [(regs + DMA_CTRL_BLK channel, ucast cb), (regs + DMA_CS_OFFSET channel, v)])"
  by (auto simp: start_dma_def split_beta Let_def not_less bf_get_set fld_ok_def bf_trunc_def)

end
