(* ===== verification/Smi_Unpack.thy ===== *)
theory Smi_Unpack
  imports Smi_Context
begin

unbundle bit_operations_syntax

text \<open>
  The bit unpackers, word truncators and pack ratios of \<^verbatim>\<open>smi.c\<close>. Every unpacker is the
  loop of the source over the raw FIFO words and a byte buffer with a running destination offset,
  where a read or a write outside its object is undefined; typed destination pointers
  (\<^verbatim>\<open>uint16_t*\<close>, \<^verbatim>\<open>uint32_t*\<close>) store little-endian bytes. The parameter
  \<^verbatim>\<open>ratio\<close>, which no unpacker uses, is left out.

  The specification is in \<open>Smi_Unpack_Spec\<close>.
\<close>

section \<open>Assignments to consecutive elements\<close>

primrec assigns :: "'a list \<Rightarrow> (nat \<times> 'a list) list \<Rightarrow> 'a list outcome" where
  "assigns out [] = Returns out"
| "assigns out (a # as) = obind (store out (fst a) (snd a)) (\<lambda>out. assigns out as)"

fun consecutive :: "nat \<Rightarrow> 'a list list \<Rightarrow> (nat \<times> 'a list) list" where
  "consecutive d [] = []"
| "consecutive d (x # xs) = (d, x) # consecutive (d + length x) xs"

lemma assigns_consecutive:
  "assigns out (consecutive d (x # xs)) = store out d (concat (x # xs))"
proof (induction xs arbitrary: d x out)
  case Nil
  then show ?case by simp
next
  case (Cons y ys)
  have "assigns out (consecutive d (x # y # ys)) =
      obind (store out d x) (\<lambda>out. store out (d + length x) (concat (y # ys)))"
    using Cons.IH by simp
  then show ?case by (simp only: store_store concat.simps)
qed

section \<open>Unpackers\<close>

definition unpack_rgb565_8_iter ::
  "u32 list \<Rightarrow> nat \<Rightarrow> u8 list \<times> nat \<Rightarrow> (u8 list \<times> nat) outcome" where
  "unpack_rgb565_8_iter raw i = (\<lambda>(out, dst).
     obind (fetch raw i) (\<lambda>word.
       let b1 = ucast (drop_bit 0 word AND 0xFF);
           b0 = ucast (drop_bit 8 word AND 0xFF);
           b3 = ucast (drop_bit 16 word AND 0xFF);
           b2 = ucast (drop_bit 24 word AND 0xFF) in
       obind (assigns out [(dst, [b0]), (dst + 1, [b1]), (dst + 2, [b2]), (dst + 3, [b3])])
         (\<lambda>out. Returns (out, dst + 4))))"

definition smi_unpack_rgb565_8 :: "u32 list \<Rightarrow> u8 list \<Rightarrow> nat \<Rightarrow> u8 list outcome" where
  "smi_unpack_rgb565_8 raw out cnt =
     obind (c_for 0 cnt (unpack_rgb565_8_iter raw) (out, 0)) (\<lambda>s. Returns (fst s))"

definition unpack_xrgb_8_iter ::
  "u32 list \<Rightarrow> nat \<Rightarrow> u8 list \<times> nat \<Rightarrow> (u8 list \<times> nat) outcome" where
  "unpack_xrgb_8_iter raw i = (\<lambda>(out, dst).
     obind (fetch raw i) (\<lambda>word.
       let b2 = ucast (drop_bit 0 word AND 0xFF);
           b1 = ucast (drop_bit 8 word AND 0xFF);
           b0 = ucast (drop_bit 16 word AND 0xFF) in
       obind (assigns out [(dst, [b0]), (dst + 1, [b1]), (dst + 2, [b2])])
         (\<lambda>out. Returns (out, dst + 3))))"

definition smi_unpack_xrgb_8 :: "u32 list \<Rightarrow> u8 list \<Rightarrow> nat \<Rightarrow> u8 list outcome" where
  "smi_unpack_xrgb_8 raw out cnt =
     obind (c_for 0 cnt (unpack_xrgb_8_iter raw) (out, 0)) (\<lambda>s. Returns (fst s))"

definition unpack_xrgb_9_iter ::
  "u32 list \<Rightarrow> nat \<Rightarrow> u8 list \<times> nat \<Rightarrow> (u8 list \<times> nat) outcome" where
  "unpack_xrgb_9_iter raw i = (\<lambda>(out, dst).
     obind (fetch raw i) (\<lambda>word.
       let d0 = ucast ((drop_bit 13 word AND 0x7) OR (drop_bit 15 word AND 0x1F8));
           d1 = ucast ((drop_bit 2 word AND 0x3F) OR (drop_bit 4 word AND 0x1C0)) in
       obind (assigns out [(dst, le16 d0), (dst + 2, le16 d1)])
         (\<lambda>out. Returns (out, dst + 4))))"

definition smi_unpack_xrgb_9 :: "u32 list \<Rightarrow> u8 list \<Rightarrow> nat \<Rightarrow> u8 list outcome" where
  "smi_unpack_xrgb_9 raw out cnt =
     obind (c_for 0 cnt (unpack_xrgb_9_iter raw) (out, 0)) (\<lambda>s. Returns (fst s))"

definition unpack_xrgb_9_swap_iter ::
  "u32 list \<Rightarrow> nat \<Rightarrow> u8 list \<times> nat \<Rightarrow> (u8 list \<times> nat) outcome" where
  "unpack_xrgb_9_swap_iter raw i = (\<lambda>(out, dst).
     obind (fetch raw i) (\<lambda>word.
       let d0 = ucast ((drop_bit 2 word AND 0x3F) OR (drop_bit 4 word AND 0x1C0));
           d1 = ucast ((drop_bit 13 word AND 0x7) OR (drop_bit 15 word AND 0x1F8)) in
       obind (assigns out [(dst, le16 d0), (dst + 2, le16 d1)])
         (\<lambda>out. Returns (out, dst + 4))))"

definition smi_unpack_xrgb_9_swap :: "u32 list \<Rightarrow> u8 list \<Rightarrow> nat \<Rightarrow> u8 list outcome" where
  "smi_unpack_xrgb_9_swap raw out cnt =
     obind (c_for 0 cnt (unpack_xrgb_9_swap_iter raw) (out, 0)) (\<lambda>s. Returns (fst s))"

text \<open>The \<^verbatim>\<open>uint8_t\<close> operands are promoted to \<^verbatim>\<open>int\<close>, which holds every shift here.\<close>

definition smi_unpack_rgb565_9_word :: "u32 \<Rightarrow> u16 list" where
  "smi_unpack_rgb565_9_word word =
     (let b0 = ucast (drop_bit 0 word AND 0xFF) :: u8;
          b1 = ucast (drop_bit 8 word AND 0xFF) :: u8;
          b2 = ucast (drop_bit 16 word AND 0xFF) :: u8;
          b3 = ucast (drop_bit 24 word AND 0xFF) :: u8;
          p0 = ucast b0 :: u32; p1 = ucast b1 :: u32; p2 = ucast b2 :: u32; p3 = ucast b3 :: u32;
          d1 = ucast (push_bit 1 p0 OR (drop_bit 7 p0 AND 0x1)) :: u16;
          d3 = ucast (push_bit 1 p2 OR (drop_bit 7 p2 AND 0x1)) :: u16;
          d0 = ucast ((push_bit 1 p1 AND 0x1F0) OR (drop_bit 2 p1 AND 0x8) OR (p1 AND 0x7)) :: u16;
          d2 = ucast ((push_bit 1 p3 AND 0x1F0) OR (drop_bit 2 p3 AND 0x8) OR (p3 AND 0x7)) :: u16 in
      [d0, d1, d2, d3])"

definition unpack_rgb565_9_iter ::
  "u32 list \<Rightarrow> nat \<Rightarrow> u8 list \<times> nat \<Rightarrow> (u8 list \<times> nat) outcome" where
  "unpack_rgb565_9_iter raw i = (\<lambda>(out, dst).
     obind (fetch raw i) (\<lambda>word.
       let word_buffer = smi_unpack_rgb565_9_word word in
       obind (assigns out
           [(dst, le16 (word_buffer ! 0)), (dst + 2, le16 (word_buffer ! 1)),
            (dst + 4, le16 (word_buffer ! 2)), (dst + 6, le16 (word_buffer ! 3))])
         (\<lambda>out. Returns (out, dst + 8))))"

definition smi_unpack_rgb565_9 :: "u32 list \<Rightarrow> u8 list \<Rightarrow> nat \<Rightarrow> u8 list outcome" where
  "smi_unpack_rgb565_9 raw out cnt =
     obind (c_for 0 cnt (unpack_rgb565_9_iter raw) (out, 0)) (\<lambda>s. Returns (fst s))"

text \<open>A helper of the source that the swapped unpacker spells out instead of calling.\<close>

definition apply_swap_16 :: "u16 list \<Rightarrow> u16 list" where
  "apply_swap_16 w =
     (let t = w ! 0; w = w[0 := w ! 1]; w = w[1 := t];
          t = w ! 2; w = w[2 := w ! 3]; w = w[3 := t] in
      w)"

definition unpack_rgb565_9_swap_iter ::
  "u32 list \<Rightarrow> nat \<Rightarrow> u8 list \<times> nat \<Rightarrow> (u8 list \<times> nat) outcome" where
  "unpack_rgb565_9_swap_iter raw i = (\<lambda>(out, dst).
     obind (fetch raw i) (\<lambda>word.
       let word_buffer = smi_unpack_rgb565_9_word word in
       obind (assigns out
           [(dst, le16 (word_buffer ! 1)), (dst + 2, le16 (word_buffer ! 0)),
            (dst + 4, le16 (word_buffer ! 3)), (dst + 6, le16 (word_buffer ! 2))])
         (\<lambda>out. Returns (out, dst + 8))))"

definition smi_unpack_rgb565_9_swap :: "u32 list \<Rightarrow> u8 list \<Rightarrow> nat \<Rightarrow> u8 list outcome" where
  "smi_unpack_rgb565_9_swap raw out cnt =
     obind (c_for 0 cnt (unpack_rgb565_9_swap_iter raw) (out, 0)) (\<lambda>s. Returns (fst s))"

definition unpack_xrgb_16_iter ::
  "u32 list \<Rightarrow> nat \<Rightarrow> u8 list \<times> nat \<Rightarrow> (u8 list \<times> nat) outcome" where
  "unpack_xrgb_16_iter raw i = (\<lambda>(out, dst).
     obind (fetch raw (2 * i)) (\<lambda>word.
     obind (fetch raw (2 * i + 1)) (\<lambda>word2.
       let d0 = ucast (drop_bit 8 word AND 0xFFFF);
           d1 = ucast ((push_bit 8 word AND 0xFF00) OR (drop_bit 16 word2 AND 0x00FF));
           d2 = ucast (word2 AND 0xFFFF) in
       obind (assigns out [(dst, le16 d0), (dst + 2, le16 d1), (dst + 4, le16 d2)])
         (\<lambda>out. Returns (out, dst + 6)))))"

definition smi_unpack_xrgb_16 :: "u32 list \<Rightarrow> u8 list \<Rightarrow> nat \<Rightarrow> u8 list outcome" where
  "smi_unpack_xrgb_16 raw out cnt =
     (let pairs = cnt div 2 in
      obind (c_for 0 pairs (unpack_xrgb_16_iter raw) (out, 0)) (\<lambda>s. Returns (fst s)))"

definition unpack_rgb565_16_iter ::
  "u32 list \<Rightarrow> nat \<Rightarrow> u8 list \<times> nat \<Rightarrow> (u8 list \<times> nat) outcome" where
  "unpack_rgb565_16_iter raw i = (\<lambda>(out, dst).
     obind (fetch raw i) (\<lambda>word.
       let d0 = ucast (drop_bit 0 word AND 0xFFFF);
           d1 = ucast (drop_bit 16 word AND 0xFFFF) in
       obind (assigns out [(dst, le16 d0), (dst + 2, le16 d1)])
         (\<lambda>out. Returns (out, dst + 4))))"

definition smi_unpack_rgb565_16 :: "u32 list \<Rightarrow> u8 list \<Rightarrow> nat \<Rightarrow> u8 list outcome" where
  "smi_unpack_rgb565_16 raw out cnt =
     obind (c_for 0 cnt (unpack_rgb565_16_iter raw) (out, 0)) (\<lambda>s. Returns (fst s))"

definition unpack_xrgb_18_iter ::
  "u32 list \<Rightarrow> nat \<Rightarrow> u8 list \<times> nat \<Rightarrow> (u8 list \<times> nat) outcome" where
  "unpack_xrgb_18_iter raw i = (\<lambda>(out, dst).
     obind (fetch raw i) (\<lambda>word.
       let d0 = (drop_bit 2 word AND 0x3F) OR (drop_bit 4 word AND 0xFC0)
             OR (drop_bit 6 word AND 0x3F000) in
       obind (assigns out [(dst, le32 d0)]) (\<lambda>out. Returns (out, dst + 4))))"

definition smi_unpack_xrgb_18 :: "u32 list \<Rightarrow> u8 list \<Rightarrow> nat \<Rightarrow> u8 list outcome" where
  "smi_unpack_xrgb_18 raw out cnt =
     obind (c_for 0 cnt (unpack_xrgb_18_iter raw) (out, 0)) (\<lambda>s. Returns (fst s))"

definition unpack_rgb565_18_iter ::
  "u32 list \<Rightarrow> nat \<Rightarrow> u8 list \<times> nat \<Rightarrow> (u8 list \<times> nat) outcome" where
  "unpack_rgb565_18_iter raw i = (\<lambda>(out, dst).
     obind (fetch raw i) (\<lambda>word.
       let w0 = drop_bit 0 word AND 0xFFFF;
           w1 = drop_bit 16 word AND 0xFFFF;
           d0 = (push_bit 2 w0 AND 0x3E000) OR (drop_bit 3 w0 AND 0x1000) OR (push_bit 1 w0 AND 0xFFE);
           d1 = (push_bit 2 w1 AND 0x3E000) OR (drop_bit 3 w1 AND 0x1000) OR (push_bit 1 w1 AND 0xFFE) in
       obind (assigns out [(dst, le32 d0), (dst + 4, le32 d1)]) (\<lambda>out. Returns (out, dst + 8))))"

definition smi_unpack_rgb565_18 :: "u32 list \<Rightarrow> u8 list \<Rightarrow> nat \<Rightarrow> u8 list outcome" where
  "smi_unpack_rgb565_18 raw out cnt =
     obind (c_for 0 cnt (unpack_rgb565_18_iter raw) (out, 0)) (\<lambda>s. Returns (fst s))"

definition reverse18 :: "u32 \<Rightarrow> u32" where
  "reverse18 v =
     (let v = push_bit 1 (v AND 0x15555) OR drop_bit 1 (v AND 0x2AAAA);
          v = push_bit 2 (v AND 0x03333) OR drop_bit 2 (v AND 0x0CCCC);
          v = push_bit 4 (v AND 0x00F0F) OR drop_bit 4 (v AND 0x0F0F0);
          v = push_bit 8 (v AND 0x000FF) OR drop_bit 8 (v AND 0x3FC00) in
      v)"

definition unpack_rgb565_18_swap_iter ::
  "u32 list \<Rightarrow> nat \<Rightarrow> u8 list \<times> nat \<Rightarrow> (u8 list \<times> nat) outcome" where
  "unpack_rgb565_18_swap_iter raw i = (\<lambda>(out, dst).
     obind (fetch raw i) (\<lambda>word.
       let w0 = reverse18 (drop_bit 0 word AND 0xFFFF);
           w1 = reverse18 (drop_bit 16 word AND 0xFFFF);
           d0 = (push_bit 2 w0 AND 0x3E000) OR (drop_bit 3 w0 AND 0x1000) OR (push_bit 1 w0 AND 0xFFE);
           d1 = (push_bit 2 w1 AND 0x3E000) OR (drop_bit 3 w1 AND 0x1000) OR (push_bit 1 w1 AND 0xFFE) in
       obind (assigns out [(dst, le32 d0), (dst + 4, le32 d1)]) (\<lambda>out. Returns (out, dst + 8))))"

definition smi_unpack_rgb565_18_swap :: "u32 list \<Rightarrow> u8 list \<Rightarrow> nat \<Rightarrow> u8 list outcome" where
  "smi_unpack_rgb565_18_swap raw out cnt =
     obind (c_for 0 cnt (unpack_rgb565_18_swap_iter raw) (out, 0)) (\<lambda>s. Returns (fst s))"

section \<open>Dispatch, ratio and truncation\<close>

definition smi_unpack ::
  "SMI_CXT \<Rightarrow> u32 list \<Rightarrow> u8 list \<Rightarrow> nat \<Rightarrow> (int \<times> u8 list) outcome" where
  "smi_unpack cxt data out cnt =
     obind (config0 cxt) (\<lambda>(rc, wc).
       let width = rwidth rc;
           format = wformat wc;
           swap = wswap wc;
           ok = (\<lambda>r. obind r (\<lambda>out. Returns (SMI_OK, out))) in
       if width = SMI_8_BITS then
         (if format = SMI_RGB565 then ok (smi_unpack_rgb565_8 data out cnt)
          else if format = SMI_XRGB then ok (smi_unpack_xrgb_8 data out cnt)
          else Returns (SMI_ERR_INVALID_FORMAT, out))
       else if width = SMI_9_BITS then
         (if format = SMI_RGB565 then
            (if \<not> swap then ok (smi_unpack_rgb565_9 data out cnt)
             else ok (smi_unpack_rgb565_9_swap data out cnt))
          else if format = SMI_XRGB then
            (if \<not> swap then ok (smi_unpack_xrgb_9 data out cnt)
             else ok (smi_unpack_xrgb_9_swap data out cnt))
          else Returns (SMI_ERR_INVALID_FORMAT, out))
       else if width = SMI_16_BITS then
         (if format = SMI_RGB565 then ok (smi_unpack_rgb565_16 data out cnt)
          else if format = SMI_XRGB then ok (smi_unpack_xrgb_16 data out cnt)
          else Returns (SMI_ERR_INVALID_FORMAT, out))
       else if width = SMI_18_BITS then
         (if format = SMI_RGB565 then
            (if \<not> swap then ok (smi_unpack_rgb565_18 data out cnt)
             else ok (smi_unpack_rgb565_18_swap data out cnt))
          else if format = SMI_XRGB then ok (smi_unpack_xrgb_18 data out cnt)
          else Returns (SMI_ERR_INVALID_FORMAT, out))
       else Returns (SMI_ERR_INVALID_WIDTH, out))"

definition mk_ratio :: "u8 \<Rightarrow> u8 \<Rightarrow> smi_pack_ratio_t" where
  "mk_ratio r p = \<lparr>ratio_read = r, ratio_out_pixels = p\<rparr>"

definition smi_packed_ratio :: "SMI_CXT \<Rightarrow> smi_pack_ratio_t outcome" where
  "smi_packed_ratio cxt =
     obind (config0 cxt) (\<lambda>(rc, wc).
       let width = rwidth rc;
           format = wformat wc in
       Returns
        (if \<not> pxldata cxt then mk_ratio 1 1
         else if width = SMI_8_BITS \<and> format = SMI_RGB565 then mk_ratio 1 4
         else if width = SMI_8_BITS \<and> format = SMI_XRGB then mk_ratio 1 3
         else if width = SMI_9_BITS \<and> format = SMI_RGB565 then mk_ratio 1 4
         else if width = SMI_9_BITS \<and> format = SMI_XRGB then mk_ratio 1 2
         else if width = SMI_16_BITS \<and> format = SMI_RGB565 then mk_ratio 1 2
         else if width = SMI_16_BITS \<and> format = SMI_XRGB then mk_ratio 2 3
         else if width = SMI_18_BITS \<and> format = SMI_RGB565 then mk_ratio 1 2
         else if width = SMI_18_BITS \<and> format = SMI_XRGB then mk_ratio 1 1
         else mk_ratio 1 1))"

definition truncate_8_iter :: "u32 list \<Rightarrow> nat \<Rightarrow> u8 list \<Rightarrow> u8 list outcome" where
  "truncate_8_iter data i out = obind (fetch data i) (\<lambda>v. store out i [ucast (v AND 0xFF)])"

definition smi_truncate_8 :: "u32 list \<Rightarrow> u8 list \<Rightarrow> nat \<Rightarrow> u8 list outcome" where
  "smi_truncate_8 data out cnt = c_for 0 cnt (truncate_8_iter data) out"

definition truncate_9_iter :: "u32 list \<Rightarrow> nat \<Rightarrow> u8 list \<Rightarrow> u8 list outcome" where
  "truncate_9_iter data i out =
     obind (fetch data i) (\<lambda>v. store out (2 * i) (le16 (ucast (v AND 0x1FF))))"

definition smi_truncate_9 :: "u32 list \<Rightarrow> u8 list \<Rightarrow> nat \<Rightarrow> u8 list outcome" where
  "smi_truncate_9 data out cnt = c_for 0 cnt (truncate_9_iter data) out"

definition truncate_16_iter :: "u32 list \<Rightarrow> nat \<Rightarrow> u8 list \<Rightarrow> u8 list outcome" where
  "truncate_16_iter data i out =
     obind (fetch data i) (\<lambda>v. store out (2 * i) (le16 (ucast (v AND 0xFFFF))))"

definition smi_truncate_16 :: "u32 list \<Rightarrow> u8 list \<Rightarrow> nat \<Rightarrow> u8 list outcome" where
  "smi_truncate_16 data out cnt = c_for 0 cnt (truncate_16_iter data) out"

definition truncate_18_iter :: "u32 list \<Rightarrow> nat \<Rightarrow> u8 list \<Rightarrow> u8 list outcome" where
  "truncate_18_iter data i out =
     obind (fetch data i) (\<lambda>v. store out (4 * i) (le32 (v AND 0x3FFFF)))"

definition smi_truncate_18 :: "u32 list \<Rightarrow> u8 list \<Rightarrow> nat \<Rightarrow> u8 list outcome" where
  "smi_truncate_18 data out cnt = c_for 0 cnt (truncate_18_iter data) out"

definition smi_truncate :: "SMI_CXT \<Rightarrow> u32 list \<Rightarrow> u8 list \<Rightarrow> nat \<Rightarrow> u8 list outcome" where
  "smi_truncate cxt data out cnt =
     obind (config0 cxt) (\<lambda>(rc, wc).
       let width = rwidth rc in
       if width = SMI_8_BITS then smi_truncate_8 data out cnt
       else if width = SMI_9_BITS then smi_truncate_9 data out cnt
       else if width = SMI_16_BITS then smi_truncate_16 data out cnt
       else if width = SMI_18_BITS then smi_truncate_18 data out cnt
       else Returns out)"

end
