(* ===== verification/Smi_Unpack_Spec.thy ===== *)
theory Smi_Unpack_Spec
  imports Smi_Unpack
begin

unbundle bit_operations_syntax

text \<open>
  What the unpackers compute, as formats, and the proof that they do. The formats follow the
  comments of \<^verbatim>\<open>smi.c\<close> (\<^verbatim>\<open>Data0 = { FIFO[15:11], FIFO[15], FIFO[10:8] }\<close> and the like)
  where the code agrees with them, and the code where it does not. For the 8-bit and 16-bit buses
  a second description does not look at the routines at all: the bits of the pixels, in order, cut
  into transfers of the width of the bus (section \<open>Pixels on the bus\<close>).
\<close>

section \<open>FIFO bits and formats\<close>

text \<open>
  \<open>fifo ws [(i, hi, lo), \<dots>]\<close> joins the bits \<open>hi\<close> down to \<open>lo\<close> of word \<open>i\<close>, the first slice
  most significant. Bits from 32 upwards are zero.
\<close>

fun fifo_width :: "(nat \<times> nat \<times> nat) list \<Rightarrow> nat" where
  "fifo_width [] = 0"
| "fifo_width ((i, hi, lo) # fs) = (Suc hi - lo) + fifo_width fs"

fun fifo :: "u32 list \<Rightarrow> (nat \<times> nat \<times> nat) list \<Rightarrow> u32" where
  "fifo ws [] = 0"
| "fifo ws ((i, hi, lo) # fs) =
     push_bit (fifo_width fs) (take_bit (Suc hi - lo) (drop_bit lo (ws ! i))) OR fifo ws fs"

abbreviation zero_bit :: "nat \<times> nat \<times> nat" where
  "zero_bit \<equiv> (0, 32, 32)"

definition emit :: "nat \<Rightarrow> u32 \<Rightarrow> u8 list" where
  "emit n v = map (\<lambda>k. ucast (drop_bit (8 * k) v)) [0..<n]"

record unpack_format =
  fmt_words :: nat
  fmt_size :: nat
  fmt_pixels :: "(nat \<times> nat \<times> nat) list list"

definition mk_fmt :: "nat \<Rightarrow> nat \<Rightarrow> (nat \<times> nat \<times> nat) list list \<Rightarrow> unpack_format" where
  "mk_fmt n s p = \<lparr>fmt_words = n, fmt_size = s, fmt_pixels = p\<rparr>"

definition fmt_bytes :: "unpack_format \<Rightarrow> nat" where
  "fmt_bytes fmt = fmt_size fmt * length (fmt_pixels fmt)"

definition pixels_of :: "unpack_format \<Rightarrow> u32 list \<Rightarrow> u32 list" where
  "pixels_of fmt ws = map (fifo ws) (fmt_pixels fmt)"

definition group :: "unpack_format \<Rightarrow> u32 list \<Rightarrow> nat \<Rightarrow> u32 list" where
  "group fmt raw i = take (fmt_words fmt) (drop (fmt_words fmt * i) raw)"

definition pixel_stream :: "unpack_format \<Rightarrow> nat \<Rightarrow> u32 list \<Rightarrow> u32 list" where
  "pixel_stream fmt n raw = concat (map (\<lambda>i. pixels_of fmt (group fmt raw i)) [0..<n])"

definition byte_stream :: "unpack_format \<Rightarrow> nat \<Rightarrow> u32 list \<Rightarrow> u8 list" where
  "byte_stream fmt n raw = concat (map (emit (fmt_size fmt)) (pixel_stream fmt n raw))"

lemma length_emit [simp]: "length (emit n v) = n"
  by (simp add: emit_def)

lemma length_concat_emit: "length (concat (map (emit n) vs)) = n * length vs"
  by (induction vs) simp_all

lemma length_pixels_of [simp]: "length (pixels_of fmt ws) = length (fmt_pixels fmt)"
  by (simp add: pixels_of_def)

lemma length_pixel_stream: "length (pixel_stream fmt n raw) = n * length (fmt_pixels fmt)"
  by (induction n) (simp_all add: pixel_stream_def)

lemma length_byte_stream: "length (byte_stream fmt n raw) = fmt_bytes fmt * n"
  by (simp add: byte_stream_def length_concat_emit length_pixel_stream fmt_bytes_def)

lemma byte_stream_Suc:
  "byte_stream fmt (Suc n) raw =
     byte_stream fmt n raw @ concat (map (emit (fmt_size fmt)) (pixels_of fmt (group fmt raw n)))"
  by (simp add: byte_stream_def pixel_stream_def)

section \<open>Loops that follow a format\<close>

locale unpack_loop =
  fixes iter :: "u32 list \<Rightarrow> nat \<Rightarrow> 's \<Rightarrow> 's outcome"
    and mk :: "nat \<Rightarrow> u8 list \<Rightarrow> 's"
    and fmt :: unpack_format
  assumes iter_step:
    "iter raw i (mk (fmt_bytes fmt * i) out) =
       (if fmt_words fmt * Suc i \<le> length raw \<and> fmt_bytes fmt * Suc i \<le> length out
        then Returns (mk (fmt_bytes fmt * Suc i)
          (overlay out (fmt_bytes fmt * i)
            (concat (map (emit (fmt_size fmt)) (pixels_of fmt (group fmt raw i))))))
        else Undefined)"
begin

lemma loop_fills:
  "c_for 0 n (iter raw) (mk 0 out) =
     (if n = 0 \<or> fmt_words fmt * n \<le> length raw \<and> fmt_bytes fmt * n \<le> length out
      then Returns (mk (fmt_bytes fmt * n) (overlay out 0 (byte_stream fmt n raw)))
      else Undefined)"
proof (induction n)
  case 0
  then show ?case by (simp add: byte_stream_def pixel_stream_def)
next
  case (Suc n)
  let ?k = "fmt_bytes fmt" and ?w = "fmt_words fmt"
  show ?case
  proof (cases "n = 0 \<or> ?w * n \<le> length raw \<and> ?k * n \<le> length out")
    case True
    then have fits: "length (byte_stream fmt n raw) \<le> length out"
      by (auto simp: length_byte_stream)
    have "c_for 0 (Suc n) (iter raw) (mk 0 out)
        = iter raw n (mk (?k * n) (overlay out 0 (byte_stream fmt n raw)))"
      using Suc.IH True by (simp add: c_for_snoc)
    moreover have "overlay (overlay out 0 (byte_stream fmt n raw)) (?k * n)
        (concat (map (emit (fmt_size fmt)) (pixels_of fmt (group fmt raw n))))
        = overlay out 0 (byte_stream fmt (Suc n) raw)"
      if "?k * Suc n \<le> length out"
      using that overlay_overlay [of 0 "byte_stream fmt n raw"
          "concat (map (emit (fmt_size fmt)) (pixels_of fmt (group fmt raw n)))" out]
      by (simp add: byte_stream_Suc length_byte_stream length_concat_emit fmt_bytes_def)
    ultimately show ?thesis
      using fits by (simp add: iter_step length_byte_stream del: mult_Suc_right)
  next
    case False
    then have "\<not> (?w * Suc n \<le> length raw \<and> ?k * Suc n \<le> length out)" by auto
    moreover have "c_for 0 n (iter raw) (mk 0 out) = Undefined" using Suc.IH False by simp
    ultimately show ?thesis by (simp add: c_for_snoc)
  qed
qed

end

section \<open>The formats of the driver\<close>

definition fmt_rgb565_8 :: unpack_format where
  "fmt_rgb565_8 = mk_fmt 1 1 [[(0,15,8)], [(0,7,0)], [(0,31,24)], [(0,23,16)]]"

definition fmt_xrgb_8 :: unpack_format where
  "fmt_xrgb_8 = mk_fmt 1 1 [[(0,23,16)], [(0,15,8)], [(0,7,0)]]"

definition fmt_xrgb_9 :: unpack_format where
  "fmt_xrgb_9 = mk_fmt 1 2 [[(0,23,18), (0,15,13)], [(0,12,10), (0,7,2)]]"

definition fmt_xrgb_9_swap :: unpack_format where
  "fmt_xrgb_9_swap = mk_fmt 1 2 [[(0,12,10), (0,7,2)], [(0,23,18), (0,15,13)]]"

text \<open>The repeated bits are 13, 7, 29 and 23; the comment of the source has 15, 4, 31 and 20.\<close>

definition fmt_rgb565_9 :: unpack_format where
  "fmt_rgb565_9 = mk_fmt 1 2
     [[(0,15,11), (0,13,13), (0,10,8)], [(0,7,0), (0,7,7)],
      [(0,31,27), (0,29,29), (0,26,24)], [(0,23,16), (0,23,23)]]"

definition fmt_rgb565_9_swap :: unpack_format where
  "fmt_rgb565_9_swap = mk_fmt 1 2
     [[(0,7,0), (0,7,7)], [(0,15,11), (0,13,13), (0,10,8)],
      [(0,23,16), (0,23,23)], [(0,31,27), (0,29,29), (0,26,24)]]"

definition fmt_xrgb_16 :: unpack_format where
  "fmt_xrgb_16 = mk_fmt 2 2 [[(0,23,8)], [(0,7,0), (1,23,16)], [(1,15,0)]]"

definition fmt_rgb565_16 :: unpack_format where
  "fmt_rgb565_16 = mk_fmt 1 2 [[(0,15,0)], [(0,31,16)]]"

definition fmt_xrgb_18 :: unpack_format where
  "fmt_xrgb_18 = mk_fmt 1 4 [[(0,23,18), (0,15,10), (0,7,2)]]"

definition fmt_rgb565_18 :: unpack_format where
  "fmt_rgb565_18 = mk_fmt 1 4
     [[(0,15,11), (0,15,15), (0,10,0), zero_bit], [(0,31,27), (0,31,31), (0,26,16), zero_bit]]"

text \<open>What the unfinished swap mode does: bits 14 and 15 of each half are lost.\<close>

definition fmt_rgb565_18_swap :: unpack_format where
  "fmt_rgb565_18_swap = mk_fmt 1 4
     [[(0,0,0), (0,1,1), (0,2,2), (0,3,3), (0,4,4), (0,0,0), (0,5,5), (0,6,6), (0,7,7), (0,8,8),
       (0,9,9), (0,10,10), (0,11,11), (0,12,12), (0,13,13), zero_bit, zero_bit, zero_bit],
      [(0,16,16), (0,17,17), (0,18,18), (0,19,19), (0,20,20), (0,16,16), (0,21,21), (0,22,22),
       (0,23,23), (0,24,24), (0,25,25), (0,26,26), (0,27,27), (0,28,28), (0,29,29),
       zero_bit, zero_bit, zero_bit]]"

definition fmt_truncate :: "nat \<Rightarrow> nat \<Rightarrow> unpack_format" where
  "fmt_truncate bytes bits = mk_fmt 1 bytes [[(0, bits - 1, 0)]]"

lemmas fmt_defs =
  fmt_rgb565_8_def fmt_xrgb_8_def fmt_xrgb_9_def fmt_xrgb_9_swap_def fmt_rgb565_9_def
  fmt_rgb565_9_swap_def fmt_xrgb_16_def fmt_rgb565_16_def fmt_xrgb_18_def fmt_rgb565_18_def
  fmt_rgb565_18_swap_def fmt_truncate_def mk_fmt_def

section \<open>Bit by bit\<close>

lemma word32_eqI:
  "list_all (\<lambda>n. bit a n = bit b n)
     [0, 1, 2, 3, 4, 5, 6, 7, 8, 9, 10, 11, 12, 13, 14, 15,
      16, 17, 18, 19, 20, 21, 22, 23, 24, 25, 26, 27, 28, 29, 30, 31] \<Longrightarrow> a = b" for a b :: u32
  by (rule bit_word_eqI) (auto simp: numeral_eq_Suc less_Suc_eq)

lemmas bitwise = word32_eqI

lemma emit_bytes:
  "emit 1 v = [ucast v]" "emit (Suc 0) v = [ucast v]"
  "emit 2 v = le16 (ucast v)"
  "emit 4 v = le32 v"
proof -
  show "emit 2 v = le16 (ucast v)"
    by (auto simp: emit_def le16_def numeral_2_eq_2 intro!: bit_word_eqI) (auto simp: bit_simps)
  show "emit 4 v = le32 v"
    by (simp add: emit_def le32_def upt_rec)
qed (simp_all add: emit_def)

lemma slice8:
  "drop_bit 0 w AND 0xFF = fifo [w] [(0,7,0)]"
  "drop_bit 8 w AND 0xFF = fifo [w] [(0,15,8)]"
  "drop_bit 16 w AND 0xFF = fifo [w] [(0,23,16)]"
  "drop_bit 24 w AND 0xFF = fifo [w] [(0,31,24)]"
  by (rule bitwise, simp add: bit_simps flip: bit_iff_odd_drop_bit)+

lemma slice_xrgb_9:
  "(drop_bit 13 w AND 0x7) OR (drop_bit 15 w AND 0x1F8) = fifo [w] [(0,23,18), (0,15,13)]"
  "(drop_bit 2 w AND 0x3F) OR (drop_bit 4 w AND 0x1C0) = fifo [w] [(0,12,10), (0,7,2)]"
  by (rule bitwise, simp add: bit_simps flip: bit_iff_odd_drop_bit)+

lemma slice_xrgb_16:
  "drop_bit 8 w AND 0xFFFF = fifo [w, w2] [(0,23,8)]"
  "(push_bit 8 w AND 0xFF00) OR (drop_bit 16 w2 AND 0x00FF) = fifo [w, w2] [(0,7,0), (1,23,16)]"
  "w2 AND 0xFFFF = fifo [w, w2] [(1,15,0)]"
  by (rule bitwise, simp add: bit_simps flip: bit_iff_odd_drop_bit)+

lemma slice_rgb565_16:
  "drop_bit 0 w AND 0xFFFF = fifo [w] [(0,15,0)]"
  "drop_bit 16 w AND 0xFFFF = fifo [w] [(0,31,16)]"
  by (rule bitwise, simp add: bit_simps flip: bit_iff_odd_drop_bit)+

lemma slice_xrgb_18:
  "(drop_bit 2 w AND 0x3F) OR (drop_bit 4 w AND 0xFC0) OR (drop_bit 6 w AND 0x3F000)
     = fifo [w] [(0,23,18), (0,15,10), (0,7,2)]"
  by (rule bitwise, simp add: bit_simps flip: bit_iff_odd_drop_bit)

lemma slice_rgb565_9:
  fixes w :: u32
  shows
    "(let p = ucast (ucast (drop_bit 8 w AND 0xFF) :: u8) :: u32 in
      (push_bit 1 p AND 0x1F0) OR (drop_bit 2 p AND 0x8) OR (p AND 0x7))
       = fifo [w] [(0,15,11), (0,13,13), (0,10,8)]"
    "(let p = ucast (ucast (drop_bit 0 w AND 0xFF) :: u8) :: u32 in
      push_bit 1 p OR (drop_bit 7 p AND 0x1)) = fifo [w] [(0,7,0), (0,7,7)]"
    "(let p = ucast (ucast (drop_bit 24 w AND 0xFF) :: u8) :: u32 in
      (push_bit 1 p AND 0x1F0) OR (drop_bit 2 p AND 0x8) OR (p AND 0x7))
       = fifo [w] [(0,31,27), (0,29,29), (0,26,24)]"
    "(let p = ucast (ucast (drop_bit 16 w AND 0xFF) :: u8) :: u32 in
      push_bit 1 p OR (drop_bit 7 p AND 0x1)) = fifo [w] [(0,23,16), (0,23,23)]"
  unfolding Let_def
  by (rule bitwise, simp add: bit_simps del: push_bit_Suc flip: bit_iff_odd_drop_bit)+

lemma smi_unpack_rgb565_9_word_fifo:
  "smi_unpack_rgb565_9_word w = map (\<lambda>p. ucast (fifo [w] p)) (fmt_pixels fmt_rgb565_9)"
  using slice_rgb565_9 [of w]
  by (simp only: smi_unpack_rgb565_9_word_def Let_def fmt_rgb565_9_def mk_fmt_def
      unpack_format.simps list.map)

lemma slice_rgb565_18:
  "(let v = drop_bit 0 w AND 0xFFFF in
    (push_bit 2 v AND 0x3E000) OR (drop_bit 3 v AND 0x1000) OR (push_bit 1 v AND 0xFFE))
     = fifo [w] [(0,15,11), (0,15,15), (0,10,0), zero_bit]"
  "(let v = drop_bit 16 w AND 0xFFFF in
    (push_bit 2 v AND 0x3E000) OR (drop_bit 3 v AND 0x1000) OR (push_bit 1 v AND 0xFFE))
     = fifo [w] [(0,31,27), (0,31,31), (0,26,16), zero_bit]"
  unfolding Let_def
  by (rule bitwise, simp add: bit_simps del: push_bit_Suc flip: bit_iff_odd_drop_bit)+

lemma slice_rgb565_18_swap:
  "(let v = reverse18 (drop_bit 0 w AND 0xFFFF) in
    (push_bit 2 v AND 0x3E000) OR (drop_bit 3 v AND 0x1000) OR (push_bit 1 v AND 0xFFE))
     = fifo [w] (fmt_pixels fmt_rgb565_18_swap ! 0)"
  "(let v = reverse18 (drop_bit 16 w AND 0xFFFF) in
    (push_bit 2 v AND 0x3E000) OR (drop_bit 3 v AND 0x1000) OR (push_bit 1 v AND 0xFFE))
     = fifo [w] (fmt_pixels fmt_rgb565_18_swap ! 1)"
  unfolding Let_def reverse18_def
  by (rule bitwise, simp add: fmt_defs bit_simps del: push_bit_Suc flip: bit_iff_odd_drop_bit,
      (simp add: bit_0 numeral_2_eq_2)?)+

section \<open>Every unpacker follows its format\<close>

text \<open>
  An iteration that takes one word and assigns its pixels to consecutive elements keeps the
  law of \<open>unpack_loop\<close>.
\<close>

lemma unpack_iter_law:
  assumes one: "fmt_words fmt = 1" and some: "fmt_pixels fmt \<noteq> []"
    and iter: "\<And>d. iter raw i (out, d) = obind (fetch raw i) (\<lambda>w.
      obind (assigns out (consecutive d (map (emit (fmt_size fmt)) (pixels_of fmt [w]))))
        (\<lambda>out. Returns (out, d + fmt_bytes fmt)))"
  shows "iter raw i (out, fmt_bytes fmt * i) =
      (if fmt_words fmt * Suc i \<le> length raw \<and> fmt_bytes fmt * Suc i \<le> length out
        then Returns (overlay out (fmt_bytes fmt * i)
            (concat (map (emit (fmt_size fmt)) (pixels_of fmt (group fmt raw i)))),
          fmt_bytes fmt * Suc i)
        else Undefined)"
proof (cases "i < length raw")
  case True
  let ?f = "map (emit (fmt_size fmt)) (pixels_of fmt [raw ! i])"
  have g: "group fmt raw i = [raw ! i]"
    using True one by (simp add: group_def hd_drop_conv_nth take_Suc)
  obtain x ys where xs: "?f = x # ys"
    using some by (cases "fmt_pixels fmt") (auto simp: pixels_of_def)
  have "assigns out (consecutive (fmt_bytes fmt * i) ?f) =
      store out (fmt_bytes fmt * i) (concat ?f)"
    unfolding xs by (rule assigns_consecutive)
  with True show ?thesis
    by (simp add: iter fetch_def g one store_def length_concat_emit fmt_bytes_def add.commute)
next
  case False
  then show ?thesis by (simp add: iter one fetch_def)
qed

lemmas iter_simps =
  Let_def prod.case list.map fmt_defs unpack_format.simps pixels_of_def consecutive.simps
  length_emit fmt_bytes_def emit_bytes

interpretation rgb565_8: unpack_loop unpack_rgb565_8_iter "\<lambda>d out. (out, d)" fmt_rgb565_8
  by (rule unpack_loop.intro, rule unpack_iter_law)
    (simp_all only: unpack_rgb565_8_iter_def slice8 iter_simps,
     simp_all add: eval_nat_numeral del: fifo.simps)

interpretation xrgb_8: unpack_loop unpack_xrgb_8_iter "\<lambda>d out. (out, d)" fmt_xrgb_8
  by (rule unpack_loop.intro, rule unpack_iter_law)
    (simp_all only: unpack_xrgb_8_iter_def slice8 iter_simps,
     simp_all add: eval_nat_numeral del: fifo.simps)

interpretation xrgb_9: unpack_loop unpack_xrgb_9_iter "\<lambda>d out. (out, d)" fmt_xrgb_9
  by (rule unpack_loop.intro, rule unpack_iter_law)
    (simp_all only: unpack_xrgb_9_iter_def slice_xrgb_9 iter_simps,
     simp_all add: eval_nat_numeral del: fifo.simps)

interpretation xrgb_9_swap: unpack_loop unpack_xrgb_9_swap_iter "\<lambda>d out. (out, d)" fmt_xrgb_9_swap
  by (rule unpack_loop.intro, rule unpack_iter_law)
    (simp_all only: unpack_xrgb_9_swap_iter_def slice_xrgb_9 iter_simps,
     simp_all add: eval_nat_numeral del: fifo.simps)

interpretation rgb565_9: unpack_loop unpack_rgb565_9_iter "\<lambda>d out. (out, d)" fmt_rgb565_9
  by (rule unpack_loop.intro, rule unpack_iter_law)
    (simp_all only: unpack_rgb565_9_iter_def smi_unpack_rgb565_9_word_fifo iter_simps,
     simp_all add: eval_nat_numeral del: fifo.simps)

interpretation rgb565_9_swap: unpack_loop unpack_rgb565_9_swap_iter "\<lambda>d out. (out, d)" fmt_rgb565_9_swap
  by (rule unpack_loop.intro, rule unpack_iter_law)
    (simp_all only: unpack_rgb565_9_swap_iter_def smi_unpack_rgb565_9_word_fifo iter_simps,
     simp_all add: eval_nat_numeral del: fifo.simps)

interpretation rgb565_16: unpack_loop unpack_rgb565_16_iter "\<lambda>d out. (out, d)" fmt_rgb565_16
  by (rule unpack_loop.intro, rule unpack_iter_law)
    (simp_all only: unpack_rgb565_16_iter_def slice_rgb565_16 iter_simps,
     simp_all add: eval_nat_numeral del: fifo.simps)

interpretation xrgb_18: unpack_loop unpack_xrgb_18_iter "\<lambda>d out. (out, d)" fmt_xrgb_18
  by (rule unpack_loop.intro, rule unpack_iter_law)
    (simp_all only: unpack_xrgb_18_iter_def slice_xrgb_18 iter_simps,
     simp_all add: eval_nat_numeral del: fifo.simps)

interpretation rgb565_18: unpack_loop unpack_rgb565_18_iter "\<lambda>d out. (out, d)" fmt_rgb565_18
  by (rule unpack_loop.intro, rule unpack_iter_law)
    (simp_all only: unpack_rgb565_18_iter_def slice_rgb565_18 [unfolded Let_def] iter_simps,
     simp_all add: eval_nat_numeral del: fifo.simps)

interpretation rgb565_18_swap: unpack_loop unpack_rgb565_18_swap_iter "\<lambda>d out. (out, d)" fmt_rgb565_18_swap
  by (rule unpack_loop.intro, rule unpack_iter_law)
    (simp_all only: unpack_rgb565_18_swap_iter_def slice_rgb565_18_swap [unfolded Let_def] iter_simps,
     simp_all add: eval_nat_numeral del: fifo.simps)
section \<open>Every truncator follows its format\<close>

lemma truncate_iter_law:
  assumes fmt_def: "fmt = fmt_truncate n b" and "\<And>i out. iter raw i out =
    obind (fetch raw i) (\<lambda>v. store out (n * i) (emit n (fifo [v] [(0, b - 1, 0)])))"
  shows "iter raw i out =
      (if fmt_words fmt * Suc i \<le> length raw \<and> fmt_bytes fmt * Suc i \<le> length out
        then Returns (overlay out (fmt_bytes fmt * i)
            (concat (map (emit (fmt_size fmt)) (pixels_of fmt (group fmt raw i)))))
        else Undefined)"
proof (cases "i < length raw")
  case True
  then have "group fmt raw i = [raw ! i]"
    by (simp add: group_def hd_drop_conv_nth take_Suc fmt_def fmt_defs)
  with True show ?thesis
    by (simp add: assms(2) fmt_def fetch_def fmt_defs fmt_bytes_def pixels_of_def store_def
        add.commute del: fifo.simps)
next
  case False
  then show ?thesis by (simp add: assms(2) fmt_def fetch_def fmt_defs)
qed
lemma slice_truncate:
 "v AND 0xFF = fifo [v] [(0, 8-1,0)]"
 "v AND 0x1FF = fifo [v] [(0, 9-1,0)]"
 "v AND 0xFFFF = fifo [v] [(0, 16-1,0)]"
 "v AND 0x3FFFF = fifo [v] [(0, 18-1,0)]"
  by (rule bitwise, simp add: bit_simps flip: bit_iff_odd_drop_bit)+

interpretation trunc_8: unpack_loop truncate_8_iter "\<lambda>_ out. out" "fmt_truncate 1 8"
  by (rule unpack_loop.intro, rule truncate_iter_law [OF refl])
    (simp only: truncate_8_iter_def slice_truncate emit_bytes mult_1)

interpretation trunc_9: unpack_loop truncate_9_iter "\<lambda>_ out. out" "fmt_truncate 2 9"
  by (rule unpack_loop.intro, rule truncate_iter_law [OF refl])
    (simp only: truncate_9_iter_def slice_truncate emit_bytes)

interpretation trunc_16: unpack_loop truncate_16_iter "\<lambda>_ out. out" "fmt_truncate 2 16"
  by (rule unpack_loop.intro, rule truncate_iter_law [OF refl])
    (simp only: truncate_16_iter_def slice_truncate emit_bytes)

interpretation trunc_18: unpack_loop truncate_18_iter "\<lambda>_ out. out" "fmt_truncate 4 18"
  by (rule unpack_loop.intro, rule truncate_iter_law [OF refl])
    (simp only: truncate_18_iter_def slice_truncate emit_bytes)

lemma xrgb_16_law:
  "unpack_xrgb_16_iter raw i (out, fmt_bytes fmt_xrgb_16 * i) =
      (if fmt_words fmt_xrgb_16 * Suc i \<le> length raw
          \<and> fmt_bytes fmt_xrgb_16 * Suc i \<le> length out
        then Returns (overlay out (fmt_bytes fmt_xrgb_16 * i)
            (concat (map (emit (fmt_size fmt_xrgb_16))
              (pixels_of fmt_xrgb_16 (group fmt_xrgb_16 raw i)))),
          fmt_bytes fmt_xrgb_16 * Suc i)
        else Undefined)"
proof (cases "2 * i + 1 < length raw")
  case True
  let ?f = "map (emit 2) (pixels_of fmt_xrgb_16 [raw ! (2 * i), raw ! (2 * i + 1)])"
  have g: "group fmt_xrgb_16 raw i = [raw ! (2 * i), raw ! (2 * i + 1)]"
    using True by (simp add: group_def fmt_defs hd_drop_conv_nth take_Suc numeral_2_eq_2 tl_drop
        flip: Cons_nth_drop_Suc)
  from True have in1: "2 * i < length raw" and in2: "2 * i + 1 < length raw" by simp_all
  have step: "unpack_xrgb_16_iter raw i (out, d) =
      obind (assigns out (consecutive d ?f)) (\<lambda>out. Returns (out, d + 6))" for d
    by (simp only: unpack_xrgb_16_iter_def fetch_def in1 in2 if_True obind.simps prod.case Let_def
        slice_xrgb_16 [where w = "raw ! (2 * i)" and ?w2.0 = "raw ! (2 * i + 1)"] fmt_defs unpack_format.simps
        pixels_of_def list.map emit_bytes)
      (simp add: eval_nat_numeral del: fifo.simps)
  obtain x ys where xs: "?f = x # ys" by (simp add: pixels_of_def fmt_defs)
  have "assigns out (consecutive d ?f) = store out d (concat ?f)" for d
    unfolding xs by (rule assigns_consecutive)
  with True show ?thesis
    unfolding step g by (simp add: store_def length_concat_emit fmt_bytes_def fmt_defs add.commute)
next
  case False
  then show ?thesis by (auto simp: unpack_xrgb_16_iter_def fmt_defs fetch_def)
qed

interpretation xrgb_16: unpack_loop unpack_xrgb_16_iter "\<lambda>d out. (out, d)" fmt_xrgb_16
  by (rule unpack_loop.intro, rule xrgb_16_law)

section \<open>The whole of unpacking and truncation\<close>

text \<open>The format of an interface width, a pixel format and a swap flag.\<close>

definition unpack_format_of :: "u8 \<Rightarrow> bool \<Rightarrow> bool \<Rightarrow> unpack_format option" where
  "unpack_format_of width format swap =
     (if width = SMI_8_BITS then Some (if format = SMI_XRGB then fmt_xrgb_8 else fmt_rgb565_8)
      else if width = SMI_9_BITS then
        Some (if format = SMI_XRGB then (if swap then fmt_xrgb_9_swap else fmt_xrgb_9)
              else if swap then fmt_rgb565_9_swap else fmt_rgb565_9)
      else if width = SMI_16_BITS then Some (if format = SMI_XRGB then fmt_xrgb_16 else fmt_rgb565_16)
      else if width = SMI_18_BITS then
        Some (if format = SMI_XRGB then fmt_xrgb_18
              else if swap then fmt_rgb565_18_swap else fmt_rgb565_18)
      else None)"

definition truncate_format_of :: "u8 \<Rightarrow> unpack_format option" where
  "truncate_format_of width =
     (if width = SMI_8_BITS then Some (fmt_truncate 1 8)
      else if width = SMI_9_BITS then Some (fmt_truncate 2 9)
      else if width = SMI_16_BITS then Some (fmt_truncate 2 16)
      else if width = SMI_18_BITS then Some (fmt_truncate 4 18)
      else None)"

text \<open>What a routine that follows \<open>fmt\<close> makes of \<open>n\<close> groups of words.\<close>

definition fills :: "unpack_format \<Rightarrow> u32 list \<Rightarrow> u8 list \<Rightarrow> nat \<Rightarrow> u8 list outcome" where
  "fills fmt raw out n =
     (if n = 0 \<or> fmt_words fmt * n \<le> length raw \<and> fmt_bytes fmt * n \<le> length out
      then Returns (overlay out 0 (byte_stream fmt n raw))
      else Undefined)"

lemma fills_if:
  "obind (if b then Returns (x, k) else Undefined) (\<lambda>s. Returns (fst s)) =
    (if b then Returns x else Undefined)"
  by simp

lemmas unpack_fills =
  smi_unpack_rgb565_8_def rgb565_8.loop_fills smi_unpack_xrgb_8_def xrgb_8.loop_fills
  smi_unpack_xrgb_9_def xrgb_9.loop_fills smi_unpack_xrgb_9_swap_def xrgb_9_swap.loop_fills
  smi_unpack_rgb565_9_def rgb565_9.loop_fills smi_unpack_rgb565_9_swap_def rgb565_9_swap.loop_fills
  smi_unpack_xrgb_16_def xrgb_16.loop_fills smi_unpack_rgb565_16_def rgb565_16.loop_fills
  smi_unpack_xrgb_18_def xrgb_18.loop_fills smi_unpack_rgb565_18_def rgb565_18.loop_fills
  smi_unpack_rgb565_18_swap_def rgb565_18_swap.loop_fills fills_if

lemma unpackers_fill:
  "smi_unpack_rgb565_8 raw out n = fills fmt_rgb565_8 raw out n"
  "smi_unpack_xrgb_8 raw out n = fills fmt_xrgb_8 raw out n"
  "smi_unpack_xrgb_9 raw out n = fills fmt_xrgb_9 raw out n"
  "smi_unpack_xrgb_9_swap raw out n = fills fmt_xrgb_9_swap raw out n"
  "smi_unpack_rgb565_9 raw out n = fills fmt_rgb565_9 raw out n"
  "smi_unpack_rgb565_9_swap raw out n = fills fmt_rgb565_9_swap raw out n"
  "smi_unpack_xrgb_16 raw out n = fills fmt_xrgb_16 raw out (n div 2)"
  "smi_unpack_rgb565_16 raw out n = fills fmt_rgb565_16 raw out n"
  "smi_unpack_xrgb_18 raw out n = fills fmt_xrgb_18 raw out n"
  "smi_unpack_rgb565_18 raw out n = fills fmt_rgb565_18 raw out n"
  "smi_unpack_rgb565_18_swap raw out n = fills fmt_rgb565_18_swap raw out n"
  by (simp_all only: unpack_fills fills_def Let_def)

lemma truncators_fill:
  "smi_truncate_8 raw out n = fills (fmt_truncate 1 8) raw out n"
  "smi_truncate_9 raw out n = fills (fmt_truncate 2 9) raw out n"
  "smi_truncate_16 raw out n = fills (fmt_truncate 2 16) raw out n"
  "smi_truncate_18 raw out n = fills (fmt_truncate 4 18) raw out n"
  by (simp_all only: smi_truncate_8_def smi_truncate_9_def smi_truncate_16_def smi_truncate_18_def
      trunc_8.loop_fills trunc_9.loop_fills trunc_16.loop_fills trunc_18.loop_fills fills_def)

lemma fmt_words_values:
  "unpack_format_of w f s = Some fmt \<Longrightarrow>
    fmt_words fmt = (if w = SMI_16_BITS \<and> f = SMI_XRGB then 2 else 1)"
  by (auto simp: unpack_format_of_def fmt_defs split: if_splits)

lemma fills_OK:
  "obind (fills fmt raw out n) (\<lambda>out. Returns (SMI_OK, out)) =
     (if n = 0 \<or> fmt_words fmt * n \<le> length raw \<and> fmt_bytes fmt * n \<le> length out
      then Returns (SMI_OK, overlay out 0 (byte_stream fmt n raw)) else Undefined)"
  by (simp add: fills_def)

text \<open>\<^verbatim>\<open>smi_unpack\<close> follows this table of its modes, also where the source comments do not.\<close>

lemma smi_unpack_format:
  assumes "config0 cxt = Returns (rc, wc)"
  shows "smi_unpack cxt raw out cnt =
    (case unpack_format_of (rwidth rc) (wformat wc) (wswap wc) of
       None \<Rightarrow> Returns (SMI_ERR_INVALID_WIDTH, out)
     | Some fmt \<Rightarrow>
         let groups = cnt div fmt_words fmt in
         if groups = 0 \<or> fmt_words fmt * groups \<le> length raw \<and> fmt_bytes fmt * groups \<le> length out
         then Returns (SMI_OK, overlay out 0 (byte_stream fmt groups raw))
         else Undefined)"
  using assms by (auto simp: smi_unpack_def Let_def unpackers_fill fills_OK
      unpack_format_of_def fmt_defs simp del: obind_eq_Undefined obind_eq_Returns)

section \<open>Pixels on the bus\<close>

text \<open>
  One rule for four of the modes, independent of the routines: the bits of the pixels of a word,
  most significant first; a row of bits cut into pieces of \<open>n\<close>; and the bytes of such a piece as
  an element of memory, the low one first.
\<close>

definition pixel_bits :: "bool \<Rightarrow> u32 \<Rightarrow> bool list" where
  "pixel_bits xrgb w =
     (if xrgb then rev (map (bit w) [0..<24]) else rev (map (bit w) [0..<16]) @ rev (map (bit w) [16..<32]))"

fun cut :: "nat \<Rightarrow> bool list \<Rightarrow> bool list list" where
  "cut n bs = (if n = 0 \<or> length bs < n then [] else take n bs # cut n (drop n bs))"

declare cut.simps [simp del]

definition piece :: "bool list \<Rightarrow> u32" where
  "piece bs = horner_sum of_bool 2 (rev bs)"

definition bus_bytes :: "nat \<Rightarrow> bool \<Rightarrow> u32 list \<Rightarrow> u8 list" where
  "bus_bytes n xrgb ws =
     concat (map (\<lambda>bs. emit (n div 8) (piece bs)) (cut n (concat (map (pixel_bits xrgb) ws))))"

lemma cut_piece: "0 < n \<Longrightarrow> length bs = n \<Longrightarrow> cut n (bs @ cs) = bs # cut n cs"
  by (subst cut.simps) simp

lemma cut_Nil [simp]: "cut n [] = []"
  by (subst cut.simps) auto

lemma cut_append: "0 < n \<Longrightarrow> length bs = k * n \<Longrightarrow> cut n (bs @ cs) = cut n bs @ cut n cs"
proof (induction k arbitrary: bs)
  case 0
  then show ?case by simp
next
  case (Suc k)
  then have "bs = take n bs @ drop n bs" "length (take n bs) = n" "length (drop n bs) = k * n" by simp_all
  with Suc.IH [of "drop n bs"] Suc.prems(1) show ?case
    by (metis append.assoc append_Cons cut_piece)
qed

lemma bus_bytes_Nil: "bus_bytes n x [] = []"
  by (simp add: bus_bytes_def)

lemma length_pixel_bits: "length (pixel_bits x w) = (if x then 24 else 32)"
  by (simp add: pixel_bits_def)

lemma length_pixels_bits: "length (concat (map (pixel_bits x) ws)) = (if x then 24 else 32) * length ws"
  by (induction ws) (simp_all add: length_pixel_bits)

lemma bus_bytes_append:
  assumes "0 < n" and "(if x then 24 else 32) * length ws = k * n"
  shows "bus_bytes n x (ws @ vs) = bus_bytes n x ws @ bus_bytes n x vs"
  using cut_append [OF assms(1), of "concat (map (pixel_bits x) ws)" k] assms(2)
  by (simp add: bus_bytes_def length_pixels_bits)

text \<open>A format agrees with the rule if it does on one group of words.\<close>

lemma byte_stream_bus:
  assumes "0 < n" and "(if x then 24 else 32) * fmt_words fmt = k * n"
    and step: "\<And>ws. length ws = fmt_words fmt \<Longrightarrow>
      concat (map (emit (fmt_size fmt)) (pixels_of fmt ws)) = bus_bytes n x ws"
    and "fmt_words fmt * g \<le> length raw"
  shows "byte_stream fmt g raw = bus_bytes n x (take (fmt_words fmt * g) raw)"
  using assms(4)
proof (induction g)
  case 0
  then show ?case by (simp add: byte_stream_def pixel_stream_def bus_bytes_Nil)
next
  case (Suc g)
  let ?w = "fmt_words fmt"
  have len: "length (group fmt raw g) = ?w" using Suc.prems by (simp add: group_def)
  have "take (?w * Suc g) raw = take (?w * g) raw @ group fmt raw g"
    by (simp add: group_def take_add flip: take_add [of "?w * g" ?w, simplified add.commute])
  moreover have "(if x then 24 else 32) * length (take (?w * g) raw) = (k * g) * n"
  proof -
    have "length (take (?w * g) raw) = ?w * g" using Suc.prems by simp
    then show ?thesis by (metis assms(2) mult.assoc mult.commute)
  qed
  ultimately show ?case
    using Suc step [OF len] bus_bytes_append [OF assms(1), of x "take (?w * g) raw" "k * g"]
    by (simp add: byte_stream_Suc)
qed

lemma bit_piece: "bit (piece bs) i \<longleftrightarrow> i < 32 \<and> i < length bs \<and> bs ! (length bs - Suc i)"
  by (auto simp: piece_def bit_horner_sum_bit_word_iff rev_nth)

lemma byte_eq_iff: "a = b \<longleftrightarrow> list_all (\<lambda>n. bit a n = bit b n) [0, 1, 2, 3, 4, 5, 6, 7]"
  for a b :: u8
proof -
  have "list_all (\<lambda>n. bit a n = bit b n) [0, 1, 2, 3, 4, 5, 6, 7] \<Longrightarrow> a = b"
    by (rule bit_word_eqI) (auto simp: numeral_eq_Suc less_Suc_eq)
  then show ?thesis by fastforce
qed

lemma fmt_sizes:
  "fmt_words fmt_rgb565_8 = 1" "fmt_size fmt_rgb565_8 = 1" "fmt_bytes fmt_rgb565_8 = 4"
  "fmt_words fmt_xrgb_8 = 1" "fmt_size fmt_xrgb_8 = 1" "fmt_bytes fmt_xrgb_8 = 3"
  "fmt_words fmt_rgb565_16 = 1" "fmt_size fmt_rgb565_16 = 2" "fmt_bytes fmt_rgb565_16 = 4"
  "fmt_words fmt_xrgb_16 = 2" "fmt_size fmt_xrgb_16 = 2" "fmt_bytes fmt_xrgb_16 = 6"
  by (simp_all add: fmt_defs fmt_bytes_def)

lemma cut_8: "cut 8 (a # b # c # d # e # f # g # h # bs) = [a, b, c, d, e, f, g, h] # cut 8 bs"
  using cut_piece [of 8 "[a, b, c, d, e, f, g, h]" bs] by simp

lemma cut_16: "cut 16 (a # b # c # d # e # f # g # h # i # j # k # l # m # n # p # q # bs) =
    [a, b, c, d, e, f, g, h, i, j, k, l, m, n, p, q] # cut 16 bs"
  using cut_piece [of 16 "[a, b, c, d, e, f, g, h, i, j, k, l, m, n, p, q]" bs] by simp

lemma pixel_rows:
  "pixel_bits True w =
     [bit w 23, bit w 22, bit w 21, bit w 20, bit w 19, bit w 18, bit w 17, bit w 16, bit w 15, bit w 14,
      bit w 13, bit w 12, bit w 11, bit w 10, bit w 9, bit w 8, bit w 7, bit w 6, bit w 5, bit w 4,
      bit w 3, bit w 2, bit w 1, bit w 0]"
  "pixel_bits False w =
     [bit w 15, bit w 14, bit w 13, bit w 12, bit w 11, bit w 10, bit w 9, bit w 8, bit w 7, bit w 6,
      bit w 5, bit w 4, bit w 3, bit w 2, bit w 1, bit w 0,
      bit w 31, bit w 30, bit w 29, bit w 28, bit w 27, bit w 26, bit w 25, bit w 24, bit w 23, bit w 22,
      bit w 21, bit w 20, bit w 19, bit w 18, bit w 17, bit w 16]"
  by (simp_all add: pixel_bits_def upt_rec eval_nat_numeral)

lemma group_rgb565_8: "concat (map (emit 1) (pixels_of fmt_rgb565_8 [w])) = bus_bytes 8 False [w]"
  by (simp add: bus_bytes_def pixel_rows cut_8 cut_16 pixels_of_def fmt_defs emit_bytes byte_eq_iff
      bit_simps bit_piece)

lemma group_xrgb_8: "concat (map (emit 1) (pixels_of fmt_xrgb_8 [w])) = bus_bytes 8 True [w]"
  by (simp add: bus_bytes_def pixel_rows cut_8 cut_16 pixels_of_def fmt_defs emit_bytes byte_eq_iff
      bit_simps bit_piece)

lemma group_rgb565_16: "concat (map (emit 2) (pixels_of fmt_rgb565_16 [w])) = bus_bytes 16 False [w]"
  by (simp add: bus_bytes_def pixel_rows cut_8 cut_16 pixels_of_def fmt_defs emit_bytes le16_def byte_eq_iff
      bit_simps bit_piece)

lemma group_xrgb_16: "concat (map (emit 2) (pixels_of fmt_xrgb_16 [w, v])) = bus_bytes 16 True [w, v]"
  by (simp add: bus_bytes_def pixel_rows cut_8 cut_16 pixels_of_def fmt_defs emit_bytes le16_def byte_eq_iff
      bit_simps bit_piece)

lemma bus_bytes_modes:
  "n \<le> length raw \<Longrightarrow> byte_stream fmt_rgb565_8 n raw = bus_bytes 8 False (take n raw)"
  "n \<le> length raw \<Longrightarrow> byte_stream fmt_xrgb_8 n raw = bus_bytes 8 True (take n raw)"
  "n \<le> length raw \<Longrightarrow> byte_stream fmt_rgb565_16 n raw = bus_bytes 16 False (take n raw)"
  "2 * n \<le> length raw \<Longrightarrow> byte_stream fmt_xrgb_16 n raw = bus_bytes 16 True (take (2 * n) raw)"
  using byte_stream_bus [of 8 False fmt_rgb565_8 4 n raw] byte_stream_bus [of 8 True fmt_xrgb_8 3 n raw]
    byte_stream_bus [of 16 False fmt_rgb565_16 2 n raw]
    byte_stream_bus [of 16 True fmt_xrgb_16 3 n raw]
    group_rgb565_8 group_xrgb_8 group_rgb565_16 group_xrgb_16
  by (simp_all add: fmt_sizes length_Suc_conv numeral_2_eq_2) blast+

section \<open>Losses\<close>

text \<open>Little-endian words of a byte sequence, and the exchange of the two bytes of each half.\<close>

definition word_of_le :: "u8 \<Rightarrow> u8 \<Rightarrow> u8 \<Rightarrow> u8 \<Rightarrow> u32" where
  "word_of_le a b c d =
     ucast a OR push_bit 8 (ucast b) OR push_bit 16 (ucast c) OR push_bit 24 (ucast d)"

fun le_words :: "u8 list \<Rightarrow> u32 list" where
  "le_words (a # b # c # d # bs) = word_of_le a b c d # le_words bs"
| "le_words _ = []"

fun swap_halves :: "u8 list \<Rightarrow> u8 list" where
  "swap_halves (a # b # bs) = b # a # swap_halves bs"
| "swap_halves bs = bs"

lemma word_of_le32:
  "word_of_le (ucast w) (ucast (drop_bit 8 w)) (ucast (drop_bit 16 w)) (ucast (drop_bit 24 w)) = w"
  by (rule bitwise) (simp add: word_of_le_def bit_simps)

lemma le_words_le32: "le_words (le32 w @ bs) = w # le_words bs"
  by (simp add: le32_def word_of_le32)

lemma swap_halves_append: "even (length xs) \<Longrightarrow> swap_halves (xs @ ys) = swap_halves xs @ swap_halves ys"
  by (induction xs rule: swap_halves.induct) simp_all

lemma group_one: "fmt_words fmt = 1 \<Longrightarrow> n < length raw \<Longrightarrow> group fmt raw n = [raw ! n]"
  by (simp add: group_def hd_drop_conv_nth take_Suc)

lemma byte_stream_words:
  assumes "fmt_words fmt = 1"
    and "\<And>w. concat (map (emit (fmt_size fmt)) (pixels_of fmt [w])) = f w" and "n \<le> length raw"
  shows "byte_stream fmt n raw = concat (map f (take n raw))"
  using assms(3)
proof (induction n)
  case 0
  then show ?case by (simp add: byte_stream_def pixel_stream_def)
next
  case (Suc n)
  then show ?case
    by (simp add: byte_stream_Suc assms(2) group_one [OF assms(1)] take_Suc_conv_app_nth)
qed

lemma rgb565_16_bytes:
  "n \<le> length raw \<Longrightarrow> byte_stream fmt_rgb565_16 n raw = concat (map le32 (take n raw))"
proof (rule byte_stream_words)
  show "concat (map (emit (fmt_size fmt_rgb565_16)) (pixels_of fmt_rgb565_16 [w])) = le32 w" for w
    by (simp add: fmt_defs pixels_of_def emit_bytes le16_def le32_def)
      (auto intro!: bit_word_eqI simp: bit_simps)
qed (simp_all add: fmt_defs)

lemma rgb565_8_bytes:
  "n \<le> length raw \<Longrightarrow>
    byte_stream fmt_rgb565_8 n raw = concat (map (\<lambda>w. swap_halves (le32 w)) (take n raw))"
proof (rule byte_stream_words)
  show "concat (map (emit (fmt_size fmt_rgb565_8)) (pixels_of fmt_rgb565_8 [w])) =
      swap_halves (le32 w)" for w
    by (simp add: fmt_defs pixels_of_def emit_bytes le32_def)
      (auto intro!: bit_word_eqI simp: bit_simps)
qed (simp_all add: fmt_defs)

lemma le_words_concat: "le_words (concat (map le32 ws) @ bs) = ws @ le_words bs"
  by (induction ws) (simp_all add: le_words_le32)

lemma swap_halves_concat:
  "swap_halves (concat (map (\<lambda>w. swap_halves (le32 w)) ws) @ bs) = concat (map le32 ws) @ swap_halves bs"
  by (induction ws) (simp_all add: swap_halves_append le32_def)

text \<open>The format the comment above \<^verbatim>\<open>smi_unpack_rgb565_9_word\<close> gives.\<close>

definition comment_rgb565_9 :: unpack_format where
  "comment_rgb565_9 = mk_fmt 1 2
     [[(0,15,11), (0,15,15), (0,10,8)], [(0,7,0), (0,4,4)],
      [(0,31,27), (0,31,31), (0,26,24)], [(0,23,16), (0,20,20)]]"

lemma word16_eq_iff:
  "a = b \<longleftrightarrow> list_all (\<lambda>n. bit a n = bit b n) [0, 1, 2, 3, 4, 5, 6, 7, 8, 9, 10, 11, 12, 13, 14, 15]"
  for a b :: u16
proof -
  have "list_all (\<lambda>n. bit a n = bit b n) [0, 1, 2, 3, 4, 5, 6, 7, 8, 9, 10, 11, 12, 13, 14, 15]
      \<Longrightarrow> a = b"
    by (rule bit_word_eqI) (auto simp: numeral_eq_Suc less_Suc_eq)
  then show ?thesis by fastforce
qed

lemma apply_swap_16_word:
  "apply_swap_16 (smi_unpack_rgb565_9_word w) =
     map (\<lambda>p. ucast (fifo [w] p)) (fmt_pixels fmt_rgb565_9_swap)"
  by (simp add: apply_swap_16_def smi_unpack_rgb565_9_word_fifo fmt_defs numeral_3_eq_3
      numeral_2_eq_2 del: fifo.simps)

section \<open>Properties\<close>

text \<open>
  C1: On 8-bit and 16-bit buses \<^verbatim>\<open>smi_unpack\<close> succeeds, whatever the swap flag, and fills the
  destination, from its start, with the bits of the pixels in the FIFO words, most significant first, cut into bus transfers: one
  byte each on the 8-bit bus, two bytes, low one first, on the 16-bit bus. A pixel is one half of a
  word in RGB565 (the low half first) and the low 24 bits of one in XRGB. Every word counts, but on
  the 16-bit bus XRGB words are taken in pairs; and the call stays inside its two buffers exactly if
  they hold that many words and four (RGB565) or three (XRGB) bytes for each. (The widths of 9 and
  18 bits, where the source comments contradict the code, are not part of this.)
\<close>
theorem smi_unpack_cuts_pixels:
  assumes "config0 cxt = Returns (rc, wc)"
    and "rwidth rc = SMI_8_BITS \<and> n = 8 \<or> rwidth rc = SMI_16_BITS \<and> n = 16"
  shows "smi_unpack cxt raw out cnt =
    (let xrgb = (wformat wc = SMI_XRGB);
         ws = (if n = 16 \<and> xrgb then 2 * (cnt div 2) else cnt) in
     if ws = 0 \<or> ws \<le> length raw \<and> (if xrgb then 3 else 4) * ws \<le> length out
     then Returns (SMI_OK, overlay out 0 (bus_bytes n xrgb (take ws raw)))
     else Undefined)"
  using assms(2) unfolding smi_unpack_format [OF assms(1)]
  by (elim disjE conjE; cases "wformat wc")
    (simp_all add: unpack_format_of_def Let_def fmt_sizes bus_bytes_modes bus_bytes_Nil)

theorem smi_unpack_cuts_pixels_witness:
  "smi_unpack (sample_cxt SMI_8_BITS SMI_XRGB False True) [0x112233, 0xAA445566] [9, 9, 9, 9, 9, 9, 9] 2
     = Returns (SMI_OK, [0x11, 0x22, 0x33, 0x44, 0x55, 0x66, 9])"
proof -
  have "bus_bytes 8 True (take 2 [0x112233, 0xAA445566]) = [0x11, 0x22, 0x33, 0x44, 0x55, 0x66]"
    by code_simp
  then show ?thesis
    by (subst smi_unpack_cuts_pixels [OF sample_config0, where n = 8])
      (simp_all add: sample_read_def sample_write_def overlay_def)
qed

text \<open>
  C14: The ratio \<^verbatim>\<open>smi_packed_ratio\<close> announces is that of the unpacker \<^verbatim>\<open>smi_unpack\<close> runs:
  the words of a group and the pixels it unpacks to, in every packed configuration with a valid
  width, with one to one otherwise.
\<close>
theorem smi_packed_ratio_agrees:
  assumes "config0 cxt = Returns (rc, wc)"
  shows "smi_packed_ratio cxt = Returns
    (case unpack_format_of (rwidth rc) (wformat wc) (wswap wc) of
       Some fmt \<Rightarrow> if pxldata cxt
         then mk_ratio (of_nat (fmt_words fmt)) (of_nat (length (fmt_pixels fmt))) else mk_ratio 1 1
     | None \<Rightarrow> mk_ratio 1 1)"
  using assms by (simp add: smi_packed_ratio_def unpack_format_of_def fmt_defs)

theorem smi_packed_ratio_agrees_witness:
  "smi_packed_ratio (sample_cxt SMI_16_BITS SMI_XRGB False True) = Returns (mk_ratio 2 3)"
  using smi_packed_ratio_agrees [OF sample_config0 [of SMI_16_BITS SMI_XRGB False True]]
  by (simp add: unpack_format_of_def sample_defs fmt_defs)

text \<open>
  C25: With a valid width \<^verbatim>\<open>smi_truncate\<close> stores the low bits of the configured width of each of
  the first \<^verbatim>\<open>count\<close> words, in elements of one, two or four bytes, and nothing else; it is defined
  exactly if both buffers are long enough.
\<close>
theorem smi_truncate_follows_format:
  assumes "config0 cxt = Returns (rc, wc)" and "truncate_format_of (rwidth rc) = Some fmt"
  shows "smi_truncate cxt data out cnt =
    (if cnt = 0 \<or> cnt \<le> length data \<and> fmt_bytes fmt * cnt \<le> length out
     then Returns (overlay out 0 (byte_stream fmt cnt data))
     else Undefined)"
  using assms by (auto simp: smi_truncate_def truncators_fill fills_def truncate_format_of_def
      fmt_defs fmt_bytes_def split: if_splits)

theorem smi_truncate_follows_format_witness:
  "smi_truncate (sample_cxt SMI_9_BITS SMI_RGB565 False False) [0xFFFF, 0x10203] [7, 7, 7, 7, 7] 2
     = Returns [0xFF, 1, 3, 0, 7]"
proof -
  have "truncate_format_of (rwidth (sample_read SMI_9_BITS)) = Some (fmt_truncate 2 9)"
    by (simp add: truncate_format_of_def sample_read_def)
  from smi_truncate_follows_format [OF sample_config0 this] show ?thesis
    by simp code_simp
qed

text \<open>
  With any other width it stores nothing, although the message it prints for this case says
  \<^verbatim>\<open>returning untruncated data\<close>.
\<close>
lemma smi_truncate_invalid_width:
  assumes "config0 cxt = Returns (rc, wc)" and "truncate_format_of (rwidth rc) = None"
  shows "smi_truncate cxt data out cnt = Returns out"
  using assms by (auto simp: smi_truncate_def truncate_format_of_def split: if_splits)

text \<open>
  C20: The two RGB565 unpackers for byte-aligned buses lose nothing: the FIFO words come back
  from the bytes they leave, read as little-endian words in 16-bit mode, and with the bytes of
  each half exchanged in 8-bit mode.
\<close>
theorem rgb565_unpack_roundtrip:
  assumes "n \<le> length raw" and "smi_unpack_rgb565_16 raw out n = Returns out16"
    and "smi_unpack_rgb565_8 raw out n = Returns out8"
  shows "take n (le_words out16) = take n raw \<and> take n (le_words (swap_halves out8)) = take n raw"
  using assms by (auto simp: unpackers_fill fills_def overlay_def rgb565_16_bytes rgb565_8_bytes
      swap_halves_concat le_words_concat split: if_splits)

theorem rgb565_unpack_roundtrip_witness:
  "take 1 (le_words [0x44, 0x33, 0x22, 0x11]) = [0x11223344 :: u32]
   \<and> take 1 (le_words (swap_halves [0x33, 0x44, 0x11, 0x22])) = [0x11223344 :: u32]"
  using rgb565_unpack_roundtrip [of 1 "[0x11223344]" "[0, 0, 0, 0]" "[0x44, 0x33, 0x22, 0x11]"
      "[0x33, 0x44, 0x11, 0x22]"]
  by (simp add: smi_unpack_rgb565_16_def smi_unpack_rgb565_8_def c_for_step fetch_def
      unpack_rgb565_16_iter_def unpack_rgb565_8_iter_def store_def overlay_def le16_def)

text \<open>
  The 9-bit RGB565 unpacker agrees with the comment above it on exactly the words whose
  bits 13, 7, 29 and 23 happen to equal bits 15, 4, 31 and 20: those are the bits the code
  repeats, and the ones the comment says it repeats.
\<close>
theorem rgb565_9_repeats_other_bits:
  "smi_unpack_rgb565_9_word w = map (\<lambda>p. ucast (fifo [w] p)) (fmt_pixels comment_rgb565_9) \<longleftrightarrow>
   (bit w 13 = bit w 15 \<and> bit w 7 = bit w 4 \<and> bit w 29 = bit w 31 \<and> bit w 23 = bit w 20)"
  unfolding smi_unpack_rgb565_9_word_fifo word16_eq_iff list.map comment_rgb565_9_def
    fmt_rgb565_9_def mk_fmt_def unpack_format.simps list.inject
  by (simp add: bit_simps del: push_bit_Suc flip: bit_iff_odd_drop_bit)

text \<open>
  On the 16-bit halves it is applied to, \<^verbatim>\<open>reverse18\<close> reverses the low fourteen bits into
  positions 15 down to 2 and drops the top two: it is no permutation of the bits.
\<close>
theorem reverse18_drops_bits:
  "reverse18 (w AND 0xFFFF) = fifo [w] (map (\<lambda>i. (0, i, i)) [0..<14] @ [zero_bit, zero_bit])"
  unfolding reverse18_def Let_def
  by (rule bitwise, simp add: upt_rec bit_simps del: push_bit_Suc flip: bit_iff_odd_drop_bit,
     (simp add: bit_0 eval_nat_numeral)?)

end
