(* ===== verification/Smi_Config.thy ===== *)
theory Smi_Config
  imports Smi_Dma Smi_Unpack_Spec
begin

unbundle bit_operations_syntax

text \<open>
  The set-up half of \<^verbatim>\<open>smi.c\<close>: mapping the peripherals, the raw buffer, the read and write
  configurations, the u-dma-buf buffer, the SMI clock, the device settings registers, and the
  functions that take these down again.
\<close>

section \<open>Mapping and the raw buffer\<close>

text \<open>
  The result is the return value, the context and the four \<^verbatim>\<open>MEM_MAP\<close> objects of the caller
  (SMI, clock, GPIO, DMA), or \<open>None\<close> if the process ended. \<^verbatim>\<open>malloc\<close> is the allocation of a
  block with no old content.
\<close>

definition smi_init_cxt_map ::
  "'h machine \<Rightarrow> SMI_CXT \<Rightarrow> MEM_MAP \<Rightarrow> MEM_MAP \<Rightarrow> MEM_MAP \<Rightarrow> MEM_MAP \<Rightarrow> 'h world
     \<Rightarrow> (int \<times> SMI_CXT \<times> MEM_MAP \<times> MEM_MAP \<times> MEM_MAP \<times> MEM_MAP) option \<times> 'h world" where
  "smi_init_cxt_map m cxt smi ck gpio dm w =
     unless_exit (map_segment m gpio GPIO_BASE PAGE_SIZE w) (\<lambda>gpio w.
     unless_exit (map_segment m dm DMA_BASE (NADJ_CHANNELS * PAGE_SIZE) w) (\<lambda>dm w.
     unless_exit (map_segment m smi SMI_BASE PAGE_SIZE w) (\<lambda>smi w.
     let smi = smi\<lparr>mm_bus := mm_phys smi - PHYS_REG_BASE + BUS_REG_BASE\<rparr>;
         w = smi_gpio_init m gpio w in
     unless_exit (map_segment m ck CLK_BASE PAGE_SIZE w) (\<lambda>ck w.
     let (buf, w) = realloc32 m (1024 * 4) [] w;
         cxt = cxt\<lparr>raw_buffer := \<lparr>rb_buf = buf, rb_size = 1024\<rparr>\<rparr> in
     if buf = None then
       (Some (SMI_ERR_ALLOC_FAIL, cxt, smi, ck, gpio, dm), perr ''Raw buffer allocation failed'' w)
     else
       (let cxt = cxt\<lparr>smi_regs := Some smi, clk_regs := Some ck, gpio_regs := Some gpio,
                      dma_regs := Some dm\<rparr> in
        (Some (SMI_OK, cxt, smi, ck, gpio, dm), w))))))"

text \<open>
  \<open>gpio_at\<close> and the others are the addresses the pointers of the context hold, which the
  function hands to \<^verbatim>\<open>unmap_segment\<close>; the freed buffer stays in the context.
\<close>

definition smi_unmap_cxt ::
  "'h machine \<Rightarrow> uintptr \<Rightarrow> uintptr \<Rightarrow> uintptr \<Rightarrow> uintptr \<Rightarrow> SMI_CXT \<Rightarrow> 'h world
     \<Rightarrow> SMI_CXT \<times> 'h world" where
  "smi_unmap_cxt m gpio_at dma_at smi_at clk_at cxt w =
     (let w = unmap_segment m gpio_at PAGE_SIZE w;
          w = unmap_segment m dma_at (NADJ_CHANNELS * PAGE_SIZE) w;
          w = unmap_segment m smi_at PAGE_SIZE w;
          w = unmap_segment m clk_at PAGE_SIZE w;
          w = (if rb_buf (raw_buffer cxt) \<noteq> None then snd (sys m Free w) else w) in
      (cxt\<lparr>raw_buffer := (raw_buffer cxt)\<lparr>rb_size := 0\<rparr>\<rparr>, w))"

definition old_words :: "SMI_RAW_BUF \<Rightarrow> u32 list" where
  "old_words rb = (case rb_buf rb of None \<Rightarrow> [] | Some xs \<Rightarrow> xs)"

definition smi_resize_raw_buffer ::
  "'h machine \<Rightarrow> SMI_CXT \<Rightarrow> size_t \<Rightarrow> 'h world \<Rightarrow> int \<times> SMI_CXT \<times> 'h world" where
  "smi_resize_raw_buffer m cxt len w =
     (if len \<le> 0 then
        (SMI_ERR_BUF_TO_SMALL, cxt, perr ''Tried to realloc to size 0, returning original buffer'' w)
      else
        (let (new_buf, w) = realloc32 m (len * 4) (old_words (raw_buffer cxt)) w in
         if new_buf = None then (SMI_ERR_ALLOC_FAIL, cxt, perr ''Reallocation of raw buffer failed'' w)
         else (SMI_OK, cxt\<lparr>raw_buffer := \<lparr>rb_buf = new_buf, rb_size = len\<rparr>\<rparr>, w)))"

section \<open>Configurations\<close>

definition smi_init_rw_config ::
  "SMI_CXT \<Rightarrow> SMI_RW \<Rightarrow> SMI_CLK option \<Rightarrow> SMI_READ \<Rightarrow> SMI_WRITE \<Rightarrow> int \<Rightarrow> int \<Rightarrow> SMI_CXT outcome" where
  "smi_init_rw_config cxt rw ck rc wc read_device write_device =
     (let rw = rw\<lparr>read_device_num := word_of_int read_device\<rparr>;
          rw = rw\<lparr>write_device_num := word_of_int write_device\<rparr> in
      if 0 \<le> write_device \<and> nat write_device < length (rconfig rw)
           \<and> nat write_device < length (wconfig rw) then
        (let rw = rw\<lparr>rconfig := (rconfig rw)[nat write_device := rc]\<rparr>;
             rw = rw\<lparr>wconfig := (wconfig rw)[nat write_device := wc]\<rparr>;
             rw = rw\<lparr>clk := ck\<rparr> in
         Returns (cxt\<lparr>rw_config := Some rw\<rparr>))
      else Undefined)"

text \<open>
  The assignments of the two configure functions, in their order. The functions end without a
  \<^verbatim>\<open>return\<close>, so on success there is no value (\<open>None\<close>), and to use it is undefined.
\<close>

definition read_settings :: "SMI_READ \<Rightarrow> (field \<times> u32) list" where
  "read_settings c =
     [(DSR_rstrobe, byte32 (rstrobe c)), (DSR_rdreq, bool32 (rdreq c)), (DSR_rpace, byte32 (rpace c)),
      (DSR_rpaceall, bool32 (rpaceall c)), (DSR_rhold, byte32 (rhold c)),
      (DSR_fsetup, bool32 (fsetup c)), (DSR_mode68, bool32 (mode68 c)),
      (DSR_rsetup, byte32 (rsetup c)), (DSR_rwidth, byte32 (rwidth c))]"

definition smi_configure_read_device ::
  "'h machine \<Rightarrow> SMI_CXT \<Rightarrow> u8 \<Rightarrow> 'h world \<Rightarrow> (int option \<times> 'h world) outcome" where
  "smi_configure_read_device m cxt n w =
     (if n > 3 then Returns (Some SMI_ERR_INVALID_DEVICE, perr ''Device number out of range'' w)
      else
        obind (deref (smi_regs cxt)) (\<lambda>regs.
        let dsr = REG32 regs (SMIO_DSR n) in
        obind (deref (rw_config cxt)) (\<lambda>rw.
        obind (fetch (rconfig rw) (unat n)) (\<lambda>c.
        Returns (None, fsets m dsr (read_settings c) w)))))"

definition write_settings :: "SMI_WRITE \<Rightarrow> (field \<times> u32) list" where
  "write_settings c =
     [(DSW_wsetup, bool32 (wformat c)), (DSW_wwidth, byte32 (wwidth c)), (DSW_whold, byte32 (whold c)),
      (DSW_wpace, byte32 (wpace c)), (DSW_wpaceall, bool32 (wpaceall c)),
      (DSW_wstrobe, byte32 (wstrobe c)), (DSW_wdreq, bool32 (wdreq c)),
      (DSW_wswap, bool32 (wswap c)), (DSW_wformat, bool32 (wformat c))]"

definition smi_configure_write_device ::
  "'h machine \<Rightarrow> SMI_CXT \<Rightarrow> u8 \<Rightarrow> 'h world \<Rightarrow> (int option \<times> 'h world) outcome" where
  "smi_configure_write_device m cxt n w =
     (if n > 3 then Returns (Some SMI_ERR_INVALID_DEVICE, perr ''Device number out of range'' w)
      else
        obind (deref (smi_regs cxt)) (\<lambda>regs.
        let dsw = REG32 regs (SMIO_DSW n) in
        obind (deref (rw_config cxt)) (\<lambda>rw.
        obind (fetch (wconfig rw) (unat n)) (\<lambda>c.
        Returns (None, fsets m dsw (write_settings c) w)))))"

definition smi_sync_context_device ::
  "'h machine \<Rightarrow> SMI_CXT \<Rightarrow> 'h world \<Rightarrow> (int \<times> 'h world) outcome" where
  "smi_sync_context_device m cxt w =
     obind (deref (rw_config cxt)) (\<lambda>rw.
     obind (smi_configure_write_device m cxt (write_device_num rw) w) (\<lambda>(err, w).
     obind (deref err) (\<lambda>err.
     if err < SMI_OK then Returns (err, w)
     else
       obind (smi_configure_read_device m cxt (read_device_num rw) w) (\<lambda>(err, w).
       obind (deref err) (\<lambda>err.
       if err < SMI_OK then Returns (err, w) else Returns (err, w))))))"

section \<open>The u-dma-buf buffer\<close>

definition smi_init_udmabuf ::
  "'h machine \<Rightarrow> SMI_CXT \<Rightarrow> MEM_MAP \<Rightarrow> u8 list \<Rightarrow> 'h world
     \<Rightarrow> (int \<times> SMI_CXT \<times> MEM_MAP \<times> u8 list \<times> 'h world) outcome" where
  "smi_init_udmabuf m cxt buff mem w =
     (let (fd_cpu, w) = sys m (Open ''/sys/class/u-dma-buf/udmabuf0/sync_for_cpu'' ''O_WRONLY'') w;
          (fd_dev, w) = sys m (Open ''/sys/class/u-dma-buf/udmabuf0/sync_for_device'' ''O_WRONLY'') w in
      if fd_cpu < 0 \<or> fd_dev < 0 then
        (let w = (if 0 \<le> fd_cpu then snd (sys m (Close fd_cpu) w) else w);
             w = (if 0 \<le> fd_dev then snd (sys m (Close fd_dev) w) else w) in
         Returns (SMI_ERR_FILE_IO_FAIL, cxt, buff, mem, perr ''Could not open u-dma-buf sync'' w))
      else
        obind (dma_buffer_init m buff True True mem w) (\<lambda>(_, buff, mem, w).
        Returns (SMI_OK,
          cxt\<lparr>fd_sync_dev := fd_dev, fd_sync_cpu := fd_cpu, dma_buffer := Some buff\<rparr>,
          buff, mem, w)))"

text \<open>\<open>buffer_at\<close> is the address \<^verbatim>\<open>cxt->dma_buffer\<close> holds.\<close>

definition smi_unmap_udmabuf ::
  "'h machine \<Rightarrow> uintptr \<Rightarrow> SMI_CXT \<Rightarrow> 'h world \<Rightarrow> 'h world" where
  "smi_unmap_udmabuf m buffer_at cxt w =
     (let w = unmap_segment m buffer_at (of_nat DMA_BUFFER_SIZE) w;
          w = (if 0 \<le> fd_sync_cpu cxt then snd (sys m (Close (fd_sync_cpu cxt)) w) else w) in
      if 0 \<le> fd_sync_dev cxt then snd (sys m (Close (fd_sync_dev cxt)) w) else w)"

section \<open>The SMI clock\<close>

definition CLK_PASSWD :: u32 where "CLK_PASSWD = 0x5a000000"

text \<open>Poll the control register while its busy bit is \<open>busy\<close>.\<close>

definition clk_poll :: "'h machine \<Rightarrow> MEM_MAP \<Rightarrow> bool \<Rightarrow> 'h world \<Rightarrow> ('h world, 'h world) iter" where
  "clk_poll m regs busy w =
     (let (v, w) = ld32 m (REG32 regs CLK_SMI_CTL) w in
      if (v AND push_bit 7 1 \<noteq> 0) = busy then Again w else Leave (Returns w))"

definition init_smi_clk ::
  "'h machine \<Rightarrow> nat \<Rightarrow> MEM_MAP \<Rightarrow> int \<Rightarrow> 'h world \<Rightarrow> 'h world outcome" where
  "init_smi_clk m fuel regs ns w =
     (let divi = ns sdiv 2;
          ctl = REG32 regs CLK_SMI_CTL;
          dv = REG32 regs CLK_SMI_DIV;
          (v, w) = ld32 m dv w in
      if v \<noteq> push_bit 12 (word_of_int divi) then
        (let w = st32 m ctl (CLK_PASSWD OR push_bit 5 1) w;
             w = sleep m 0 w in
         obind (loop fuel (clk_poll m regs True) w) (\<lambda>w.
         let w = sleep m 0 w;
             w = st32 m dv (CLK_PASSWD OR push_bit 12 (word_of_int divi)) w;
             w = sleep m 0 w;
             w = st32 m ctl (CLK_PASSWD OR 6 OR push_bit 4 1) w;
             w = sleep m 0 w in
         obind (loop fuel (clk_poll m regs False) w) (\<lambda>w.
         Returns (sleep m 0 w))))
      else Returns w)"

section \<open>Control register helpers\<close>

definition smi_dma_setup :: "'h machine \<Rightarrow> MEM_MAP \<Rightarrow> 'h world \<Rightarrow> 'h world" where
  "smi_dma_setup m regs w =
     (let cs = REG32 regs SMIO_CS;
          dc = REG32 regs SMIO_DCS;
          w = fset m cs CS_clear 1 w;
          w = fset m cs CS_pxldat 1 w;
          w = fset m cs CS_enable 1 w;
          w = fset m dc DC_dmaen 1 w;
          (seterr, w) = fget m cs CS_seterr w in
      if seterr \<noteq> 0 then
        (let w = perr ''SMI SETERR true'' w in
         fset m cs CS_seterr 1 w)
      else w)"

definition smi_start :: "'h machine \<Rightarrow> SMI_CXT \<Rightarrow> 'h world \<Rightarrow> 'h world outcome" where
  "smi_start m cxt w =
     obind (deref (smi_regs cxt)) (\<lambda>regs.
     Returns (fset m (REG32 regs SMIO_CS) CS_start 1 w))"

section \<open>Lemmas\<close>

lemma read_settings_fields:
  "map fst (read_settings c) = [DSR_rstrobe, DSR_rdreq, DSR_rpace, DSR_rpaceall, DSR_rhold,
     DSR_fsetup, DSR_mode68, DSR_rsetup, DSR_rwidth]"
  by (simp add: read_settings_def)

text \<open>The read settings are assigned in the order of the struct, so they are its layout.\<close>

lemma read_settings_layout: "map fst (read_settings c) = layout SMI_DSR_BITFIELD"
  by (simp add: read_settings_fields layout_DSR)

lemma write_settings_layout: "set (map fst (write_settings c)) = set (layout SMI_DSW_BITFIELD)"
  by (auto simp: write_settings_def layout_DSW)

lemma write_settings_apart: "sorted_wrt fld_apart (map fst (write_settings c))"
  by (simp add: write_settings_def fld_apart_def)

lemma settings_ok:
  "(f, x) \<in> set (read_settings c) \<Longrightarrow> fld_ok f"
  by (auto simp: read_settings_def fld_ok_def)

lemma write_settings_ok:
  "(f, x) \<in> set (write_settings d) \<Longrightarrow> fld_ok f"
  by (auto simp: write_settings_def fld_ok_def)

lemma read_settings_apart: "sorted_wrt fld_apart (map fst (read_settings c))"
  unfolding read_settings_layout by (rule layout_apart)

lemma device_num_fetch:
  "wf_rw rw \<Longrightarrow> n \<le> (3 :: u8) \<Longrightarrow>
     fetch (rconfig rw) (unat n) = Returns (rconfig rw ! unat n)
     \<and> fetch (wconfig rw) (unat n) = Returns (wconfig rw ! unat n)"
  by (simp add: wf_rw_def fetch_def word_le_nat_alt)

lemma clk_poll_ends:
  fixes \<mu> :: "'h \<Rightarrow> nat"
  assumes "\<And>h. (fst (m_ld m (REG32 regs CLK_SMI_CTL) h) AND push_bit 7 1 \<noteq> 0) = busy \<Longrightarrow>
      \<mu> (snd (m_ld m (REG32 regs CLK_SMI_CTL) h)) < \<mu> h"
    and "\<And>h. \<mu> h < fuel"
  shows "\<exists>w'. loop fuel (clk_poll m regs busy) w = Returns w' \<and> stores (log w') = stores (log w)"
proof (rule loop_total [where I = "\<lambda>v. stores (log v) = stores (log w)" and M = "\<lambda>w. \<mu> (hw w)"])
  show "stores (log s') = stores (log w) \<and> \<mu> (hw s') < \<mu> (hw s)"
    if "stores (log s) = stores (log w)" and "clk_poll m regs busy s = Again s'" for s s'
    using that assms(1) [of "hw s"]
    by (auto simp: clk_poll_def ld32_def split_beta Let_def split: if_splits)
  show "\<exists>w'. r = Returns w' \<and> stores (log w') = stores (log w)"
    if "stores (log s) = stores (log w)" and "clk_poll m regs busy s = Leave r" for s r
    using that by (auto simp: clk_poll_def split_beta Let_def split: if_splits)
qed (use assms(2) in auto)

section \<open>Properties\<close>

text \<open>
  C30: Configuring a read device up to 3 is defined, returns no value, and leaves in the device's
  read settings register the configured strobe, pace, hold and setup times, each cut to the width of
  its field, the configured bus width, and the configured request, pace-all, first-setup and mode 68
  flags; no other SMI register is changed. A larger device number is reported and nothing is stored.
\<close>
theorem configure_read_device_settings:
  assumes "storage m val R" and "REG32 regs (SMIO_DSR n) \<in> R"
    and "smi_regs cxt = Some regs" and "rw_config cxt = Some rw" and "wf_rw rw"
  shows "if n > 3
    then \<exists>w'. smi_configure_read_device m cxt n w = Returns (Some SMI_ERR_INVALID_DEVICE, w') \<and>
      stores (log w') = stores (log w)
    else \<exists>w' v c. smi_configure_read_device m cxt n w = Returns (None, w') \<and>
      v = val (REG32 regs (SMIO_DSR n)) (hw w') \<and> c = rconfig rw ! unat n \<and>
      bf_get DSR_rstrobe v = take_bit 7 (byte32 (rstrobe c)) \<and>
      bf_get DSR_rpace v = take_bit 7 (byte32 (rpace c)) \<and>
      bf_get DSR_rhold v = take_bit 6 (byte32 (rhold c)) \<and>
      bf_get DSR_rsetup v = take_bit 6 (byte32 (rsetup c)) \<and>
      bf_get DSR_rwidth v = take_bit 2 (byte32 (rwidth c)) \<and>
      bf_get DSR_rdreq v = bool32 (rdreq c) \<and> bf_get DSR_rpaceall v = bool32 (rpaceall c) \<and>
      bf_get DSR_fsetup v = bool32 (fsetup c) \<and> bf_get DSR_mode68 v = bool32 (mode68 c) \<and>
      (\<forall>b \<in> R - {REG32 regs (SMIO_DSR n)}. val b (hw w') = val b (hw w))"
proof (cases "n > 3")
  case True
  then show ?thesis by (simp add: smi_configure_read_device_def)
next
  case False
  let ?c = "rconfig rw ! unat n" and ?a = "REG32 regs (SMIO_DSR n)"
  let ?w = "fsets m ?a (read_settings ?c) w"
  have run: "smi_configure_read_device m cxt n w = Returns (None, ?w)"
    using False assms(3-5) by (simp add: smi_configure_read_device_def device_num_fetch not_less)
  have "bf_get f (val ?a (hw ?w)) = bf_trunc f x" if "(f, x) \<in> set (read_settings ?c)" for f x
    using storage_fsets_get [OF assms(1,2) read_settings_apart that settings_ok [OF that]] .
  moreover have "\<forall>b \<in> R - {?a}. val b (hw ?w) = val b (hw w)"
    by (auto simp: storage_fsets [OF assms(1,2)])
  ultimately show ?thesis
    using False by (intro iffD2 [OF if_not_P] exI [of _ ?w] exI [of _ "val ?a (hw ?w)"] exI [of _ ?c])
      (simp_all add: run read_settings_def bf_trunc_def)
qed

theorem configure_read_device_settings_witness:
  "\<exists>w'. smi_configure_read_device (ram0) (sample_cxt 1 False False True) 2
       (ram_world (\<lambda>_. 0xFFFFFFFF)) = Returns (None, w')
     \<and> bf_get DSR_rwidth (fst (hw w') 0x1020) = 1 \<and> bf_get DSR_rhold (fst (hw w') 0x1020) = 1"
  using configure_read_device_settings [OF ram_storage [of _ UNIV], of "sample_map 0x1000" 2
      "sample_cxt 1 False False True" "sample_rw 1 False False" "\<lambda>_. 0" "ram_world (\<lambda>_. 0xFFFFFFFF)"]
  by (auto simp: sample_read_def SMIO_DSR_def)

text \<open>
  C31: Configuring a write device up to 3 leaves every field but one of the device's write settings
  register as the configuration has it; the setup time is the format flag: \<^verbatim>\<open>wsetup\<close> is given
  \<^verbatim>\<open>wformat\<close>, so the configured setup time reaches the register only if it is that flag.
\<close>
theorem configure_write_device_settings:
  assumes "storage m val R" and "REG32 regs (SMIO_DSW n) \<in> R"
    and "smi_regs cxt = Some regs" and "rw_config cxt = Some rw" and "wf_rw rw" and "n \<le> 3"
    and "c = wconfig rw ! unat n"
  shows "\<exists>w' v. smi_configure_write_device m cxt n w = Returns (None, w') \<and>
    v = val (REG32 regs (SMIO_DSW n)) (hw w') \<and>
    bf_get DSW_wwidth v = take_bit 2 (byte32 (wwidth c)) \<and>
    bf_get DSW_whold v = take_bit 6 (byte32 (whold c)) \<and>
    bf_get DSW_wpace v = take_bit 7 (byte32 (wpace c)) \<and>
    bf_get DSW_wpaceall v = bool32 (wpaceall c) \<and>
    bf_get DSW_wstrobe v = take_bit 7 (byte32 (wstrobe c)) \<and>
    bf_get DSW_wdreq v = bool32 (wdreq c) \<and> bf_get DSW_wswap v = bool32 (wswap c) \<and>
    bf_get DSW_wformat v = bool32 (wformat c) \<and>
    bf_get DSW_wsetup v = bool32 (wformat c)"
proof -
  let ?w = "fsets m (REG32 regs (SMIO_DSW n)) (write_settings c) w"
  have run: "smi_configure_write_device m cxt n w = Returns (None, ?w)"
    using assms(3-7) by (simp add: smi_configure_write_device_def device_num_fetch not_less)
  have "bf_get f (val (REG32 regs (SMIO_DSW n)) (hw ?w)) = bf_trunc f x"
    if "(f, x) \<in> set (write_settings c)" for f x
    using storage_fsets_get [OF assms(1,2) write_settings_apart that write_settings_ok [OF that]] .
  then show ?thesis
    by (intro exI [of _ ?w] exI [of _ "val (REG32 regs (SMIO_DSW n)) (hw ?w)"])
      (simp add: run write_settings_def bf_trunc_def)
qed

theorem configure_write_device_settings_witness:
  "\<exists>w'. smi_configure_write_device (ram0) (sample_cxt 1 True False True) 0
       (ram_world (\<lambda>_. 0)) = Returns (None, w')
     \<and> bf_get DSW_wsetup (fst (hw w') 0x1014) = 1"
  using configure_write_device_settings [OF ram_storage [of _ UNIV], of "sample_map 0x1000" 0
      "sample_cxt 1 True False True" "sample_rw 1 True False" "sample_write True False" "\<lambda>_. 0"
      "ram_world (\<lambda>_. 0)"]
  by (auto simp: sample_write_def SMIO_DSR_def SMIO_DSW_def)

text \<open>
  C39: \<^verbatim>\<open>smi_sync_context_device\<close> never succeeds: it reports a write device number above 3, and with
  any other it uses the value of \<^verbatim>\<open>smi_configure_write_device\<close>, which has none.
\<close>
theorem smi_sync_context_device_undefined:
  assumes "smi_regs cxt = Some regs" and "rw_config cxt = Some rw" and "wf_rw rw"
  shows "if write_device_num rw > 3
    then \<exists>w'. smi_sync_context_device m cxt w = Returns (SMI_ERR_INVALID_DEVICE, w')
    else smi_sync_context_device m cxt w = Undefined"
  using assms by (cases "write_device_num rw > 3")
    (simp_all add: smi_sync_context_device_def smi_configure_write_device_def
      device_num_fetch not_less error_code_defs)

theorem smi_sync_context_device_undefined_witness:
  "smi_sync_context_device ram0 (sample_cxt 1 True False True) (ram_world (\<lambda>_. 0)) = Undefined"
  using smi_sync_context_device_undefined [of "sample_cxt 1 True False True" "sample_map 0x1000"
      "sample_rw 1 True False" ram0 "ram_world (\<lambda>_. 0)"] by simp

text \<open>
  C29: \<^verbatim>\<open>smi_resize_raw_buffer\<close> refuses length 0, leaves the context as it was when it fails, and on
  success records the new length, keeps the words that fit, and gives a buffer as long as recorded
  exactly if the length in bytes does not wrap around \<^verbatim>\<open>size_t\<close>.
\<close>
theorem smi_resize_raw_buffer_result:
  assumes "alloc_law m" and "smi_resize_raw_buffer m cxt len w = (r, cxt', w')"
  shows "if r = SMI_OK
    then len \<noteq> 0 \<and> rb_size (raw_buffer cxt') = len \<and>
      (\<exists>xs. rb_buf (raw_buffer cxt') = Some xs \<and>
        (let k = min (length (old_words (raw_buffer cxt))) (length xs) in
         take k xs = take k (old_words (raw_buffer cxt)))) \<and>
      (wf_raw (raw_buffer cxt') \<longleftrightarrow> unat len < 2 ^ 62)
    else cxt' = cxt \<and> r = (if len = 0 then SMI_ERR_BUF_TO_SMALL else SMI_ERR_ALLOC_FAIL)"
proof (cases "len = 0")
  case True
  then show ?thesis
    using assms(2) by (auto simp: smi_resize_raw_buffer_def error_code_defs)
next
  case False
  obtain nb w2 where re: "realloc32 m (len * 4) (old_words (raw_buffer cxt)) w = (nb, w2)"
    by fastforce
  show ?thesis
  proof (cases nb)
    case None
    then show ?thesis
      using assms(2) False re by (auto simp: smi_resize_raw_buffer_def error_code_defs)
  next
    case (Some xs)
    have law: "length xs = unat (len * 4) div 4"
        "take (min (length (old_words (raw_buffer cxt))) (length xs)) xs =
         take (min (length (old_words (raw_buffer cxt))) (length xs)) (old_words (raw_buffer cxt))"
      using alloc_lawD [OF assms(1)] re Some by blast+
    have fits: "unat (len * 4) div 4 = unat len \<longleftrightarrow> unat len < 2 ^ 62"
    proof
      assume eq: "unat (len * 4) div 4 = unat len"
      have "unat (len * 4) < 2 ^ 64" using unsigned_less [of "len * 4", where ?'a = nat] by simp
      then show "unat len < 2 ^ 62" using eq by (simp add: div_less_iff_less_mult flip: eq)
    next
      assume "unat len < 2 ^ 62"
      then have "unat (len * 4) = unat len * 4" by (simp add: unat_word_ariths)
      then show "unat (len * 4) div 4 = unat len" by simp
    qed
    have "r = SMI_OK" and "cxt' = cxt\<lparr>raw_buffer := \<lparr>rb_buf = Some xs, rb_size = len\<rparr>\<rparr>"
      using assms(2) False re Some by (auto simp: smi_resize_raw_buffer_def)
    then show ?thesis
      using False law by (simp add: wf_raw_def fits del: take_eq_Nil)
  qed
qed

theorem smi_resize_raw_buffer_result_witness:
  "\<exists>cxt' w'. smi_resize_raw_buffer ram0 (sample_cxt 0 False False True) (2 ^ 62 + 1)
     (ram_world (\<lambda>_. 0)) = (SMI_OK, cxt', w') \<and> \<not> wf_raw (raw_buffer cxt')"
proof -
  obtain r cxt' w' where run: "smi_resize_raw_buffer ram0 (sample_cxt 0 False False True) (2 ^ 62 + 1)
      (ram_world (\<lambda>_. 0)) = (r, cxt', w')" by (metis prod_cases3)
  then have "r = SMI_OK"
    by (auto simp: smi_resize_raw_buffer_def realloc32_def ram_machine_def ram_world_def)
  with run show ?thesis
    using smi_resize_raw_buffer_result [OF ram_alloc_law run] by simp
qed

text \<open>
  \<^verbatim>\<open>smi_init_rw_config\<close> is defined exactly for write devices 0 to 3, keeps the configuration
  well formed, and stores both configurations at the index of the write device: every other entry
  is as it was, the read configuration of a different read device included.
\<close>
theorem smi_init_rw_config_result:
  assumes "wf_rw rw"
  shows "smi_init_rw_config cxt rw ck rc wc rd wd =
    (if 0 \<le> wd \<and> wd \<le> 3
     then Returns (cxt\<lparr>rw_config := Some
       \<lparr>write_device_num = word_of_int wd, read_device_num = word_of_int rd, clk = ck,
        rconfig = (rconfig rw)[nat wd := rc], wconfig = (wconfig rw)[nat wd := wc]\<rparr>\<rparr>)
     else Undefined)
   \<and> (0 \<le> wd \<and> wd \<le> 3 \<and> 0 \<le> rd \<and> rd \<noteq> wd \<longrightarrow>
        (rconfig rw)[nat wd := rc] ! nat rd = rconfig rw ! nat rd)"
  using assms by (cases rw) (auto simp: smi_init_rw_config_def wf_rw_def Let_def nat_less_iff)

theorem smi_init_rw_config_result_witness:
  "smi_init_rw_config (sample_cxt 0 False False True) (sample_rw 0 False False) None
     (sample_read 3) (sample_write True True) 1 4 = Undefined"
  using smi_init_rw_config_result [of "sample_rw 0 False False" "sample_cxt 0 False False True" None
      "sample_read 3" "sample_write True True" 1 4] by simp

text \<open>
  \<^verbatim>\<open>smi_init_udmabuf\<close> either fails to open a sync file, and then leaves the context alone and no
  descriptor open; or it records the buffer and both descriptors, which stay open, and reports
  success, whatever came of setting up the buffer.
\<close>
theorem smi_init_udmabuf_handles:
  fixes m :: "'h machine"
  defines "opened w \<equiv> sys m (Open ''/sys/class/u-dma-buf/udmabuf0/sync_for_cpu'' ''O_WRONLY'') w"
    and "opened2 w \<equiv> sys m (Open ''/sys/class/u-dma-buf/udmabuf0/sync_for_device'' ''O_WRONLY'') w"
  assumes "DMA_BUFFER_SIZE \<le> length mem"
  shows "\<exists>r cxt' b mem' w'. smi_init_udmabuf m cxt buff mem w = Returns (r, cxt', b, mem', w') \<and>
    (let c = fst (opened w); d = fst (opened2 (snd (opened w))) in
     if c < 0 \<or> d < 0
     then r = SMI_ERR_FILE_IO_FAIL \<and> cxt' = cxt \<and> handles w' = handles w
     else r = SMI_OK \<and> fd_sync_cpu cxt' = c \<and> fd_sync_dev cxt' = d \<and> dma_buffer cxt' = Some b \<and>
       (handles w' = handles w + {#Fd c, Fd d#} \<and> mm_virt b = 0 \<or>
        handles w' = handles w + {#Fd c, Fd d, Seg (mm_virt b)#}))"
proof -
  let ?c = "fst (opened w)" and ?d = "fst (opened2 (snd (opened w)))"
  let ?w2 = "snd (opened2 (snd (opened w)))"
  show ?thesis
  proof (cases "?c < 0 \<or> ?d < 0")
    case True
    then show ?thesis
      by (auto simp: smi_init_udmabuf_def split_beta Let_def opened_def opened2_def)
  next
    case False
    then have h: "handles ?w2 = handles w + {#Fd ?c, Fd ?d#}"
      by (simp add: opened_def opened2_def)
    obtain r b mem' w' where init: "dma_buffer_init m buff True True mem ?w2 = Returns (r, b, mem', w')"
      and hw: "handles w' = handles ?w2 \<and> mm_virt b = 0 \<or> handles w' = add_mset (Seg (mm_virt b)) (handles ?w2)"
      using dma_buffer_init_result [OF assms(3), of m buff ?w2] by (auto split: if_splits)
    have "smi_init_udmabuf m cxt buff mem w = Returns (SMI_OK,
        cxt\<lparr>fd_sync_dev := ?d, fd_sync_cpu := ?c, dma_buffer := Some b\<rparr>, b, mem', w')"
      using False init by (simp add: smi_init_udmabuf_def split_beta Let_def opened_def opened2_def)
    with False h hw show ?thesis by (auto simp: Let_def)
  qed
qed

theorem smi_init_udmabuf_handles_witness:
  "\<exists>cxt' b mem' w'. smi_init_udmabuf
     (ram_machine (\<lambda>c. if c = Open ''/dev/udmabuf0'' ''O_RDWR'' then -1 else 5))
     (sample_cxt 0 False False True) (sample_map 0) (replicate 1024 7) (ram_world (\<lambda>_. 0))
     = Returns (SMI_OK, cxt', b, mem', w')"
proof -
  let ?m = "ram_machine (\<lambda>c. if c = Open ''/dev/udmabuf0'' ''O_RDWR'' then -1 else 5)"
  have "DMA_BUFFER_SIZE \<le> length (replicate 1024 (7 :: u8))" by (simp add: DMA_BUFFER_SIZE_def)
  from smi_init_udmabuf_handles [OF this, of ?m "sample_cxt 0 False False True" "sample_map 0"
      "ram_world (\<lambda>_. 0)"]
  show ?thesis
    by (auto simp: Let_def sys_def ram_machine_def split: if_splits)
qed

text \<open>
  If the clock generator stops and starts when asked to, \<^verbatim>\<open>init_smi_clk\<close> ends, having stored
  nothing when the divider was already right, and otherwise exactly the stop command, the divider
  and the start command, each with the password, in this order.
\<close>
theorem init_smi_clk_programs:
  fixes \<mu> \<nu> :: "'h \<Rightarrow> nat"
  defines "bsy v \<equiv> v AND push_bit 7 (1 :: u32) \<noteq> 0"
  assumes stops: "\<And>h. bsy (fst (m_ld m (REG32 regs CLK_SMI_CTL) h)) \<Longrightarrow>
      \<mu> (snd (m_ld m (REG32 regs CLK_SMI_CTL) h)) < \<mu> h"
    and starts: "\<And>h. \<not> bsy (fst (m_ld m (REG32 regs CLK_SMI_CTL) h)) \<Longrightarrow>
      \<nu> (snd (m_ld m (REG32 regs CLK_SMI_CTL) h)) < \<nu> h"
    and "\<And>h. \<mu> h < fuel" and "\<And>h. \<nu> h < fuel" and "d = push_bit 12 (word_of_int (ns sdiv 2))"
  shows "\<exists>w'. init_smi_clk m fuel regs ns w = Returns w' \<and>
    stores (log w') = stores (log w) @
      (if fst (ld32 m (REG32 regs CLK_SMI_DIV) w) = d then []
       else [(REG32 regs CLK_SMI_CTL, CLK_PASSWD OR 0x20), (REG32 regs CLK_SMI_DIV, CLK_PASSWD OR d),
             (REG32 regs CLK_SMI_CTL, CLK_PASSWD OR 0x16)])"
proof -
  have stop: "\<exists>w'. loop fuel (clk_poll m regs True) w = Returns w' \<and>
      stores (log w') = stores (log w)" for w
    by (rule clk_poll_ends [of m regs True \<mu>]) (use stops assms(4) in \<open>auto simp: bsy_def\<close>)
  have start: "\<exists>w'. loop fuel (clk_poll m regs False) w = Returns w' \<and>
      stores (log w') = stores (log w)" for w
    by (rule clk_poll_ends [of m regs False \<nu>]) (use starts assms(5) in \<open>auto simp: bsy_def\<close>)
  let ?w1 = "sleep m 0 (st32 m (REG32 regs CLK_SMI_CTL) (CLK_PASSWD OR 0x20)
    (snd (ld32 m (REG32 regs CLK_SMI_DIV) w)))"
  obtain w2 where w2: "loop fuel (clk_poll m regs True) ?w1 = Returns w2"
    and "stores (log w2) = stores (log ?w1)" using stop by blast
  let ?w3 = "sleep m 0 (st32 m (REG32 regs CLK_SMI_CTL) (CLK_PASSWD OR 0x16)
    (sleep m 0 (st32 m (REG32 regs CLK_SMI_DIV) (CLK_PASSWD OR d) (sleep m 0 w2))))"
  obtain w4 where w4: "loop fuel (clk_poll m regs False) ?w3 = Returns w4"
    and "stores (log w4) = stores (log ?w3)" using start by blast
  then show ?thesis
    using w2 w4 \<open>stores (log w2) = stores (log ?w1)\<close> assms(6)
    by (cases "fst (ld32 m (REG32 regs CLK_SMI_DIV) w) = d")
      (simp_all add: init_smi_clk_def split_beta Let_def CLK_PASSWD_def or.assoc)
qed

text \<open>A machine whose clock generator is busy in every other look at it.\<close>

definition blink_machine :: "bool machine" where
  "blink_machine =
     \<lparr>m_ld = \<lambda>a h. (if h then 0x80 else 0, \<not> h), m_st = \<lambda>a v h. h,
      m_clock = \<lambda>h. (\<lparr>tv_sec = 0, tv_nsec = 0\<rparr>, h), m_yield = \<lambda>h. h, m_sched = \<lambda>h. h,
      m_nanosleep = \<lambda>ts h. h, m_sleep = \<lambda>s h. h, m_realloc = \<lambda>n buf h. (None, h),
      m_sys = \<lambda>c h. (0, h)\<rparr>"

theorem init_smi_clk_programs_witness:
  "\<exists>w'. init_smi_clk blink_machine 2 (sample_map 0x3000) 10 \<lparr>hw = True, log = []\<rparr> = Returns w' \<and>
     stores (log w') = [(0x30b0, 0x5a000020), (0x30b4, 0x5a005000), (0x30b0, 0x5a000016)]"
proof -
  have "\<exists>w'. init_smi_clk blink_machine 2 (sample_map 0x3000) 10 \<lparr>hw = True, log = []\<rparr> = Returns w' \<and>
    stores (log w') = stores (log \<lparr>hw = True, log = []\<rparr>) @
      (if fst (ld32 blink_machine (REG32 (sample_map 0x3000) CLK_SMI_DIV) \<lparr>hw = True, log = []\<rparr>)
          = push_bit 12 (word_of_int (10 sdiv 2)) then []
       else [(REG32 (sample_map 0x3000) CLK_SMI_CTL, CLK_PASSWD OR 0x20),
             (REG32 (sample_map 0x3000) CLK_SMI_DIV, CLK_PASSWD OR push_bit 12 (word_of_int (10 sdiv 2))),
             (REG32 (sample_map 0x3000) CLK_SMI_CTL, CLK_PASSWD OR 0x16)])"
    by (rule init_smi_clk_programs [where \<mu> = "of_bool" and \<nu> = "\<lambda>h. of_bool (\<not> h)"])
      (auto simp: blink_machine_def split: if_splits)
  then show ?thesis
    by (simp add: ld32_def blink_machine_def CLK_SMI_CTL_def CLK_SMI_DIV_def CLK_PASSWD_def sdiv_pos)
qed

text \<open>
  There is no timeout: if the clock generator stays busy, \<^verbatim>\<open>init_smi_clk\<close> with a divider to
  change never returns.
\<close>
theorem init_smi_clk_hangs:
  assumes "\<And>h. fst (m_ld m (REG32 regs CLK_SMI_CTL) h) AND push_bit 7 1 \<noteq> 0"
    and "fst (ld32 m (REG32 regs CLK_SMI_DIV) w) \<noteq> push_bit 12 (word_of_int (ns sdiv 2))"
  shows "init_smi_clk m fuel regs ns w = OutOfFuel"
proof -
  have "loop fuel (clk_poll m regs True) w = OutOfFuel" for w
    by (rule loop_diverges [where I = "\<lambda>_. True"])
      (use assms(1) in \<open>auto simp: clk_poll_def ld32_def split_beta Let_def\<close>)
  then show ?thesis
    using assms(2) by (simp add: init_smi_clk_def split_beta Let_def)
qed

theorem init_smi_clk_hangs_witness:
  "init_smi_clk (blink_machine\<lparr>m_ld := \<lambda>a h. (0x80, h)\<rparr>) 1000 (sample_map 0x3000) 10
     \<lparr>hw = True, log = []\<rparr> = OutOfFuel"
  by (rule init_smi_clk_hangs) (simp_all add: ld32_def sdiv_pos)

text \<open>
  \<^verbatim>\<open>smi_dma_setup\<close> never stores to the DMA control register: the enable bit it means for it
  goes to bit 28 of the direct control register, which has no function there.
\<close>
theorem smi_dma_setup_misses_DC:
  "\<exists>k \<le> 1. store_addrs (smi_dma_setup m regs w) = store_addrs w @
     [REG32 regs SMIO_CS, REG32 regs SMIO_CS, REG32 regs SMIO_CS, REG32 regs SMIO_DCS]
     @ replicate k (REG32 regs SMIO_CS)
   \<and> REG32 regs SMIO_DC \<notin> {REG32 regs SMIO_CS, REG32 regs SMIO_DCS}"
proof -
  have other: "REG32 regs SMIO_DC \<notin> {REG32 regs SMIO_CS, REG32 regs SMIO_DCS}"
    by (simp add: REG32_def offset_defs)
  let ?w = "fset m (REG32 regs SMIO_DCS) DC_dmaen 1 (fset m (REG32 regs SMIO_CS) CS_enable 1
    (fset m (REG32 regs SMIO_CS) CS_pxldat 1 (fset m (REG32 regs SMIO_CS) CS_clear 1 w)))"
  show ?thesis
  proof (cases "fst (fget m (REG32 regs SMIO_CS) CS_seterr ?w) = 0")
    case True
    then show ?thesis
      using other by (intro exI [of _ 0]) (simp add: smi_dma_setup_def split_beta Let_def)
  next
    case False
    then show ?thesis
      using other by (intro exI [of _ 1]) (simp add: smi_dma_setup_def split_beta Let_def)
  qed
qed

lemma init_cxt_map_maps:
  assumes "alloc_law m"
    and "smi_init_cxt_map m cxt smi ck gpio dm w = (Some (r, cxt', smi', ck', gpio', dm'), w')"
  shows "handles w' = handles w +
      {#Seg (mm_virt gpio'), Seg (mm_virt dm'), Seg (mm_virt smi'), Seg (mm_virt ck')#} \<and>
    mm_bus smi' = 0x74600000 \<and>
    (if r = SMI_OK
     then \<exists>xs. length xs = 1024 \<and>
       cxt' = cxt\<lparr>raw_buffer := \<lparr>rb_buf = Some xs, rb_size = 1024\<rparr>, smi_regs := Some smi',
         clk_regs := Some ck', gpio_regs := Some gpio', dma_regs := Some dm'\<rparr>
     else r = SMI_ERR_ALLOC_FAIL \<and> cxt' = cxt\<lparr>raw_buffer := \<lparr>rb_buf = None, rb_size = 1024\<rparr>\<rparr>)"
proof -
  obtain g w1 d w2 s w3 c w4 where
    1: "map_segment m gpio GPIO_BASE PAGE_SIZE w = (Some g, w1)" and
    2: "map_segment m dm DMA_BASE (NADJ_CHANNELS * PAGE_SIZE) w1 = (Some d, w2)" and
    3: "map_segment m smi SMI_BASE PAGE_SIZE w2 = (Some s, w3)" and
    4: "map_segment m ck CLK_BASE PAGE_SIZE (smi_gpio_init m g w3) = (Some c, w4)"
    using assms(2) by (auto simp: smi_init_cxt_map_def Let_def unless_exit_Some)
  obtain buf w5 where re: "realloc32 m (1024 * 4) [] w4 = (buf, w5)" by fastforce
  have h: "handles w5 = handles w4" using re by (metis handles_simps(11) snd_conv)
  have len: "length xs = 1024" if "buf = Some xs" for xs
    using alloc_lawD(1) [OF assms(1), of "1024 * 4" "[]" w4 xs w5] re that by simp
  have bus: "SMI_BASE - PHYS_REG_BASE + BUS_REG_BASE = 0x74600000"
    by (simp add: SMI_BASE_def PHYS_REG_BASE_def BUS_REG_BASE_def)
  note maps = map_segment_handles [OF 1] map_segment_handles [OF 2]
    map_segment_handles [OF 3] map_segment_handles [OF 4]
  have run: "smi_init_cxt_map m cxt smi ck gpio dm w =
     (let s = s\<lparr>mm_bus := mm_phys s - PHYS_REG_BASE + BUS_REG_BASE\<rparr>;
          cxt = cxt\<lparr>raw_buffer := \<lparr>rb_buf = buf, rb_size = 1024\<rparr>\<rparr> in
      if buf = None then
        (Some (SMI_ERR_ALLOC_FAIL, cxt, s, c, g, d), perr ''Raw buffer allocation failed'' w5)
      else (Some (SMI_OK, cxt\<lparr>smi_regs := Some s, clk_regs := Some c, gpio_regs := Some g,
        dma_regs := Some d\<rparr>, s, c, g, d), w5))"
    by (simp only: smi_init_cxt_map_def Let_def unless_exit_def 1 2 3 4 re prod.case option.case)
  show ?thesis
  proof (cases buf)
    case None
    then show ?thesis
      using run assms(2) maps h bus by (auto simp: Let_def error_code_defs)
  next
    case (Some xs)
    then show ?thesis
      using run assms(2) maps h bus len [OF Some] by (auto simp: Let_def intro!: exI [of _ xs])
  qed
qed

text \<open>
  C28: When \<^verbatim>\<open>smi_init_cxt_map\<close> returns, the four segments it mapped are the only new handles, the
  SMI segment has its bus address, and either the result is success and the context changed in just
  the four register maps, now those segments, and a raw buffer of 1024 words; or it is an allocation
  failure and nothing of the context changed but the raw buffer, which is \<^verbatim>\<open>NULL\<close> although its
  recorded size is 1024.
\<close>
theorem smi_init_cxt_map_result:
  assumes "alloc_law m"
    and "smi_init_cxt_map m cxt smi ck gpio dm w = (Some (r, cxt', smi', ck', gpio', dm'), w')"
  shows "handles w' = handles w +
      {#Seg (mm_virt gpio'), Seg (mm_virt dm'), Seg (mm_virt smi'), Seg (mm_virt ck')#} \<and>
    mm_bus smi' = 0x74600000 \<and>
    (if r = SMI_OK
     then \<exists>xs. length xs = 1024 \<and>
       cxt' = cxt\<lparr>raw_buffer := \<lparr>rb_buf = Some xs, rb_size = 1024\<rparr>, smi_regs := Some smi',
         clk_regs := Some ck', gpio_regs := Some gpio', dma_regs := Some dm'\<rparr>
     else r = SMI_ERR_ALLOC_FAIL \<and> cxt' = cxt\<lparr>raw_buffer := \<lparr>rb_buf = None, rb_size = 1024\<rparr>\<rparr>)"
  using assms by (rule init_cxt_map_maps)

theorem smi_init_cxt_map_result_witness:
  "\<exists>cxt' s c g d w'. smi_init_cxt_map (ram_machine (\<lambda>_. 7)) (sample_cxt 0 False False True)
     (sample_map 0) (sample_map 0) (sample_map 0) (sample_map 0) (ram_world (\<lambda>_. 0))
     = (Some (SMI_OK, cxt', s, c, g, d), w') \<and> wf_raw (raw_buffer cxt') \<and> size (handles w') = 4"
proof -
  let ?m = "ram_machine (\<lambda>_. 7)"
  have seg: "\<exists>mp' w'. map_segment ?m mp a n w = (Some mp', w')" for mp a n w
    by (simp add: map_segment_def sys_def ram_machine_def Let_def)
  have alloc: "\<exists>xs w'. realloc32 ?m n buf w = (Some xs, w')" for n buf w
    by (simp add: realloc32_def ram_machine_def)
  let ?w = "ram_world (\<lambda>_. 0)" and ?mp = "sample_map 0"
  obtain g w1 where 1: "map_segment ?m ?mp GPIO_BASE PAGE_SIZE ?w = (Some g, w1)"
    using seg by blast
  obtain d w2 where 2: "map_segment ?m ?mp DMA_BASE (NADJ_CHANNELS * PAGE_SIZE) w1 = (Some d, w2)"
    using seg by blast
  obtain s w3 where 3: "map_segment ?m ?mp SMI_BASE PAGE_SIZE w2 = (Some s, w3)"
    using seg by blast
  obtain c w4 where 4: "map_segment ?m ?mp CLK_BASE PAGE_SIZE (smi_gpio_init ?m g w3) = (Some c, w4)"
    using seg by blast
  obtain xs w5 where 5: "realloc32 ?m (1024 * 4) [] w4 = (Some xs, w5)"
    using alloc by blast
  obtain cxt' s' where run: "smi_init_cxt_map ?m (sample_cxt 0 False False True) ?mp ?mp ?mp ?mp ?w
     = (Some (SMI_OK, cxt', s', c, g, d), w5)"
    by (simp only: smi_init_cxt_map_def Let_def unless_exit_def 1 2 3 4 5 prod.case option.case
        option.distinct if_False)
  show ?thesis
    using smi_init_cxt_map_result [OF ram_alloc_law run] run
    by (auto simp: ram_world_def handles_def wf_raw_def)
qed

text \<open>
  \<^verbatim>\<open>smi_unmap_cxt\<close> hands the addresses of the \<^verbatim>\<open>MEM_MAP\<close> objects, not of the segments, to
  \<^verbatim>\<open>munmap\<close>: if no segment is mapped at those, every segment stays mapped.
\<close>
theorem smi_unmap_cxt_keeps_segments:
  assumes "\<forall>a \<in> {ga, da, sa, ca}. Seg a \<notin># handles w"
  shows "handles (snd (smi_unmap_cxt m ga da sa ca cxt w)) = handles w \<and>
    rb_size (raw_buffer (fst (smi_unmap_cxt m ga da sa ca cxt w))) = 0 \<and>
    rb_buf (raw_buffer (fst (smi_unmap_cxt m ga da sa ca cxt w))) = rb_buf (raw_buffer cxt)"
proof -
  have keep: "Seg a \<notin># handles v \<Longrightarrow> handles (unmap_segment m a n v) = handles v" for a n and v :: "'a world"
    by (simp add: unmap_segment_handles diff_single_trivial)
  show ?thesis
    using assms by (simp add: smi_unmap_cxt_def Let_def keep)
qed

theorem smi_unmap_cxt_keeps_segments_witness:
  "handles (snd (smi_unmap_cxt ram0 1 2 3 4 (sample_cxt 0 False False True)
     \<lparr>hw = (\<lambda>_. 0, 0), log = [Sys (Mmap 4096 3 0x3F200000) 0x7000]\<rparr>)) = {#Seg 0x7000#}"
  using smi_unmap_cxt_keeps_segments [of 1 2 3 4
      "\<lparr>hw = (\<lambda>_. 0, 0), log = [Sys (Mmap 4096 3 0x3F200000) 0x7000]\<rparr>" ram0
      "sample_cxt 0 False False True"]
  by (simp add: handles_def)

end
