(* ===== verification/Smi_Await.thy ===== *)
theory Smi_Await
  imports Smi_Config
begin

unbundle bit_operations_syntax

text \<open>
  The await loops of \<^verbatim>\<open>smi.c\<close>, which move words between a buffer and the FIFO or the direct
  mode data register. Each loop body is a definition on the loop's variables, run by \<open>loop\<close>
  with fuel; the properties show how much fuel is always enough, from the budget of the tiered wait
  (\<open>tw\<close>), or that none is.

  A buffer pointer is an \<open>option\<close> and so is the context where the code tests it; \<open>len\<close> is
  an \<open>int\<close> as in the code, a word count that grows from zero is a \<open>nat\<close>.
\<close>

section \<open>Programmed mode\<close>

type_synonym 'h read_state = "nat \<times> nat \<times> u32 list \<times> 'h world"

definition read_await_body ::
  "'h machine \<Rightarrow> uintptr \<Rightarrow> uintptr \<Rightarrow> int \<Rightarrow> int \<Rightarrow> 'h read_state
     \<Rightarrow> ('h read_state, int \<times> u32 list \<times> 'h world) iter" where
  "read_await_body m cs d deadline len = (\<lambda>(cnt, spin, buf, w).
     if int cnt < len then
       (let (rxd, w) = fget m cs CS_rxd w in
        if rxd \<noteq> 0 then
          (let (v, w) = ld32 m d w in
           ibind (store buf cnt [v]) (\<lambda>buf. Again (cnt + 1, 0, buf, w)))
        else
          (let (expired, w) = spin_wait m deadline spin w in
           if expired then
             (let w = perr ''Read await timeout reached'' w;
                  w = fset m cs CS_clear 1 w in
              Leave (Returns (- SMI_ERR_TIMEOUT, buf, w)))
           else Again (cnt, spin + 1, buf, w)))
     else
       (let w = (if int cnt < len then perr ''Transfer complete but data lost. Slow the clock'' w else w);
            (rxd, w) = fget m cs CS_rxd w;
            w = (if rxd \<noteq> 0 then perr ''Leftover data in the RX FIFO'' w else w) in
        Leave (Returns (int cnt, buf, w))))"

definition smi_read_await ::
  "'h machine \<Rightarrow> nat \<Rightarrow> SMI_CXT \<Rightarrow> u32 list option \<Rightarrow> int \<Rightarrow> 'h world
     \<Rightarrow> (int \<times> u32 list option \<times> 'h world) outcome" where
  "smi_read_await m fuel cxt ret_data len w =
     obind (deref (smi_regs cxt)) (\<lambda>regs.
     let cs = REG32 regs SMIO_CS;
         d = REG32 regs SMIO_D in
     case ret_data of None \<Rightarrow> Returns (SMI_ERR_NULL_PTR, None, w)
     | Some buf \<Rightarrow>
         let (deadline, w) = start_timeout m PROG_READ_TIMEOUT_S w in
         obind (loop fuel (read_await_body m cs d deadline len) (0, 0, buf, w)) (\<lambda>(r, buf, w).
         Returns (r, Some buf, w)))"

text \<open>
  The inner loops of \<^verbatim>\<open>smi_write_await\<close> and \<^verbatim>\<open>smi_read_await_direct\<close> have the same shape: poll a
  flag until it is set or the wait expires. The result is whether it expired, the spin count and
  the world.
\<close>

definition poll_body ::
  "'h machine \<Rightarrow> uintptr \<Rightarrow> field \<Rightarrow> int \<Rightarrow> nat \<times> 'h world
     \<Rightarrow> (nat \<times> 'h world, bool \<times> nat \<times> 'h world) iter" where
  "poll_body m reg flag deadline = (\<lambda>(spin, w).
     let (v, w) = fget m reg flag w in
     if v \<noteq> 0 then Leave (Returns (False, spin, w))
     else
       (let (expired, w) = spin_wait m deadline spin w in
        if expired then Leave (Returns (True, spin, w)) else Again (spin + 1, w)))"

definition write_timeout :: "'h machine \<Rightarrow> uintptr \<Rightarrow> string \<Rightarrow> 'h world \<Rightarrow> int \<times> 'h world" where
  "write_timeout m cs msg w =
     (let w = perr msg w;
          w = fset m cs CS_clear 1 w;
          w = fset m cs CS_done 1 w in
      (SMI_ERR_TIMEOUT, w))"

definition write_await_body ::
  "'h machine \<Rightarrow> nat \<Rightarrow> uintptr \<Rightarrow> uintptr \<Rightarrow> u32 list \<Rightarrow> int \<Rightarrow> int \<Rightarrow> nat \<times> nat \<times> 'h world
     \<Rightarrow> (nat \<times> nat \<times> 'h world, int \<times> 'h world) iter" where
  "write_await_body m fuel cs d data deadline len = (\<lambda>(cnt, spin, w).
     let (dn, w) = fget m cs CS_done w in
     if dn \<noteq> 0 then Leave (Returns (int cnt, w))
     else
       ibind (loop fuel (poll_body m cs CS_txd deadline) (spin, w)) (\<lambda>(expired, spin, w).
       if expired then
         Leave (Returns (write_timeout m cs ''Write await timeout reached. Interface not receiving data'' w))
       else
         ibind (if int cnt < len + 1
                then obind (fetch data cnt) (\<lambda>v. Returns (cnt + 1, st32 m d v w))
                else Returns (cnt, w)) (\<lambda>(cnt, w).
         let (expired, w) = spin_wait m deadline spin w in
         if expired then
           Leave (Returns (write_timeout m cs ''Write await timeout reached. Data available but not readable'' w))
         else
           (let (aferr, w) = fget m cs CS_aferr w in
            if aferr \<noteq> 0 then
              (let w = perr ''Protected registers written to during write'' w;
                   w = fset m cs CS_aferr 1 w;
                   w = fset m cs CS_clear 1 w in
               Leave (Returns (int cnt, w)))
            else Again (cnt, spin + 1, w)))))"

definition smi_write_await ::
  "'h machine \<Rightarrow> nat \<Rightarrow> SMI_CXT option \<Rightarrow> u32 list option \<Rightarrow> int \<Rightarrow> 'h world
     \<Rightarrow> (int \<times> 'h world) outcome" where
  "smi_write_await m fuel cxt data len w =
     (case (data, cxt) of
        (Some data, Some cxt) \<Rightarrow>
          obind (deref (smi_regs cxt)) (\<lambda>regs.
          let cs = REG32 regs SMIO_CS;
              d = REG32 regs SMIO_D;
              (deadline, w) = start_timeout m PROG_WRITE_TIMEOUT_S w in
          loop fuel (write_await_body m fuel cs d data deadline len) (0, 0, w))
      | _ \<Rightarrow> Returns (SMI_ERR_NULL_PTR, w))"

section \<open>Direct mode\<close>

definition direct_timeout ::
  "'h machine \<Rightarrow> uintptr \<Rightarrow> uintptr \<Rightarrow> string \<Rightarrow> 'h world \<Rightarrow> int \<times> 'h world" where
  "direct_timeout m cs dcs msg w =
     (let w = perr msg w;
          w = fset m cs CS_clear 1 w;
          w = fset m dcs DCS_done 1 w in
      (SMI_ERR_TIMEOUT, w))"

text \<open>The address after a transfer, and its store if it moves.\<close>

definition next_addr :: "'h machine \<Rightarrow> uintptr \<Rightarrow> int \<Rightarrow> u8 \<Rightarrow> 'h world \<Rightarrow> u8 \<times> 'h world" where
  "next_addr m da increment addr w =
     (if increment > 0 then (addr + 1, fset m da DA_addr (byte32 (addr + 1)) w)
      else if increment < 0 then (addr - 1, fset m da DA_addr (byte32 (addr - 1)) w)
      else (addr, w))"

type_synonym 'h direct_state = "nat \<times> nat \<times> u8 \<times> u32 list \<times> 'h world"

definition read_direct_body ::
  "'h machine \<Rightarrow> nat \<Rightarrow> MEM_MAP \<Rightarrow> int \<Rightarrow> int \<Rightarrow> int \<Rightarrow> 'h direct_state
     \<Rightarrow> ('h direct_state, int \<times> u32 list \<times> 'h world) iter" where
  "read_direct_body m fuel regs deadline len increment = (\<lambda>(cnt, spin, addr, buf, w).
     if int cnt < len then
       (let cs = REG32 regs SMIO_CS; da = REG32 regs SMIO_DA;
            dcs = REG32 regs SMIO_DCS; dd = REG32 regs SMIO_DD;
            w = fset m dcs DCS_start 1 w in
        ibind (loop fuel (poll_body m dcs DCS_done deadline) (spin, w)) (\<lambda>(expired, spin, w).
        if expired then
          (let (r, w) = direct_timeout m cs dcs ''Direct read await timeout reached'' w in
           Leave (Returns (r, buf, w)))
        else
          (let (v, w) = ld32 m dd w in
           ibind (store buf cnt [v AND 0xFF]) (\<lambda>buf.
           let w = fset m dcs DCS_done 1 w;
               (addr, w) = next_addr m da increment addr w in
           Again (cnt + 1, spin, addr, buf, w)))))
     else Leave (Returns (int cnt, buf, w)))"

definition smi_read_await_direct ::
  "'h machine \<Rightarrow> nat \<Rightarrow> SMI_CXT option \<Rightarrow> u32 list option \<Rightarrow> u8 \<Rightarrow> int \<Rightarrow> int \<Rightarrow> 'h world
     \<Rightarrow> (int \<times> u32 list option \<times> 'h world) outcome" where
  "smi_read_await_direct m fuel cxt ret_data addr len increment w =
     (case (ret_data, cxt) of
        (Some buf, Some cxt) \<Rightarrow>
          obind (deref (smi_regs cxt)) (\<lambda>regs.
          let w = fset m (REG32 regs SMIO_DCS) DCS_write 0 w;
              w = fset m (REG32 regs SMIO_DA) DA_addr (byte32 addr) w;
              (deadline, w) = start_timeout m DIRECT_READ_TIMEOUT_S w in
          obind (loop fuel (read_direct_body m fuel regs deadline len increment) (0, 0, addr, buf, w))
            (\<lambda>(r, buf, w). Returns (r, Some buf, w)))
      | _ \<Rightarrow> Returns (- 1, ret_data, w))"

text \<open>The wait of \<^verbatim>\<open>smi_write_await_direct\<close>: the spin count does not grow while it polls.\<close>

definition write_done_body ::
  "'h machine \<Rightarrow> uintptr \<Rightarrow> int \<Rightarrow> nat \<Rightarrow> 'h world \<Rightarrow> ('h world, bool \<times> 'h world) iter" where
  "write_done_body m dcs deadline spin w =
     (let (dn, w) = fget m dcs DCS_done w in
      if dn \<noteq> 0 then Leave (Returns (False, w))
      else
        (let (expired, w) = spin_wait m deadline spin w in
         if expired then Leave (Returns (True, w)) else Again w))"

definition write_direct_body ::
  "'h machine \<Rightarrow> nat \<Rightarrow> MEM_MAP \<Rightarrow> u32 list \<Rightarrow> int \<Rightarrow> int \<Rightarrow> int \<Rightarrow> nat \<times> nat \<times> u8 \<times> 'h world
     \<Rightarrow> (nat \<times> nat \<times> u8 \<times> 'h world, int \<times> 'h world) iter" where
  "write_direct_body m fuel regs data deadline len increment = (\<lambda>(cnt, spin, addr, w).
     if int cnt < len then
       (let cs = REG32 regs SMIO_CS; da = REG32 regs SMIO_DA;
            dcs = REG32 regs SMIO_DCS; dd = REG32 regs SMIO_DD in
        ibind (fetch data cnt) (\<lambda>v.
        let w = st32 m dd v w;
            w = fset m dcs DCS_start 1 w in
        ibind (loop fuel (write_done_body m dcs deadline spin) w) (\<lambda>(expired, w).
        if expired then
          Leave (Returns (direct_timeout m cs dcs ''Direct write await timeout reached'' w))
        else
          (let (addr, w) = next_addr m da increment addr w in
           Again (cnt + 1, spin + 1, addr, w)))))
     else Leave (Returns (int cnt, w)))"

definition smi_write_await_direct ::
  "'h machine \<Rightarrow> nat \<Rightarrow> SMI_CXT option \<Rightarrow> u32 list option \<Rightarrow> u8 \<Rightarrow> int \<Rightarrow> int \<Rightarrow> 'h world
     \<Rightarrow> (int \<times> 'h world) outcome" where
  "smi_write_await_direct m fuel cxt data addr len increment w =
     (case (data, cxt) of
        (Some data, Some cxt) \<Rightarrow>
          obind (deref (smi_regs cxt)) (\<lambda>regs.
          let (deadline, w) = start_timeout m PROG_WRITE_TIMEOUT_S w;
              w = fset m (REG32 regs SMIO_DCS) DCS_write 1 w in
          loop fuel (write_direct_body m fuel regs data deadline len increment) (0, 0, addr, w))
      | _ \<Rightarrow> Returns (SMI_ERR_NULL_PTR, w))"

section \<open>Registers apart\<close>

lemma regs_apart [simp]:
  "REG32 regs SMIO_D \<noteq> REG32 regs SMIO_CS" "REG32 regs SMIO_CS \<noteq> REG32 regs SMIO_D"
  "REG32 regs SMIO_DD \<noteq> REG32 regs SMIO_CS" "REG32 regs SMIO_DD \<noteq> REG32 regs SMIO_DCS"
  "REG32 regs SMIO_DD \<noteq> REG32 regs SMIO_DA" "REG32 regs SMIO_DCS \<noteq> REG32 regs SMIO_DD"
  "REG32 regs SMIO_CS \<noteq> REG32 regs SMIO_DD" "REG32 regs SMIO_DA \<noteq> REG32 regs SMIO_DD"
  by (simp_all add: REG32_def offset_defs)

section \<open>Reading from the FIFO\<close>

definition read_inv ::
  "uintptr \<Rightarrow> u32 list \<Rightarrow> 'h world \<Rightarrow> int \<Rightarrow> 'h read_state \<Rightarrow> bool" where
  "read_inv d buf0 w0 len = (\<lambda>(cnt, spin, buf, w).
     cnt \<le> nat len \<and> stores (log w) = stores (log w0) \<and>
     (\<exists>xs. length xs = cnt \<and> loads_from d (log w) = loads_from d (log w0) @ xs \<and>
        buf = overlay buf0 0 xs))"

definition read_done ::
  "('h \<Rightarrow> int) \<Rightarrow> int \<Rightarrow> uintptr \<Rightarrow> uintptr \<Rightarrow> u32 list \<Rightarrow> 'h world \<Rightarrow> int \<Rightarrow> (int \<times> u32 list \<times> 'h world) outcome \<Rightarrow> bool" where
  "read_done now deadline cs d buf0 w0 len res \<longleftrightarrow>
     (\<exists>r buf w xs. res = Returns (r, buf, w) \<and> buf = overlay buf0 0 xs \<and>
        loads_from d (log w) = loads_from d (log w0) @ xs \<and>
        (if length xs = nat len then r = int (nat len) \<and> stores (log w) = stores (log w0)
         else length xs < nat len \<and> r = - SMI_ERR_TIMEOUT \<and> only_set cs CS_clear 1 w0 w \<and>
           deadline \<le> now (hw w)))"

lemma read_await_loop:
  assumes law: "clock_law m now" and "cs \<noteq> d" and fits: "nat len \<le> length buf0"
    and fuel: "nat len * Suc SPIN_SOFT_LIMIT + spin_budget deadline 0 (now (hw w0)) < fuel"
  shows "read_done now deadline cs d buf0 w0 len (loop fuel (read_await_body m cs d deadline len) (0, 0, buf0, w0))"
proof (rule loop_total [where I = "read_inv d buf0 w0 len" and
      M = "\<lambda>(cnt, spin, buf, w). (nat len - cnt) * Suc SPIN_SOFT_LIMIT
             + spin_budget deadline spin (now (hw w))"])
  show "read_inv d buf0 w0 len s' \<and>
      (case s' of (cnt, spin, buf, w) \<Rightarrow> (nat len - cnt) * Suc SPIN_SOFT_LIMIT
             + spin_budget deadline spin (now (hw w))) <
      (case s of (cnt, spin, buf, w) \<Rightarrow> (nat len - cnt) * Suc SPIN_SOFT_LIMIT
             + spin_budget deadline spin (now (hw w)))"
    if inv: "read_inv d buf0 w0 len s" and "read_await_body m cs d deadline len s = Again s'" for s s'
  proof -
    obtain cnt spin buf w where s: "s = (cnt, spin, buf, w)" by (metis prod_cases4)
    obtain xs where xs: "length xs = cnt" "loads_from d (log w) = loads_from d (log w0) @ xs"
      "buf = overlay buf0 0 xs" "stores (log w) = stores (log w0)" using inv by (auto simp: s read_inv_def)
    define w1 where "w1 = snd (fget m cs CS_rxd w)"
    define w2 where "w2 = snd (ld32 m d w1)"
    have later: "now (hw w) \<le> now (hw w1)" "now (hw w1) \<le> now (hw w2)"
      unfolding w1_def w2_def by (rule clock_law_fields [OF law] clock_law_simps [OF law])+
    have more: "int cnt < len" using that(2) by (auto simp: s read_await_body_def split_beta Let_def split: if_splits)
    then have room: "cnt < length buf0" using fits by linarith
    have st: "store buf cnt [v] = Returns (overlay buf0 0 (xs @ [v]))" for v
      using xs room overlay_overlay [of 0 xs "[v]" buf0] by (simp add: store_def)
    show ?thesis
    proof (cases "fst (fget m cs CS_rxd w) = 0")
      case False
      then have s': "s' = (Suc cnt, 0, overlay buf0 0 (xs @ [fst (ld32 m d w1)]), w2)"
        using that(2) more st by (auto simp: s read_await_body_def split_beta Let_def w1_def w2_def)
      have "now (hw w) \<le> now (hw w2)" using later by linarith
      then show ?thesis
        using more work_cost [of "nat len - Suc cnt" "nat len - cnt" "now (hw w)" "now (hw w2)" deadline spin] xs assms(2)
        by (auto simp: s s' read_inv_def w1_def w2_def simp del: mult_Suc_right)
    next
      case True
      then have "\<not> fst (spin_wait m deadline spin w1)" and s': "s' = (cnt, Suc spin, buf, snd (spin_wait m deadline spin w1))"
        using that(2) more by (auto simp: s read_await_body_def split_beta Let_def w1_def split: if_splits)
      then show ?thesis
        using more wait_cost [OF law, of deadline spin w1 "now (hw w)" "nat len - cnt"] later xs assms(2)
        by (auto simp: s s' read_inv_def w1_def simp del: mult_Suc_right)
    qed
  qed
  show "read_done now deadline cs d buf0 w0 len r" if inv: "read_inv d buf0 w0 len s" and "read_await_body m cs d deadline len s = Leave r" for s r
  proof -
    obtain cnt spin buf w where s: "s = (cnt, spin, buf, w)" by (metis prod_cases4)
    obtain xs where xs: "length xs = cnt" "loads_from d (log w) = loads_from d (log w0) @ xs"
      "buf = overlay buf0 0 xs" "stores (log w) = stores (log w0)" "cnt \<le> nat len" using inv by (auto simp: s read_inv_def)
    have st: "store buf cnt [v] = Returns (overlay buf0 0 (xs @ [v]))" if "int cnt < len" for v
      using xs fits that overlay_overlay [of 0 xs "[v]" buf0] by (simp add: store_def)
    have late: "deadline \<le> now (hw (fset m cs f x (perr e (snd (spin_wait m deadline spin v)))))"
      if "fst (spin_wait m deadline spin v)" for f x e v
      using spin_wait_expired [OF law that]
        clock_law_fields(2) [OF law, of "perr e (snd (spin_wait m deadline spin v))" cs f x]
      by (simp add: clock_law_simps [OF law])
    show ?thesis
      using that(2) xs assms(2) st late
      by (auto simp: s read_await_body_def read_done_def split_beta Let_def only_set_fset split: if_splits
          simp del: One_nat_def intro!: exI [of _ xs])
  qed
qed (use fuel in \<open>auto simp: read_inv_def\<close>)
section \<open>Polling a flag\<close>

text \<open>A poll ends, stores nothing, and never adds to the budget that is left.\<close>

definition quiet :: "'h world \<Rightarrow> 'h world \<Rightarrow> uintptr \<Rightarrow> bool" where
  "quiet w w' reg \<longleftrightarrow> stores (log w') = stores (log w) \<and>
     (\<forall>b. b \<noteq> reg \<longrightarrow> loads_from b (log w') = loads_from b (log w))"

lemma poll_loop:
  assumes law: "clock_law m now" and fuel: "spin_budget dl spin (now (hw w0)) < fuel"
  shows "\<exists>e spin' w'. loop fuel (poll_body m reg flag dl) (spin, w0) = Returns (e, spin', w') \<and>
    quiet w0 w' reg \<and> now (hw w0) \<le> now (hw w') \<and> (e \<longrightarrow> dl \<le> now (hw w')) \<and>
    spin_budget dl spin' (now (hw w')) \<le> spin_budget dl spin (now (hw w0))"
proof (rule loop_total [where
      I = "\<lambda>(k, w). quiet w0 w reg \<and> now (hw w0) \<le> now (hw w) \<and>
        spin_budget dl k (now (hw w)) \<le> spin_budget dl spin (now (hw w0))" and
      M = "\<lambda>(k, w). spin_budget dl k (now (hw w))"], goal_cases)
  case (1 s s')
  obtain k w where s: "s = (k, w)" by fastforce
  define w1 where "w1 = snd (fget m reg flag w)"
  have later: "now (hw w) \<le> now (hw w1)" "now (hw w1) \<le> now (hw (snd (spin_wait m dl k w1)))"
    unfolding w1_def by (rule clock_law_fields [OF law] spin_wait_now [OF law])+
  from 1 have "\<not> fst (spin_wait m dl k w1)" and s': "s' = (Suc k, snd (spin_wait m dl k w1))"
    by (auto simp: s poll_body_def split_beta Let_def w1_def split: if_splits)
  then show ?case
    using 1(1) later wait_cost [OF law, of dl k w1 "now (hw w)" 0]
    by (auto simp: s s' quiet_def w1_def)
next
  case (2 s r)
  obtain k w where s: "s = (k, w)" by fastforce
  define w1 where "w1 = snd (fget m reg flag w)"
  define w2 where "w2 = snd (spin_wait m dl k w1)"
  have later: "now (hw w) \<le> now (hw w1)" "now (hw w1) \<le> now (hw w2)"
    unfolding w1_def w2_def by (rule clock_law_fields [OF law] spin_wait_now [OF law])+
  then have left: "spin_budget dl k (now (hw w1)) \<le> spin_budget dl k (now (hw w))"
      "spin_budget dl k (now (hw w2)) \<le> spin_budget dl k (now (hw w))"
    using tw.left_later order_trans by blast+
  from 2 have "r = Returns (False, k, w1) \<or> r = Returns (True, k, w2) \<and> dl \<le> now (hw w2)"
    using spin_wait_expired [OF law]
    by (auto simp: s poll_body_def split_beta Let_def w1_def w2_def split: if_splits)
  then show ?case
    using 2(1) later left by (auto simp: s quiet_def w1_def w2_def)
qed (use fuel in \<open>auto simp: quiet_def\<close>)

section \<open>Writing to the FIFO\<close>

definition stores_to :: "uintptr \<Rightarrow> 'h world \<Rightarrow> u32 list" where
  "stores_to a w = map snd (filter (\<lambda>(b, _). b = a) (stores (log w)))"

lemma stores_to_simps [simp]:
  "stores_to b (snd (ld32 m a w)) = stores_to b w"
  "stores_to b (st32 m a v w) = stores_to b w @ (if b = a then [v] else [])"
  "stores_to b (snd (fget m a f w)) = stores_to b w"
  "b \<noteq> a \<Longrightarrow> stores_to b (fset m a f x w) = stores_to b w"
  "stores_to b (perr e w) = stores_to b w"
  "stores_to b (snd (spin_wait m d k w)) = stores_to b w"
  "stores_to b (snd (clock_gettime m w)) = stores_to b w"
  by (simp_all add: stores_to_def)

lemma quiet_stores_to: "quiet w w' reg \<Longrightarrow> stores_to b w' = stores_to b w"
  by (simp add: quiet_def stores_to_def)

definition sent :: "uintptr \<Rightarrow> uintptr \<Rightarrow> 'h world \<Rightarrow> u32 list \<Rightarrow> 'h world \<Rightarrow> bool" where
  "sent cs d w0 xs w \<longleftrightarrow> stores_to d w = stores_to d w0 @ xs \<and>
     (\<forall>b. b \<noteq> d \<longrightarrow> b \<noteq> cs \<longrightarrow> stores_to b w = stores_to b w0)"

definition write_done ::
  "('h \<Rightarrow> int) \<Rightarrow> int \<Rightarrow> uintptr \<Rightarrow> uintptr \<Rightarrow> u32 list \<Rightarrow> 'h world \<Rightarrow> int \<Rightarrow> (int \<times> 'h world) outcome \<Rightarrow> bool" where
  "write_done now dl cs d data w0 len res \<longleftrightarrow>
     (\<exists>r w n. res = Returns (r, w) \<and> n \<le> nat (len + 1) \<and> sent cs d w0 (take n data) w \<and>
        (r = int n \<or> r = SMI_ERR_TIMEOUT \<and> dl \<le> now (hw w)))"

lemma write_timeout_result:
  assumes "clock_law m now" and "cs \<noteq> d" and "sent cs d w0 xs w"
  shows "fst (write_timeout m cs msg w) = SMI_ERR_TIMEOUT"
    and "sent cs d w0 xs (snd (write_timeout m cs msg w))"
    and "now (hw w) \<le> now (hw (snd (write_timeout m cs msg w)))"
proof -
  show "fst (write_timeout m cs msg w) = SMI_ERR_TIMEOUT" by (simp add: write_timeout_def Let_def)
  show "sent cs d w0 xs (snd (write_timeout m cs msg w))"
    using assms(2,3) by (auto simp: write_timeout_def Let_def sent_def)
  have "now (hw w) \<le> now (hw (fset m cs f x (perr e w)))" for f x e
    using clock_law_fields(2) [OF assms(1), of "perr e w"] by (simp add: clock_law_simps [OF assms(1)])
  then show "now (hw w) \<le> now (hw (snd (write_timeout m cs msg w)))"
    unfolding write_timeout_def Let_def snd_conv
    by (rule order_trans) (rule clock_law_fields(2) [OF assms(1)])
qed

lemma write_await_loop:
  assumes law: "clock_law m now" and apart: "cs \<noteq> d" "d \<noteq> cs" and fits: "nat (len + 1) \<le> length data"
    and fuel: "spin_budget dl 0 (now (hw w0)) < fuel"
  shows "write_done now dl cs d data w0 len (loop fuel (write_await_body m fuel cs d data dl len) (0, 0, w0))"
proof (rule loop_total [where
      I = "\<lambda>(n, k, w). n \<le> nat (len + 1) \<and> sent cs d w0 (take n data) w \<and>
        spin_budget dl k (now (hw w)) \<le> spin_budget dl 0 (now (hw w0))" and
      M = "\<lambda>(n, k, w). spin_budget dl k (now (hw w))"], goal_cases)
  case (1 s s')
  obtain n k w where s: "s = (n, k, w)" by (metis prod_cases3)
  define w1 where "w1 = snd (fget m cs CS_done w)"
  have w1: "now (hw w) \<le> now (hw w1)"
    unfolding w1_def by (rule clock_law_fields [OF law])
  then have b1: "spin_budget dl k (now (hw w1)) \<le> spin_budget dl k (now (hw w))"
    by (rule tw.left_later)
  then have "spin_budget dl k (now (hw w1)) < fuel" using 1(1) fuel by (simp add: s)
  from poll_loop [OF law this, of cs CS_txd] obtain e k2 w2 where
    poll: "loop fuel (poll_body m cs CS_txd dl) (k, w1) = Returns (e, k2, w2)" "quiet w1 w2 cs"
      "spin_budget dl k2 (now (hw w2)) \<le> spin_budget dl k (now (hw w1))" by blast
  define w3 where "w3 = (if int n < len + 1 then st32 m d (data ! n) w2 else w2)"
  define n' where "n' = (if int n < len + 1 then Suc n else n)"
  have w3: "now (hw w2) \<le> now (hw w3)"
    by (simp add: w3_def clock_law_simps [OF law])
  define w4 where "w4 = snd (spin_wait m dl k2 w3)"
  define w5 where "w5 = snd (fget m cs CS_aferr w4)"
  have w5: "now (hw w4) \<le> now (hw w5)"
    unfolding w5_def by (rule clock_law_fields [OF law])
  have out: "\<not> fst (spin_wait m dl k2 w3)" and s': "s' = (n', Suc k2, w5)"
    using 1(2) fits by (auto simp: s write_await_body_def split_beta Let_def w1_def [symmetric] poll
        w3_def w4_def w5_def n'_def fetch_def split: if_splits simp del: One_nat_def)
  have "spin_budget dl (Suc k2) (now (hw w4)) < spin_budget dl k2 (now (hw w2))"
    using wait_cost [OF law out w3, of 0] by (simp add: w4_def)
  moreover have "spin_budget dl (Suc k2) (now (hw w5)) \<le> spin_budget dl (Suc k2) (now (hw w4))"
    using w5 by (rule tw.left_later)
  moreover have "sent cs d w0 (take n' data) w5"
    using 1(1) fits quiet_stores_to [OF poll(2)]
    by (auto simp: s w5_def w4_def w3_def n'_def w1_def apart take_Suc_conv_app_nth sent_def)
  ultimately show ?case
    using 1(1) b1 poll(3) by (auto simp: s s' n'_def)
next
  case (2 s r)
  obtain n k w where s: "s = (n, k, w)" by (metis prod_cases3)
  define w1 where "w1 = snd (fget m cs CS_done w)"
  have w1: "now (hw w) \<le> now (hw w1)"
    unfolding w1_def by (rule clock_law_fields [OF law])
  then have b1: "spin_budget dl k (now (hw w1)) \<le> spin_budget dl k (now (hw w))"
    by (rule tw.left_later)
  then have "spin_budget dl k (now (hw w1)) < fuel" using 2(1) fuel by (simp add: s)
  from poll_loop [OF law this, of cs CS_txd] obtain e k2 w2 where
    poll: "loop fuel (poll_body m cs CS_txd dl) (k, w1) = Returns (e, k2, w2)" "quiet w1 w2 cs"
      "e \<longrightarrow> dl \<le> now (hw w2)" by blast
  define w3 where "w3 = (if int n < len + 1 then st32 m d (data ! n) w2 else w2)"
  define n' where "n' = (if int n < len + 1 then Suc n else n)"
  define w4 where "w4 = snd (spin_wait m dl k2 w3)"
  define w5 where "w5 = fset m cs CS_clear 1 (fset m cs CS_aferr 1 (perr ''Protected registers written to during write''
    (snd (fget m cs CS_aferr w4))))"
  have sent: "sent cs d w0 (take n data) w1" "sent cs d w0 (take n data) w2"
      "sent cs d w0 (take n' data) w4" "sent cs d w0 (take n' data) w5" "n' \<le> nat (len + 1)"
    using 2(1) fits quiet_stores_to [OF poll(2)] apart
    by (auto simp: s w3_def w4_def w5_def n'_def w1_def take_Suc_conv_app_nth sent_def)
  have out: "fst (spin_wait m dl k2 w3) \<Longrightarrow> dl \<le> now (hw w4)"
    unfolding w4_def by (rule spin_wait_expired [OF law])
  note late = write_timeout_result [OF law apart(1)]
  have "r = Returns (int n, w1) \<or>
      (\<exists>msg. e \<and> r = Returns (write_timeout m cs msg w2)) \<or>
      (\<exists>msg. fst (spin_wait m dl k2 w3) \<and> r = Returns (write_timeout m cs msg w4)) \<or>
      r = Returns (int n', w5)"
    using 2(2) fits
    by (auto simp: s write_await_body_def split_beta Let_def w1_def [symmetric] poll(1)
        w3_def w4_def w5_def n'_def fetch_def split: if_splits simp del: One_nat_def)
  then show ?case
  proof (elim disjE exE conjE)
    fix msg assume "e" "r = Returns (write_timeout m cs msg w2)"
    with late [OF sent(2), of msg] poll(3) 2(1) show ?thesis
      unfolding write_done_def by (cases "write_timeout m cs msg w2") (fastforce simp: s)
  next
    fix msg assume "fst (spin_wait m dl k2 w3)" "r = Returns (write_timeout m cs msg w4)"
    with late [OF sent(3), of msg] out sent(5) show ?thesis
      unfolding write_done_def by (cases "write_timeout m cs msg w4") fastforce
  qed (use 2(1) sent in \<open>auto simp: write_done_def s\<close>)
qed (use fuel in \<open>auto simp: sent_def\<close>)

section \<open>Direct transfers\<close>

definition addr_after :: "int \<Rightarrow> u8 \<Rightarrow> nat \<Rightarrow> u8" where
  "addr_after inc a n = (if inc > 0 then a + of_nat n else if inc < 0 then a - of_nat n else a)"

text \<open>What the address field is given while \<open>n\<close> words pass.\<close>

definition addr_walk :: "int \<Rightarrow> u8 \<Rightarrow> nat \<Rightarrow> u32 list" where
  "addr_walk inc a n =
     (if inc = 0 then [] else map (\<lambda>i. take_bit 6 (byte32 (addr_after inc a (Suc i)))) [0..<n])"

definition addr_fields :: "uintptr \<Rightarrow> 'h world \<Rightarrow> u32 list" where
  "addr_fields da w = map (bf_get DA_addr) (stores_to da w)"

lemma stores_to_fset_same: "stores_to a (fset m a f x w) = stores_to a w @ [bf_set f x (fst (ld32 m a w))]"
  by (simp add: stores_to_def)

lemma addr_fields_simps:
  "addr_fields a (fset m a DA_addr x w) = addr_fields a w @ [take_bit 6 x]"
  "a \<noteq> b \<Longrightarrow> addr_fields a (fset m b f x w) = addr_fields a w"
  "a \<noteq> b \<Longrightarrow> addr_fields a (st32 m b x w) = addr_fields a w"
  "addr_fields a (snd (ld32 m b w)) = addr_fields a w"
  "addr_fields a (perr e w) = addr_fields a w"
  by (simp_all add: addr_fields_def stores_to_fset_same bf_get_set fld_ok_def bf_trunc_def)

lemma next_addr_result:
  assumes "dd \<noteq> da" and "clock_law m now"
  shows "\<exists>w'. next_addr m da inc (addr_after inc a n) w = (addr_after inc a (Suc n), w') \<and>
    addr_fields da w' @ addr_walk inc a 0 = addr_fields da w @ drop n (addr_walk inc a (Suc n)) \<and>
    loads_from dd (log w') = loads_from dd (log w) \<and> stores_to dd w' = stores_to dd w \<and>
    now (hw w) \<le> now (hw w')"
  using assms clock_law_fields(2) [OF assms(2)]
  by (auto simp: next_addr_def addr_after_def addr_walk_def addr_fields_simps algebra_simps)

lemma addr_walk_Suc: "addr_walk inc a n @ drop n (addr_walk inc a (Suc n)) = addr_walk inc a (Suc n)"
  by (simp add: addr_walk_def)

definition read_direct_inv ::
  "('h \<Rightarrow> int) \<Rightarrow> int \<Rightarrow> MEM_MAP \<Rightarrow> u32 list \<Rightarrow> u8 \<Rightarrow> int \<Rightarrow> int \<Rightarrow> 'h world \<Rightarrow> 'h direct_state \<Rightarrow> bool" where
  "read_direct_inv now dl regs buf0 a inc len w0 = (\<lambda>(n, k, addr, buf, w).
     n \<le> nat len \<and> addr = addr_after inc a n \<and>
     addr_fields (REG32 regs SMIO_DA) w = addr_fields (REG32 regs SMIO_DA) w0 @ addr_walk inc a n \<and>
     spin_budget dl k (now (hw w)) \<le> spin_budget dl 0 (now (hw w0)) \<and>
     (\<exists>xs. length xs = n \<and>
        loads_from (REG32 regs SMIO_DD) (log w) = loads_from (REG32 regs SMIO_DD) (log w0) @ xs \<and>
        buf = overlay buf0 0 (map (\<lambda>v. v AND 0xFF) xs)))"

definition read_direct_done ::
  "('h \<Rightarrow> int) \<Rightarrow> int \<Rightarrow> MEM_MAP \<Rightarrow> u32 list \<Rightarrow> u8 \<Rightarrow> int \<Rightarrow> int \<Rightarrow> 'h world \<Rightarrow> (int \<times> u32 list \<times> 'h world) outcome \<Rightarrow> bool" where
  "read_direct_done now dl regs buf0 a inc len w0 res \<longleftrightarrow>
     (\<exists>r buf w xs. res = Returns (r, buf, w) \<and> buf = overlay buf0 0 (map (\<lambda>v. v AND 0xFF) xs) \<and>
        loads_from (REG32 regs SMIO_DD) (log w) = loads_from (REG32 regs SMIO_DD) (log w0) @ xs \<and>
        addr_fields (REG32 regs SMIO_DA) w
          = addr_fields (REG32 regs SMIO_DA) w0 @ addr_walk inc a (length xs) \<and>
        (if length xs = nat len then r = int (nat len)
         else length xs < nat len \<and> r = SMI_ERR_TIMEOUT \<and> dl \<le> now (hw w)))"

lemma regs_apart_da [simp]:
  "REG32 regs SMIO_DA \<noteq> REG32 regs SMIO_DCS" "REG32 regs SMIO_DA \<noteq> REG32 regs SMIO_CS"
  "REG32 regs SMIO_DCS \<noteq> REG32 regs SMIO_DA"
  by (simp_all add: REG32_def offset_defs)

lemma direct_timeout_result:
  assumes "clock_law m now"
  shows "now (hw w) \<le> now (hw (snd (direct_timeout m cs dcs msg w)))"
proof -
  have "now (hw w) \<le> now (hw (fset m cs f x (perr e w)))" for f x e
    using clock_law_fields(2) [OF assms, of "perr e w"] by (simp add: clock_law_simps [OF assms])
  then show ?thesis
    unfolding direct_timeout_def Let_def snd_conv
    by (rule order_trans) (rule clock_law_fields(2) [OF assms])
qed

lemma read_direct_iteration:
  assumes law: "clock_law m now" and fits: "nat len \<le> length buf0"
    and fuel: "spin_budget dl 0 (now (hw w0)) < fuel"
    and inv: "read_direct_inv now dl regs buf0 a inc len w0 s"
  shows "case read_direct_body m fuel regs dl len inc s of
      Again s' \<Rightarrow> read_direct_inv now dl regs buf0 a inc len w0 s' \<and> nat len - fst s' < nat len - fst s
    | Leave r \<Rightarrow> read_direct_done now dl regs buf0 a inc len w0 r"
proof -
  obtain n k addr buf w where s: "s = (n, k, addr, buf, w)" by (metis prod_cases5)
  from inv obtain xs where st: "n \<le> nat len" "addr = addr_after inc a n" "length xs = n"
      "addr_fields (REG32 regs SMIO_DA) w = addr_fields (REG32 regs SMIO_DA) w0 @ addr_walk inc a n"
      "spin_budget dl k (now (hw w)) \<le> spin_budget dl 0 (now (hw w0))"
      "loads_from (REG32 regs SMIO_DD) (log w) = loads_from (REG32 regs SMIO_DD) (log w0) @ xs"
      "buf = overlay buf0 0 (map (\<lambda>v. v AND 0xFF) xs)"
    by (auto simp: read_direct_inv_def s)
  let ?dcs = "REG32 regs SMIO_DCS" and ?dd = "REG32 regs SMIO_DD" and ?da = "REG32 regs SMIO_DA"
  show ?thesis
  proof (cases "int n < len")
    case False
    with st show ?thesis by (auto simp: s read_direct_body_def read_direct_done_def)
  next
    case True
    then have lt: "n < nat len" by linarith
    define w1 where "w1 = fset m ?dcs DCS_start 1 w"
    have "now (hw w) \<le> now (hw w1)" unfolding w1_def by (rule clock_law_fields [OF law])
    then have b1: "spin_budget dl k (now (hw w1)) \<le> spin_budget dl k (now (hw w))"
      by (rule tw.left_later)
    then have "spin_budget dl k (now (hw w1)) < fuel" using fuel st(5) by simp
    from poll_loop [OF law this, of ?dcs DCS_done] obtain e k2 w2 where
      poll: "loop fuel (poll_body m ?dcs DCS_done dl) (k, w1) = Returns (e, k2, w2)"
      and q: "quiet w1 w2 ?dcs" and late: "e \<longrightarrow> dl \<le> now (hw w2)" and b2: "spin_budget dl k2 (now (hw w2)) \<le> spin_budget dl k (now (hw w1))"
      by blast
    have w2: "loads_from ?dd (log w2) = loads_from ?dd (log w)"
        "addr_fields ?da w2 = addr_fields ?da w"
      using q by (simp_all add: quiet_def w1_def addr_fields_def stores_to_def)
    show ?thesis
    proof (cases e)
      case True
      have "dl \<le> now (hw (snd (direct_timeout m (REG32 regs SMIO_CS) ?dcs msg w2)))" for msg
        using late True direct_timeout_result [OF law, of w2 "REG32 regs SMIO_CS" ?dcs msg] by simp
      with True \<open>int n < len\<close> lt st poll w2 show ?thesis
        by (auto simp: s read_direct_body_def Let_def direct_timeout_def read_direct_done_def
            addr_fields_simps simp del: One_nat_def simp flip: w1_def intro!: exI [of _ xs])
    next
      case False
      define v where "v = fst (ld32 m ?dd w2)"
      define w3 where "w3 = fset m ?dcs DCS_done 1 (snd (ld32 m ?dd w2))"
      have w3: "now (hw w2) \<le> now (hw w3)"
        unfolding w3_def using clock_law_simps(3) [OF law] clock_law_fields(2) [OF law] order_trans by blast
      have "?dd \<noteq> ?da" by simp
      from next_addr_result [OF this law, of inc a n w3] obtain w4 where
        moved: "next_addr m ?da inc (addr_after inc a n) w3 = (addr_after inc a (Suc n), w4)"
        and w4: "addr_fields ?da w4 @ addr_walk inc a 0 = addr_fields ?da w3 @ drop n (addr_walk inc a (Suc n))"
          "loads_from ?dd (log w4) = loads_from ?dd (log w3)" "now (hw w3) \<le> now (hw w4)"
        by blast
      have sto: "store buf n [v AND 0xFF] = Returns (overlay buf0 0 (map (\<lambda>v. v AND 0xFF) (xs @ [v])))"
        using st \<open>int n < len\<close> fits overlay_overlay [of 0 "map (\<lambda>v. v AND 0xFF) xs" "[v AND 0xFF]" buf0]
        by (simp add: store_def)
      have body: "read_direct_body m fuel regs dl len inc s =
          Again (Suc n, k2, addr_after inc a (Suc n), overlay buf0 0 (map (\<lambda>v. v AND 0xFF) (xs @ [v])), w4)"
        using \<open>int n < len\<close> False st(2) poll sto moved
        by (simp add: s read_direct_body_def Let_def split_beta del: One_nat_def map_append flip: w1_def v_def w3_def)
      have "now (hw w2) \<le> now (hw w4)" using w3 w4(3) by linarith
      then have "spin_budget dl k2 (now (hw w4)) \<le> spin_budget dl k2 (now (hw w2))" by (rule tw.left_later)
      moreover have "addr_fields ?da w4 = addr_fields ?da w0 @ addr_walk inc a (Suc n)"
        using w4(1) w2(2) st(4) addr_walk_Suc [of inc a n]
        by (simp add: w3_def addr_fields_simps addr_walk_def split: if_splits)
      moreover have "loads_from ?dd (log w4) = loads_from ?dd (log w0) @ xs @ [v]"
        using w4(2) w2(1) st(6) by (simp add: w3_def v_def)
      ultimately show ?thesis
        using lt st(3) st(5) b1 b2 unfolding body read_direct_inv_def
        by (auto simp: s intro!: exI [of _ "xs @ [v]"])
    qed
  qed
qed

lemma read_direct_loop:
  assumes "clock_law m now" and "nat len \<le> length buf0"
    and "spin_budget dl 0 (now (hw w0)) < fuel" and "nat len < fuel"
  shows "read_direct_done now dl regs buf0 a inc len w0
    (loop fuel (read_direct_body m fuel regs dl len inc) (0, 0, a, buf0, w0))"
proof (rule loop_total [where I = "read_direct_inv now dl regs buf0 a inc len w0" and
      M = "\<lambda>s. nat len - fst s"], goal_cases)
  case (1 s s')
  then show ?case using read_direct_iteration [OF assms(1-3), of regs a inc s] by simp
next
  case (2 s r)
  then show ?case using read_direct_iteration [OF assms(1-3), of regs a inc s] by simp
qed (use assms(4) in \<open>auto simp: read_direct_inv_def addr_after_def addr_walk_def\<close>)

section \<open>Direct writes to a device that completes\<close>

text \<open>
  A transfer completes: among any polls of the direct control register only finitely many see it
  undone, as \<open>\<mu>\<close> counts, and waiting adds none.
\<close>

definition settles :: "'h machine \<Rightarrow> uintptr \<Rightarrow> ('h \<Rightarrow> nat) \<Rightarrow> bool" where
  "settles m dcs \<mu> \<longleftrightarrow>
     (\<forall>h. (bf_get DCS_done (fst (m_ld m dcs h)) = 0 \<longrightarrow> \<mu> (snd (m_ld m dcs h)) < \<mu> h) \<and>
        \<mu> (snd (m_clock m h)) \<le> \<mu> h \<and> \<mu> (m_yield m h) \<le> \<mu> h \<and> \<mu> (m_sched m h) \<le> \<mu> h \<and>
        (\<forall>ts. \<mu> (m_nanosleep m ts h) \<le> \<mu> h))"

lemma settles_wait:
  assumes "settles m dcs \<mu>"
  shows "\<mu> (hw (snd (spin_wait m dl k w))) \<le> \<mu> (hw w)"
proof -
  have le: "\<mu> (hw (snd (clock_gettime m w))) \<le> \<mu> (hw w)" "\<mu> (hw (cpu_yield m w)) \<le> \<mu> (hw w)"
      "\<mu> (hw (sched_yield m w)) \<le> \<mu> (hw w)" "\<mu> (hw (nanosleep m ts w)) \<le> \<mu> (hw w)" for w ts
    using assms by (simp_all add: settles_def access_defs split_beta Let_def)
  show ?thesis
    unfolding spin_wait_def timeout_apply_def
    by (auto simp: split_beta Let_def intro: le order_trans [OF le(1)] order_trans [OF le(3)]
        order_trans [OF le(4)] order_trans [OF order_trans [OF le(1) le(4)]])
qed

lemma write_poll:
  assumes "settles m dcs \<mu>" and "\<mu> (hw w0) < fuel"
  shows "\<exists>e w'. loop fuel (write_done_body m dcs dl k) w0 = Returns (e, w') \<and> quiet w0 w' dcs \<and>
    (k < SPIN_YIELD_LIMIT \<longrightarrow> \<not> e)"
proof (rule loop_total [where I = "\<lambda>w. quiet w0 w dcs" and M = "\<lambda>w. \<mu> (hw w)"], goal_cases)
  case (1 w w')
  have "fst (fget m dcs DCS_done w) = 0 \<Longrightarrow> \<mu> (hw (snd (fget m dcs DCS_done w))) < \<mu> (hw w)"
    using assms(1) by (simp add: settles_def fget_def ld32_def split_beta Let_def)
  then have "fst (fget m dcs DCS_done w) = 0 \<Longrightarrow>
      \<mu> (hw (snd (spin_wait m dl k (snd (fget m dcs DCS_done w))))) < \<mu> (hw w)"
    using settles_wait [OF assms(1)] order_le_less_trans by blast
  with 1 show ?case
    by (auto simp: write_done_body_def split_beta Let_def quiet_def split: if_splits)
next
  case (2 w r)
  then show ?case
    using spin_wait_early [of k m dl]
    by (auto simp: write_done_body_def split_beta Let_def quiet_def ex_bool_eq split: if_splits)
qed (use assms(2) in \<open>auto simp: quiet_def\<close>)

definition write_direct_inv :: "MEM_MAP \<Rightarrow> u32 list \<Rightarrow> u8 \<Rightarrow> int \<Rightarrow> int \<Rightarrow> 'h world \<Rightarrow> nat \<times> nat \<times> u8 \<times> 'h world \<Rightarrow> bool" where
  "write_direct_inv regs data a inc len w0 = (\<lambda>(n, k, addr, w).
     n \<le> nat len \<and> k = n \<and> addr = addr_after inc a n \<and>
     stores_to (REG32 regs SMIO_DD) w = stores_to (REG32 regs SMIO_DD) w0 @ take n data \<and>
     addr_fields (REG32 regs SMIO_DA) w = addr_fields (REG32 regs SMIO_DA) w0 @ addr_walk inc a n)"

definition write_direct_done :: "MEM_MAP \<Rightarrow> u32 list \<Rightarrow> u8 \<Rightarrow> int \<Rightarrow> int \<Rightarrow> 'h world \<Rightarrow> (int \<times> 'h world) outcome \<Rightarrow> bool" where
  "write_direct_done regs data a inc len w0 res \<longleftrightarrow>
     (\<exists>r w n. res = Returns (r, w) \<and>
        stores_to (REG32 regs SMIO_DD) w = stores_to (REG32 regs SMIO_DD) w0 @ take n data \<and>
        (n = nat len \<and> r = int n \<and>
         addr_fields (REG32 regs SMIO_DA) w = addr_fields (REG32 regs SMIO_DA) w0 @ addr_walk inc a n
       \<or> SPIN_YIELD_LIMIT < n \<and> n \<le> nat len \<and> r = SMI_ERR_TIMEOUT))"

lemma write_direct_iteration:
  assumes law: "clock_law m now" and fits: "nat len \<le> length data"
    and set: "settles m (REG32 regs SMIO_DCS) \<mu>" and fuel: "\<And>h. \<mu> h < fuel"
    and inv: "write_direct_inv regs data a inc len w0 s"
  shows "case write_direct_body m fuel regs data dl len inc s of
      Again s' \<Rightarrow> write_direct_inv regs data a inc len w0 s' \<and> nat len - fst s' < nat len - fst s
    | Leave r \<Rightarrow> write_direct_done regs data a inc len w0 r"
proof -
  obtain n k addr w where s: "s = (n, k, addr, w)" by (metis prod_cases4)
  note st = inv [unfolded s write_direct_inv_def prod.case]
  let ?dcs = "REG32 regs SMIO_DCS" and ?dd = "REG32 regs SMIO_DD" and ?da = "REG32 regs SMIO_DA"
  show ?thesis
  proof (cases "int n < len")
    case False
    with st show ?thesis by (auto simp: s write_direct_body_def write_direct_done_def)
  next
    case True
    then have lt: "n < nat len" by linarith
    define w1 where "w1 = fset m ?dcs DCS_start 1 (st32 m ?dd (data ! n) w)"
    from write_poll [OF set fuel, of dl k w1] obtain e w2 where
      poll: "loop fuel (write_done_body m ?dcs dl k) w1 = Returns (e, w2)" and q: "quiet w1 w2 ?dcs"
      and early: "k < SPIN_YIELD_LIMIT \<longrightarrow> \<not> e" by blast
    have w2: "stores_to ?dd w2 = stores_to ?dd w0 @ take (Suc n) data"
        "addr_fields ?da w2 = addr_fields ?da w"
      using q st lt fits by (auto simp: quiet_stores_to w1_def addr_fields_def take_Suc_conv_app_nth)
    have fet: "fetch data n = Returns (data ! n)" using lt fits by simp
    show ?thesis
    proof (cases e)
      case True
      then have "SPIN_YIELD_LIMIT < Suc n" using early st by simp
      with True \<open>int n < len\<close> lt poll w2 show ?thesis
        by (auto simp: s fet write_direct_body_def Let_def direct_timeout_def write_direct_done_def
            simp del: One_nat_def simp flip: w1_def intro!: exI [of _ "Suc n"])
    next
      case False
      have "?dd \<noteq> ?da" by simp
      from next_addr_result [OF this law, of inc a n w2] obtain w4 where
        moved: "next_addr m ?da inc (addr_after inc a n) w2 = (addr_after inc a (Suc n), w4)"
        and w4: "addr_fields ?da w4 @ addr_walk inc a 0 = addr_fields ?da w2 @ drop n (addr_walk inc a (Suc n))"
          "stores_to ?dd w4 = stores_to ?dd w2"
        by blast
      have body: "write_direct_body m fuel regs data dl len inc s =
          Again (Suc n, Suc k, addr_after inc a (Suc n), w4)"
        using \<open>int n < len\<close> False st poll moved
        by (simp add: s fet write_direct_body_def Let_def split_beta del: One_nat_def flip: w1_def)
      moreover have "addr_fields ?da w4 = addr_fields ?da w0 @ addr_walk inc a (Suc n)"
        using w4(1) w2(2) st addr_walk_Suc [of inc a n]
        by (simp add: addr_walk_def split: if_splits)
      ultimately show ?thesis
        using lt st w4(2) w2(1) unfolding body write_direct_inv_def by (auto simp: s)
    qed
  qed
qed

lemma write_direct_loop:
  assumes "clock_law m now" and "nat len \<le> length data"
    and "settles m (REG32 regs SMIO_DCS) \<mu>" and "\<And>h. \<mu> h < fuel" and "nat len < fuel"
  shows "write_direct_done regs data a inc len w0
    (loop fuel (write_direct_body m fuel regs data dl len inc) (0, 0, a, w0))"
proof (rule loop_total [where I = "write_direct_inv regs data a inc len w0" and
      M = "\<lambda>s. nat len - fst s"], goal_cases)
  case (1 s s')
  then show ?case using write_direct_iteration [OF assms(1-4), of a inc w0 s dl] by simp
next
  case (2 s r)
  then show ?case using write_direct_iteration [OF assms(1-4), of a inc w0 s dl] by simp
qed (use assms(5) in \<open>auto simp: write_direct_inv_def addr_after_def addr_walk_def\<close>)

section \<open>Loops that do not come out well\<close>

lemma write_poll_diverges:
  assumes "\<And>h. bf_get DCS_done (fst (m_ld m dcs h)) = 0" and "k < SPIN_YIELD_LIMIT"
  shows "loop fuel (write_done_body m dcs dl k) w = OutOfFuel"
  by (rule loop_diverges [where I = "\<lambda>_. True"])
    (use assms spin_wait_early [of k m dl] in
      \<open>auto simp: write_done_body_def fget_def ld32_def split_beta Let_def\<close>)

text \<open>
  For the next \<open>k\<close> accesses the control register shows room in the FIFO, no error, and the
  transfer not done yet. What it shows afterwards is left open.
\<close>

primrec accepts :: "'h machine \<Rightarrow> uintptr \<Rightarrow> uintptr \<Rightarrow> nat \<Rightarrow> 'h \<Rightarrow> bool" where
  "accepts m cs d 0 h \<longleftrightarrow> True"
| "accepts m cs d (Suc k) h \<longleftrightarrow>
     bf_get CS_done (fst (m_ld m cs h)) = 0 \<and> bf_get CS_txd (fst (m_ld m cs h)) \<noteq> 0 \<and>
     bf_get CS_aferr (fst (m_ld m cs h)) = 0 \<and> accepts m cs d k (snd (m_ld m cs h)) \<and>
     (\<forall>v. accepts m cs d k (m_st m d v h)) \<and>
     accepts m cs d k (m_yield m h) \<and> accepts m cs d k (snd (m_clock m h))"

declare accepts.simps(2) [simp del]

lemma accepts_Suc: "accepts m cs d (Suc k) h \<Longrightarrow> accepts m cs d k h"
proof (induction k arbitrary: h)
  case (Suc k)
  note step = accepts.simps(2) [THEN iffD1, OF Suc.prems]
  have "accepts m cs d k (snd (m_ld m cs h))" "\<forall>v. accepts m cs d k (m_st m d v h)"
      "accepts m cs d k (m_yield m h)" "accepts m cs d k (snd (m_clock m h))"
    using step by (auto intro: Suc.IH)
  with step show ?case by (simp add: accepts.simps(2) [of m cs d k h])
qed simp

lemma accepts_steps:
  assumes "accepts m cs d (Suc k) (hw w)"
  shows "accepts m cs d k (hw (snd (fget m cs f w)))" and "accepts m cs d k (hw (st32 m d v w))"
    and "n < SPIN_YIELD_LIMIT \<Longrightarrow> accepts m cs d k (hw (snd (spin_wait m dl n w)))"
    and "accepts m cs d k (hw (snd (clock_gettime m w)))"
    and "fst (fget m cs CS_done w) = 0" and "fst (fget m cs CS_txd w) \<noteq> 0" and "fst (fget m cs CS_aferr w) = 0"
proof -
  note a = assms [unfolded accepts.simps(2)] accepts_Suc [OF assms]
  show "accepts m cs d k (hw (snd (fget m cs f w)))" "accepts m cs d k (hw (st32 m d v w))"
      "accepts m cs d k (hw (snd (clock_gettime m w)))" "fst (fget m cs CS_done w) = 0"
      "fst (fget m cs CS_txd w) \<noteq> 0" "fst (fget m cs CS_aferr w) = 0"
    using a by (simp_all add: access_defs split_beta)
  have "accepts m cs d k (hw (cpu_yield m w))" using a by (simp add: cpu_yield_def)
  then show "n < SPIN_YIELD_LIMIT \<Longrightarrow> accepts m cs d k (hw (snd (spin_wait m dl n w)))"
    using a(2) by (simp add: spin_wait_def timeout_apply_def timeout_spin_tier_def spin_limits)
qed

text \<open>Every iteration takes the next word, at the price of at most five accesses.\<close>

lemma accepts_iteration:
  assumes "accepts m cs d (5 * (length data - n) + 2) (hw w)" and "n \<le> length data"
    and "length data < SPIN_YIELD_LIMIT" and "0 < fuel"
  shows "\<exists>w'. write_await_body m fuel cs d data dl (int (length data)) (n, n, w) =
      (if n < length data then Again (Suc n, Suc n, w') else Leave Undefined) \<and>
    accepts m cs d (5 * (length data - Suc n) + 2) (hw w')"
proof -
  obtain f where f: "fuel = Suc f" using assms(4) by (cases fuel) auto
  define j where "j = 5 * (length data - n)"
  define w1 where "w1 = snd (fget m cs CS_done w)"
  define w2 where "w2 = snd (fget m cs CS_txd w1)"
  have a0: "accepts m cs d (Suc (Suc j)) (hw w)" using assms(1) by (simp add: j_def)
  have a1: "accepts m cs d (Suc j) (hw w1)" unfolding w1_def by (rule accepts_steps(1) [OF a0])
  have a2: "accepts m cs d j (hw w2)" unfolding w2_def by (rule accepts_steps(1) [OF a1])
  have poll: "loop fuel (poll_body m cs CS_txd dl) (n, w1) = Returns (False, n, w2)"
    using accepts_steps(6) [OF a1] by (simp add: f poll_body_def split_beta Let_def w2_def)
  show ?thesis
  proof (cases "n < length data")
    case False
    then have "write_await_body m fuel cs d data dl (int (length data)) (n, n, w) = Leave Undefined"
      using assms(2) poll accepts_steps(5) [OF a0]
      by (simp add: write_await_body_def split_beta Let_def fetch_def del: One_nat_def flip: w1_def)
    then show ?thesis
      using False accepts_Suc [OF accepts_Suc, of m cs d 0 "hw w2"] a1 a0
      by (intro exI [of _ w]) (simp add: j_def)
  next
    case True
    then obtain i where i: "length data - n = Suc i" "length data - Suc n = i" by (cases "length data - n") auto
    define w3 where "w3 = st32 m d (data ! n) w2"
    define w4 where "w4 = snd (spin_wait m dl n w3)"
    have lt: "n < SPIN_YIELD_LIMIT" using True assms(3) by simp
    define b where "b = 5 * i + 2"
    have "j = Suc (Suc (Suc b))" by (simp add: j_def b_def i)
    with a2 have a2': "accepts m cs d (Suc (Suc (Suc b))) (hw w2)" by (simp only:)
    have a3: "accepts m cs d (Suc (Suc b)) (hw w3)" unfolding w3_def by (rule accepts_steps(2) [OF a2'])
    have a4: "accepts m cs d (Suc b) (hw w4)" unfolding w4_def by (rule accepts_steps(3) [OF a3 lt])
    have "write_await_body m fuel cs d data dl (int (length data)) (n, n, w) =
        Again (Suc n, Suc n, snd (fget m cs CS_aferr w4))"
      using True poll accepts_steps(5) [OF a0] spin_wait_early [OF lt, of m dl w3] accepts_steps(7) [OF a4]
      by (simp add: write_await_body_def split_beta Let_def fetch_def del: One_nat_def flip: w1_def w3_def w4_def)
    then show ?thesis
      using True accepts_steps(1) [OF a4, of CS_aferr] by (simp add: i b_def)
  qed
qed

lemma write_await_overruns:
  assumes "accepts m cs d (5 * length data + 2) (hw w0)" and "length data < SPIN_YIELD_LIMIT"
    and "length data < fuel"
  shows "loop fuel (write_await_body m fuel cs d data dl (int (length data))) (0, 0, w0) = Undefined"
proof (rule loop_total [where
      I = "\<lambda>(n, k, w). n \<le> length data \<and> k = n \<and> accepts m cs d (5 * (length data - n) + 2) (hw w)" and
      M = "\<lambda>(n, k, w). length data - n"], goal_cases)
  case (1 s s')
  obtain n w where s: "s = (n, n, w)" and n: "n \<le> length data"
    and acc: "accepts m cs d (5 * (length data - n) + 2) (hw w)" using 1(1) by (cases s) auto
  have "0 < fuel" using assms(3) by simp
  from accepts_iteration [OF acc n assms(2) this, of dl] 1(2) show ?case
    unfolding s by (cases "n < length data") auto
next
  case (2 s r)
  obtain n w where s: "s = (n, n, w)" and n: "n \<le> length data"
    and acc: "accepts m cs d (5 * (length data - n) + 2) (hw w)" using 2(1) by (cases s) auto
  have "0 < fuel" using assms(3) by simp
  from accepts_iteration [OF acc n assms(2) this, of dl] 2(2) show ?case
    unfolding s by (cases "n < length data") auto
qed (use assms(1,3) in simp_all)

section \<open>What the await functions return\<close>

lemma start_timeout_logs [simp]:
  "stores (log (snd (start_timeout m s w))) = stores (log w)"
  "loads_from a (log (snd (start_timeout m s w))) = loads_from a (log w)"
  "store_addrs (snd (start_timeout m s w)) = store_addrs w"
  "stores_to a (snd (start_timeout m s w)) = stores_to a w"
  "addr_fields a (snd (start_timeout m s w)) = addr_fields a w"
  by (simp_all add: addr_fields_def start_timeout_world)

lemma start_budget:
  assumes "clock_law m now" and "0 \<le> s"
  shows "spin_budget (fst (start_timeout m s w)) 0 (now (hw (snd (start_timeout m s w))))
    \<le> SPIN_SOFT_LIMIT + nat s * 10000"
  using spin_budget_start [OF assms(1), of s w "fst (start_timeout m s w)" "snd (start_timeout m s w)"]
    assms(2) by simp

lemmas timeouts = PROG_READ_TIMEOUT_S_def PROG_WRITE_TIMEOUT_S_def DIRECT_READ_TIMEOUT_S_def

lemma smi_read_await_total:
  assumes "clock_law m now" and "smi_regs cxt = Some regs" and "nat len \<le> length buf"
    and "nat len * 513 + 500512 < fuel"
  shows "\<exists>r buf' w' xs. smi_read_await m fuel cxt (Some buf) len w = Returns (r, Some buf', w') \<and>
    buf' = overlay buf 0 xs \<and>
    loads_from (REG32 regs SMIO_D) (log w') = loads_from (REG32 regs SMIO_D) (log w) @ xs \<and>
    (if length xs = nat len then r = int (nat len) \<and> stores (log w') = stores (log w)
     else length xs < nat len \<and> r = 21 \<and> only_set (REG32 regs SMIO_CS) CS_clear 1 w w' \<and>
       now (hw w) + 50000000000 \<le> now (hw w'))"
proof -
  let ?dl = "fst (start_timeout m PROG_READ_TIMEOUT_S w)"
    and ?w = "snd (start_timeout m PROG_READ_TIMEOUT_S w)"
  have "nat len * Suc SPIN_SOFT_LIMIT + spin_budget ?dl 0 (now (hw ?w)) < fuel"
    using start_budget [OF assms(1), of PROG_READ_TIMEOUT_S w] assms(4)
    by (simp add: timeouts SPIN_SOFT_LIMIT_def)
  from read_await_loop [OF assms(1) regs_apart(2) assms(3) this, of regs, unfolded read_done_def]
  obtain r buf' w' xs where
    run: "loop fuel (read_await_body m (REG32 regs SMIO_CS) (REG32 regs SMIO_D) ?dl len) (0, 0, buf, ?w)
      = Returns (r, buf', w')" and "buf' = overlay buf 0 xs"
    "loads_from (REG32 regs SMIO_D) (log w') = loads_from (REG32 regs SMIO_D) (log ?w) @ xs"
    "if length xs = nat len then r = int (nat len) \<and> stores (log w') = stores (log ?w)
     else length xs < nat len \<and> r = - SMI_ERR_TIMEOUT \<and> only_set (REG32 regs SMIO_CS) CS_clear 1 ?w w' \<and>
       ?dl \<le> now (hw w')"
    by blast
  moreover have "?dl = now (hw w) + 50000000000"
    using clock_gettime_ns [OF assms(1), of w] by (simp add: start_timeout_def split_beta Let_def timeouts)
  moreover have "smi_read_await m fuel cxt (Some buf) len w = Returns (r, Some buf', w')"
    using assms(2) run by (simp add: smi_read_await_def split_beta Let_def)
  ultimately show ?thesis
    by (auto simp: SMI_ERR_TIMEOUT_def only_set_def split: if_splits)
qed

lemma smi_write_await_total:
  assumes "clock_law m now" and "smi_regs cxt = Some regs" and "nat (len + 1) \<le> length data"
    and "500512 < fuel"
  shows "\<exists>r w' n. smi_write_await m fuel (Some cxt) (Some data) len w = Returns (r, w') \<and>
    n \<le> nat (len + 1) \<and> sent (REG32 regs SMIO_CS) (REG32 regs SMIO_D) w (take n data) w' \<and>
    (r = int n \<or> r = SMI_ERR_TIMEOUT \<and> now (hw w) + 50000000000 \<le> now (hw w'))"
proof -
  let ?dl = "fst (start_timeout m PROG_WRITE_TIMEOUT_S w)"
    and ?w = "snd (start_timeout m PROG_WRITE_TIMEOUT_S w)"
  have "spin_budget ?dl 0 (now (hw ?w)) < fuel"
    using start_budget [OF assms(1), of PROG_WRITE_TIMEOUT_S w] assms(4)
    by (simp add: timeouts SPIN_SOFT_LIMIT_def)
  from write_await_loop [OF assms(1) regs_apart(2,1) assms(3) this, of regs]
  obtain r w' n where "loop fuel (write_await_body m fuel (REG32 regs SMIO_CS) (REG32 regs SMIO_D) data ?dl len)
      (0, 0, ?w) = Returns (r, w')" and "n \<le> nat (len + 1)"
    and "sent (REG32 regs SMIO_CS) (REG32 regs SMIO_D) ?w (take n data) w'"
    and "r = int n \<or> r = SMI_ERR_TIMEOUT \<and> ?dl \<le> now (hw w')"
    unfolding write_done_def by blast
  moreover have "?dl = now (hw w) + 50000000000"
    using clock_gettime_ns [OF assms(1), of w] by (simp add: start_timeout_def split_beta Let_def timeouts)
  ultimately show ?thesis
    using assms(2) by (auto simp: smi_write_await_def split_beta Let_def sent_def)
qed

lemma smi_read_await_direct_total:
  assumes "clock_law m now" and "smi_regs cxt = Some regs" and "nat len \<le> length buf"
    and "nat len + 20512 < fuel"
  shows "\<exists>r buf' w' xs. smi_read_await_direct m fuel (Some cxt) (Some buf) a len inc w =
      Returns (r, Some buf', w') \<and>
    buf' = overlay buf 0 (map (\<lambda>v. v AND 0xFF) xs) \<and>
    loads_from (REG32 regs SMIO_DD) (log w') = loads_from (REG32 regs SMIO_DD) (log w) @ xs \<and>
    addr_fields (REG32 regs SMIO_DA) w' = addr_fields (REG32 regs SMIO_DA) w
      @ [take_bit 6 (byte32 a)] @ addr_walk inc a (length xs) \<and>
    (if length xs = nat len then r = int (nat len)
     else length xs < nat len \<and> r = SMI_ERR_TIMEOUT \<and> now (hw w) + 2000000000 \<le> now (hw w'))"
proof -
  let ?start = "fset m (REG32 regs SMIO_DA) DA_addr (byte32 a) (fset m (REG32 regs SMIO_DCS) DCS_write 0 w)"
  let ?dl = "fst (start_timeout m DIRECT_READ_TIMEOUT_S ?start)"
    and ?w = "snd (start_timeout m DIRECT_READ_TIMEOUT_S ?start)"
  have "spin_budget ?dl 0 (now (hw ?w)) < fuel"
    using start_budget [OF assms(1), of DIRECT_READ_TIMEOUT_S ?start] assms(4)
    by (simp add: timeouts SPIN_SOFT_LIMIT_def)
  moreover have "nat len < fuel" using assms(4) by simp
  ultimately have "read_direct_done now ?dl regs buf a inc len ?w
      (loop fuel (read_direct_body m fuel regs ?dl len inc) (0, 0, a, buf, ?w))"
    using read_direct_loop [OF assms(1,3)] by blast
  then obtain r buf' w' xs where
    run: "loop fuel (read_direct_body m fuel regs ?dl len inc) (0, 0, a, buf, ?w) = Returns (r, buf', w')"
    and xs: "buf' = overlay buf 0 (map (\<lambda>v. v AND 0xFF) xs)"
      "loads_from (REG32 regs SMIO_DD) (log w') = loads_from (REG32 regs SMIO_DD) (log ?w) @ xs"
      "addr_fields (REG32 regs SMIO_DA) w' = addr_fields (REG32 regs SMIO_DA) ?w @ addr_walk inc a (length xs)"
    and r: "if length xs = nat len then r = int (nat len)
      else length xs < nat len \<and> r = SMI_ERR_TIMEOUT \<and> ?dl \<le> now (hw w')"
    unfolding read_direct_done_def by blast
  have "now (hw w) + 2000000000 \<le> ?dl"
    using clock_gettime_ns [OF assms(1), of ?start] order_trans [OF clock_law_fields(2) clock_law_fields(2), OF assms(1) assms(1)]
    by (simp add: start_timeout_def split_beta Let_def timeouts del: One_nat_def)
  with r have r': "if length xs = nat len then r = int (nat len)
      else length xs < nat len \<and> r = SMI_ERR_TIMEOUT \<and> now (hw w) + 2000000000 \<le> now (hw w')"
    by (auto split: if_splits)
  have "smi_read_await_direct m fuel (Some cxt) (Some buf) a len inc w = Returns (r, Some buf', w')"
    using assms(2) run by (simp add: smi_read_await_direct_def split_beta Let_def del: One_nat_def)
  moreover have "addr_fields (REG32 regs SMIO_DA) ?w = addr_fields (REG32 regs SMIO_DA) w @ [take_bit 6 (byte32 a)]"
    "loads_from (REG32 regs SMIO_DD) (log ?w) = loads_from (REG32 regs SMIO_DD) (log w)"
    by (simp_all add: addr_fields_simps del: One_nat_def)
  ultimately show ?thesis using xs r' by (metis append.assoc)
qed

lemma smi_write_await_direct_total:
  assumes "clock_law m now" and "smi_regs cxt = Some regs" and "nat len \<le> length data"
    and "settles m (REG32 regs SMIO_DCS) \<mu>" and "\<And>h. \<mu> h < fuel" and "nat len < fuel"
  shows "\<exists>r w' n. smi_write_await_direct m fuel (Some cxt) (Some data) a len inc w = Returns (r, w') \<and>
    stores_to (REG32 regs SMIO_DD) w' = stores_to (REG32 regs SMIO_DD) w @ take n data \<and>
    (n = nat len \<and> r = int n \<and> addr_fields (REG32 regs SMIO_DA) w' =
       addr_fields (REG32 regs SMIO_DA) w @ addr_walk inc a n
     \<or> 192 < n \<and> n \<le> nat len \<and> r = SMI_ERR_TIMEOUT)"
proof -
  let ?v = "snd (start_timeout m PROG_WRITE_TIMEOUT_S w)"
  let ?start = "fset m (REG32 regs SMIO_DCS) DCS_write 1 ?v"
  have "write_direct_done regs data a inc len ?start
      (loop fuel (write_direct_body m fuel regs data (fst (start_timeout m PROG_WRITE_TIMEOUT_S w)) len inc)
        (0, 0, a, ?start))"
    by (rule write_direct_loop [OF assms(1,3,4,5,6)])
  then show ?thesis
    using assms(2) by (auto simp: write_direct_done_def smi_write_await_direct_def split_beta Let_def
        addr_fields_simps SPIN_YIELD_LIMIT_def simp del: One_nat_def)
qed

lemma smi_write_await_undefined:
  assumes "accepts m (REG32 regs SMIO_CS) (REG32 regs SMIO_D) (5 * length data + 3) (hw w)"
    and "smi_regs cxt = Some regs" and "length data < 192" and "length data < fuel"
  shows "smi_write_await m fuel (Some cxt) (Some data) (int (length data)) w = Undefined"
proof -
  have "length data < SPIN_YIELD_LIMIT" using assms(3) by (simp add: SPIN_YIELD_LIMIT_def)
  moreover have "accepts m (REG32 regs SMIO_CS) (REG32 regs SMIO_D) (5 * length data + 2)
      (hw (snd (start_timeout m PROG_WRITE_TIMEOUT_S w)))"
    unfolding start_timeout_world by (rule accepts_steps(4)) (use assms(1) in \<open>simp add: numeral_eq_Suc\<close>)
  ultimately show ?thesis
    using assms(2) write_await_overruns [of m "REG32 regs SMIO_CS" "REG32 regs SMIO_D" data _ fuel] assms(4)
    by (simp add: smi_write_await_def split_beta Let_def)
qed

lemma smi_write_await_direct_diverges:
  assumes "\<And>h. bf_get DCS_done (fst (m_ld m (REG32 regs SMIO_DCS) h)) = 0"
    and "smi_regs cxt = Some regs" and "0 < len" and "data \<noteq> []"
  shows "smi_write_await_direct m fuel (Some cxt) (Some data) a len inc w = OutOfFuel"
proof -
  have "loop fuel (write_done_body m (REG32 regs SMIO_DCS) dl 0) w = OutOfFuel" for dl w
    using assms(1) by (rule write_poll_diverges) (simp add: SPIN_YIELD_LIMIT_def)
  then have "loop fuel (write_direct_body m fuel regs data dl len inc) (0, 0, a, w) = OutOfFuel" for dl w
    using assms(3,4) by (cases fuel) (simp_all add: write_direct_body_def fetch_def Let_def)
  then show ?thesis
    using assms(2) by (simp add: smi_write_await_direct_def split_beta Let_def)
qed

section \<open>Properties\<close>

text \<open>
  C3: On any machine with a monotonic clock, a buffer of at least \<^verbatim>\<open>len\<close> words and enough fuel,
  \<^verbatim>\<open>smi_read_await\<close> returns. Every word it took from the data register is in the buffer, in order
  from its start, and the rest of the buffer is as it was. Either that is \<^verbatim>\<open>len\<close> words and no
  register was stored to, or 50 seconds passed first, the one store made is the control register
  with its clear bit set, and the result is the positive number 21, which no caller can tell from a
  word count.
\<close>
theorem smi_read_await_result:
  assumes "clock_law m now" and "smi_regs cxt = Some regs" and "nat len \<le> length buf"
    and "nat len * 513 + 500512 < fuel"
  shows "\<exists>r buf' w' xs. smi_read_await m fuel cxt (Some buf) len w = Returns (r, Some buf', w') \<and>
    buf' = overlay buf 0 xs \<and>
    loads_from (REG32 regs SMIO_D) (log w') = loads_from (REG32 regs SMIO_D) (log w) @ xs \<and>
    (if length xs = nat len then r = int (nat len) \<and> stores (log w') = stores (log w)
     else length xs < nat len \<and> r = 21 \<and>
       stores (log w') = stores (log w) @ [(REG32 regs SMIO_CS,
         bf_set CS_clear 1 (last (loads_from (REG32 regs SMIO_CS) (log w'))))] \<and>
       now (hw w) + 50000000000 \<le> now (hw w'))"
  using assms by (rule smi_read_await_total [unfolded only_set_def])

theorem smi_read_await_result_witness:
  "\<exists>r buf' w'. smi_read_await ram0 600000 (sample_cxt 0 False False True) (Some [5, 6, 7]) 2
     (ram_world (\<lambda>_. 0x08000000)) = Returns (r, Some buf', w') \<and> (r = 2 \<or> r = 21) \<and> buf' ! 2 = 7"
proof -
  obtain r buf' w' xs where "smi_read_await ram0 600000 (sample_cxt 0 False False True) (Some [5, 6, 7]) 2
     (ram_world (\<lambda>_. 0x08000000)) = Returns (r, Some buf', w')" and "buf' = overlay [5, 6, 7] 0 xs"
    and "if length xs = nat 2 then r = int (nat 2) else length xs < nat 2 \<and> r = 21"
    using smi_read_await_result [OF ram_clock_law, of "sample_cxt 0 False False True" "sample_map 0x1000"
        2 "[5, 6, 7]" 600000 "\<lambda>_. 0" "ram_world (\<lambda>_. 0x08000000)"]
    by (auto split: if_splits)
  moreover from this have "length xs \<le> 2" by (simp split: if_splits)
  ultimately show ?thesis
    by (cases xs) (auto simp: overlay_def nth_append nth_Cons' split: if_splits)
qed

text \<open>
  C5: With one readable word more than \<^verbatim>\<open>len\<close>, \<^verbatim>\<open>smi_write_await\<close> always returns: the words it
  stored to the data register are the first words of the data, in order, at most one more than
  \<^verbatim>\<open>len\<close>; but for the control register nothing else is stored to; and the result is their number,
  or the timeout code when 50 seconds have passed.
\<close>
theorem smi_write_await_result:
  assumes "clock_law m now" and "smi_regs cxt = Some regs" and "nat (len + 1) \<le> length data"
    and "500512 < fuel"
  shows "\<exists>r w' n. smi_write_await m fuel (Some cxt) (Some data) len w = Returns (r, w') \<and>
    n \<le> nat (len + 1) \<and> sent (REG32 regs SMIO_CS) (REG32 regs SMIO_D) w (take n data) w' \<and>
    (r = int n \<or> r = SMI_ERR_TIMEOUT \<and> now (hw w) + 50000000000 \<le> now (hw w'))"
  using assms by (rule smi_write_await_total)

theorem smi_write_await_result_witness:
  "\<exists>r w' n. smi_write_await ram0 600000 (Some (sample_cxt 0 False False True)) (Some [5, 6, 7]) 2
     (ram_world (\<lambda>_. 0x10000000)) = Returns (r, w') \<and> stores_to 0x100c w' = take n [5, 6, 7]"
  using smi_write_await_result [OF ram_clock_law, of "sample_cxt 0 False False True" "sample_map 0x1000"
        2 "[5, 6, 7]" 600000 "\<lambda>_. 0" "ram_world (\<lambda>_. 0x10000000)"]
  by (fastforce simp: SMIO_D_def sent_def stores_to_def ram_world_def)

text \<open>
  C34: \<^verbatim>\<open>smi_write_await\<close> of fewer than 192 words to a FIFO that has room for each of them and has
  not reported the transfer done while they go in (which takes at most five accesses a word, and
  three more) reads the word after the data, however soon after that the device is done.
\<close>
theorem smi_write_await_overruns:
  assumes "accepts m (REG32 regs SMIO_CS) (REG32 regs SMIO_D) (5 * length data + 3) (hw w)"
    and "smi_regs cxt = Some regs" and "length data < 192" and "length data < fuel"
  shows "smi_write_await m fuel (Some cxt) (Some data) (int (length data)) w = Undefined"
  using assms by (rule smi_write_await_undefined)

theorem smi_write_await_overruns_witness:
  "smi_write_await (ram0\<lparr>m_ld := \<lambda>a (r, t). (if t < 13 then 0x10000000 else 0x10000002, (r, t + 1))\<rparr>) 5
     (Some (sample_cxt 0 False False True)) (Some [1, 2]) (int (length [1 :: u32, 2]))
     (ram_world (\<lambda>_. 0)) = Undefined"
proof (rule smi_write_await_overruns [where regs = "sample_map 0x1000"])
  let ?m = "ram0\<lparr>m_ld := \<lambda>a (r, t :: int). (if t < 13 then 0x10000000 else 0x10000002, (r, t + 1))\<rparr>"
  have "t + int k \<le> 13 \<Longrightarrow> accepts ?m cs d k (r, t)" for cs d k r t
    by (induction k arbitrary: r t)
      (simp_all add: accepts.simps(2) ram_machine_def bf_get_def drop_bit_eq_div take_bit_eq_mod)
  then show "accepts ?m (REG32 (sample_map 0x1000) SMIO_CS) (REG32 (sample_map 0x1000) SMIO_D)
      (5 * length [1 :: u32, 2] + 3) (hw (ram_world (\<lambda>_. 0)))"
    by (simp add: ram_world_def)
qed simp_all

text \<open>
  C13: \<^verbatim>\<open>smi_read_await_direct\<close> always returns. The buffer holds, from its start and in order, the low
  byte of every value it took from the direct data register; the address field was given the
  address that follows after each of them, wrapping at 6 bits; and the result is \<^verbatim>\<open>len\<close>, or the
  timeout code if fewer values came in 2 seconds.
\<close>
theorem smi_read_await_direct_result:
  assumes "clock_law m now" and "smi_regs cxt = Some regs" and "nat len \<le> length buf"
    and "nat len + 20512 < fuel"
  shows "\<exists>r buf' w' xs. smi_read_await_direct m fuel (Some cxt) (Some buf) a len inc w =
      Returns (r, Some buf', w') \<and>
    buf' = overlay buf 0 (map (\<lambda>v. v AND 0xFF) xs) \<and>
    loads_from (REG32 regs SMIO_DD) (log w') = loads_from (REG32 regs SMIO_DD) (log w) @ xs \<and>
    addr_fields (REG32 regs SMIO_DA) w' = addr_fields (REG32 regs SMIO_DA) w
      @ [take_bit 6 (byte32 a)] @ addr_walk inc a (length xs) \<and>
    (if length xs = nat len then r = int (nat len)
     else length xs < nat len \<and> r = SMI_ERR_TIMEOUT \<and> now (hw w) + 2000000000 \<le> now (hw w'))"
  using assms by (rule smi_read_await_direct_total)

theorem smi_read_await_direct_result_witness:
  "\<exists>r buf' w'. smi_read_await_direct ram0 30000 (Some (sample_cxt 0 False False True)) (Some [5, 6]) 63 1 1
     (ram_world (\<lambda>_. 0x1204)) = Returns (r, Some buf', w') \<and> (r = 1 \<or> r = SMI_ERR_TIMEOUT)"
  using smi_read_await_direct_result [OF ram_clock_law, of "sample_cxt 0 False False True"
      "sample_map 0x1000" 1 "[5, 6]" 30000 "\<lambda>_. 0" 63 1 "ram_world (\<lambda>_. 0x1204)"]
  by (fastforce split: if_splits)

text \<open>
  If every transfer completes, \<^verbatim>\<open>smi_write_await_direct\<close> returns. The values stored to the
  direct data register are the first of the data, in order; either they are \<^verbatim>\<open>len\<close>, which is the
  result, and the address field followed them, or the wait expired, which can happen only after
  more than 192 words.
\<close>
theorem smi_write_await_direct_result:
  assumes "clock_law m now" and "smi_regs cxt = Some regs" and "nat len \<le> length data"
    and "settles m (REG32 regs SMIO_DCS) \<mu>" and "\<And>h. \<mu> h < fuel" and "nat len < fuel"
  shows "\<exists>r w' n. smi_write_await_direct m fuel (Some cxt) (Some data) a len inc w = Returns (r, w') \<and>
    stores_to (REG32 regs SMIO_DD) w' = stores_to (REG32 regs SMIO_DD) w @ take n data \<and>
    (n = nat len \<and> r = int n \<and> addr_fields (REG32 regs SMIO_DA) w' =
       addr_fields (REG32 regs SMIO_DA) w @ addr_walk inc a n
     \<or> 192 < n \<and> n \<le> nat len \<and> r = SMI_ERR_TIMEOUT)"
  using assms by (rule smi_write_await_direct_total)

theorem smi_write_await_direct_result_witness:
  "\<exists>r w' n. smi_write_await_direct (ram0\<lparr>m_ld := \<lambda>a h. (4, h)\<rparr>) 3 (Some (sample_cxt 0 False False True))
     (Some [7, 8]) 62 2 1 (ram_world (\<lambda>_. 0)) = Returns (r, w') \<and> r = 2
     \<and> stores_to 0x103c w' = [7, 8]"
proof -
  have "clock_law (ram0\<lparr>m_ld := \<lambda>a h. (4, h)\<rparr>) snd"
    by (simp add: clock_law_def ram_machine_def ns_of_def split_beta)
  moreover have "settles (ram0\<lparr>m_ld := \<lambda>a h. (4, h)\<rparr>) (REG32 (sample_map 0x1000) SMIO_DCS) (\<lambda>_. 0)"
    by (simp add: settles_def bf_get_def drop_bit_eq_div take_bit_eq_mod)
  ultimately show ?thesis
    using smi_write_await_direct_result [of "ram0\<lparr>m_ld := \<lambda>a h. (4, h)\<rparr>" snd
        "sample_cxt 0 False False True" "sample_map 0x1000" 2 "[7, 8]" "\<lambda>_. 0" 3 62 1 "ram_world (\<lambda>_. 0)"]
    by (fastforce simp: SMIO_DD_def stores_to_def ram_world_def)
qed

text \<open>
  C33: If the device never completes the first transfer, \<^verbatim>\<open>smi_write_await_direct\<close> never returns,
  its timeout notwithstanding: the spin count stays in the tier that does not look at the clock.
\<close>
theorem smi_write_await_direct_hangs:
  assumes "\<And>h. bf_get DCS_done (fst (m_ld m (REG32 regs SMIO_DCS) h)) = 0"
    and "smi_regs cxt = Some regs" and "0 < len" and "data \<noteq> []"
  shows "smi_write_await_direct m fuel (Some cxt) (Some data) a len inc w = OutOfFuel"
  using assms by (rule smi_write_await_direct_diverges)

theorem smi_write_await_direct_hangs_witness:
  "smi_write_await_direct (blink_machine\<lparr>m_ld := \<lambda>a h. (0, h)\<rparr>) 1000000
     (Some (sample_cxt 0 False False True)) (Some [7]) 0 1 0 \<lparr>hw = True, log = []\<rparr> = OutOfFuel"
  by (rule smi_write_await_direct_hangs [where regs = "sample_map 0x1000"])
    (simp_all add: bf_get_def)

end
