(* ===== verification/Smi_Transfer.thy ===== *)
theory Smi_Transfer
  imports Smi_Await
begin

unbundle bit_operations_syntax

text \<open>
  The transfers of \<^verbatim>\<open>smi.c\<close>: direct and programmed reads and writes, each the register set-up,
  the start, the await loop and, for programmed reads, unpacking into the caller's buffer. The
  caller's buffer of a programmed read is a list of bytes. The number of FIFO words a read takes is
  computed in \<^verbatim>\<open>int\<close>, so it is undefined when a step of that computation overflows
  (\<open>word_reads_of\<close>). An assignment to a member as wide as the register
  (\<^verbatim>\<open>l->fields.length\<close>) is a store without a load.
\<close>

section \<open>Direct mode\<close>

definition direct_setup :: "(field \<times> u32) list" where
  "direct_setup = [(CS_clear, 1), (CS_aferr, 1), (CS_enable, 1), (CS_pxldat, 0), (CS_pad, 0)]"

definition smi_direct_read ::
  "'h machine \<Rightarrow> nat \<Rightarrow> SMI_CXT \<Rightarrow> u32 list option \<Rightarrow> u8 \<Rightarrow> 'h world
     \<Rightarrow> (int \<times> u32 list option \<times> 'h world) outcome" where
  "smi_direct_read m fuel cxt ret_data addr w =
     obind (deref (smi_regs cxt)) (\<lambda>regs.
     let cs = REG32 regs SMIO_CS; da = REG32 regs SMIO_DA; dcs = REG32 regs SMIO_DCS;
         dd = REG32 regs SMIO_DD; dsr = REG32 regs SMIO_DSR0;
         w = st32 m cs 0 w;
         w = fsets m cs direct_setup w;
         w = fset m dsr DSR_rwidth 0 w;
         w = fset m dcs DCS_done 1 w;
         w = fset m dcs DCS_write 0 w;
         w = fset m da DA_addr (byte32 addr) w;
         w = st32 m dd 0 w;
         w = fset m dcs DCS_start 1 w in
     smi_read_await_direct m fuel (Some cxt) ret_data addr 1 0 w)"

definition smi_direct_read_arr ::
  "'h machine \<Rightarrow> nat \<Rightarrow> SMI_CXT \<Rightarrow> u32 list option \<Rightarrow> u8 \<Rightarrow> int \<Rightarrow> int \<Rightarrow> 'h world
     \<Rightarrow> (int \<times> u32 list option \<times> 'h world) outcome" where
  "smi_direct_read_arr m fuel cxt ret_data addr len increment w =
     obind (deref (smi_regs cxt)) (\<lambda>regs.
     let da = REG32 regs SMIO_DA; dcs = REG32 regs SMIO_DCS;
         dd = REG32 regs SMIO_DD; dsr = REG32 regs SMIO_DSR0 in
     obind (config0 cxt) (\<lambda>(rc, wc).
     let w = fset m dsr DSR_rwidth (byte32 (rwidth rc)) w;
         w = st32 m dcs 0 w;
         w = fset m dcs DCS_done 1 w;
         w = fset m dcs DCS_write 0 w;
         w = fset m da DA_addr (byte32 addr) w;
         w = st32 m dd 0 w;
         w = fset m dcs DCS_start 1 w in
     smi_read_await_direct m fuel (Some cxt) ret_data addr len increment w))"

definition smi_direct_write_arr ::
  "'h machine \<Rightarrow> nat \<Rightarrow> SMI_CXT \<Rightarrow> u32 list option \<Rightarrow> u8 \<Rightarrow> u8 \<Rightarrow> int \<Rightarrow> 'h world
     \<Rightarrow> (int \<times> 'h world) outcome" where
  "smi_direct_write_arr m fuel cxt data addr len increment w =
     obind (deref (smi_regs cxt)) (\<lambda>regs.
     let cs = REG32 regs SMIO_CS; da = REG32 regs SMIO_DA; dcs = REG32 regs SMIO_DCS;
         dd = REG32 regs SMIO_DD; dsr = REG32 regs SMIO_DSR0;
         w = st32 m cs 0 w;
         w = fsets m cs direct_setup w;
         w = fset m dsr DSR_rwidth 0 w;
         w = fset m dcs DCS_done 1 w;
         w = fset m dcs DCS_write 1 w;
         w = fset m da DA_addr (byte32 addr) w;
         w = st32 m dd 0 w;
         w = fset m dcs DCS_start 1 w in
     obind (smi_write_await_direct m fuel (Some cxt) data addr (uint len) increment w) (\<lambda>(_, w).
     Returns (1, w)))"

definition smi_direct_write ::
  "'h machine \<Rightarrow> nat \<Rightarrow> SMI_CXT \<Rightarrow> u32 \<Rightarrow> u8 \<Rightarrow> 'h world \<Rightarrow> (int \<times> 'h world) outcome" where
  "smi_direct_write m fuel cxt data addr w = smi_direct_write_arr m fuel cxt (Some [data]) addr 1 0 w"

section \<open>Programmed mode\<close>

text \<open>The growth of the raw buffer: the context with room for \<open>n\<close> words, or nothing.\<close>

definition grow_raw_buffer ::
  "'h machine \<Rightarrow> SMI_CXT \<Rightarrow> int \<Rightarrow> 'h world \<Rightarrow> SMI_CXT option \<times> 'h world" where
  "grow_raw_buffer m cxt word_reads w =
     (if word_of_int word_reads > rb_size (raw_buffer cxt) then
        (let (new_buf, w) = realloc32 m (word_of_int word_reads * 4) (old_words (raw_buffer cxt)) w in
         if new_buf = None then (None, perr ''Reallocation of raw buffer failed'' w)
         else (Some (cxt\<lparr>raw_buffer := \<lparr>rb_buf = new_buf, rb_size = word_of_int word_reads\<rparr>\<rparr>), w))
      else (Some cxt, w))"

definition word_reads_of :: "smi_pack_ratio_t \<Rightarrow> int \<Rightarrow> int outcome" where
  "word_reads_of ratio len =
     obind (c_int (len * uint (ratio_read ratio))) (\<lambda>n. SMI_DIV_CEIL n (uint (ratio_out_pixels ratio)))"

definition programmed_read_setup :: "SMI_CXT \<Rightarrow> (field \<times> u32) list" where
  "programmed_read_setup cxt =
     [(CS_aferr, 0), (CS_seterr, 1), (CS_pxldat, bool32 (pxldata cxt)), (CS_enable, 1), (CS_write, 0),
      (CS_clear, 1), (CS_pad, bool32 (pad cxt)), (CS_prdy, bool32 (prdy cxt)),
      (CS_intr, bool32 (intr cxt)), (CS_intd, bool32 (intd cxt)),
      (CS_pvmode, byte32 (pixel_value_mode cxt))]"

definition smi_programmed_read_arr ::
  "'h machine \<Rightarrow> nat \<Rightarrow> SMI_CXT \<Rightarrow> u8 list \<Rightarrow> u8 \<Rightarrow> int \<Rightarrow> 'h world
     \<Rightarrow> (int \<times> SMI_CXT \<times> u8 list \<times> 'h world) outcome" where
  "smi_programmed_read_arr m fuel cxt ret_data addr len w =
     obind (deref (smi_regs cxt)) (\<lambda>regs.
     let cs = REG32 regs SMIO_CS; l = REG32 regs SMIO_L; a = REG32 regs SMIO_A in
     obind (smi_packed_ratio cxt) (\<lambda>ratio.
     obind (word_reads_of ratio len) (\<lambda>word_reads.
     case grow_raw_buffer m cxt word_reads w of
       (None, w) \<Rightarrow> Returns (- 1, cxt, ret_data, w)
     | (Some cxt, w) \<Rightarrow>
         obind (deref (rw_config cxt)) (\<lambda>rw.
         obind (config0 cxt) (\<lambda>(rc, wc).
         let w = fset m a A_device (byte32 (read_device_num rw)) w;
             dsr = REG32 regs (SMIO_DSR (read_device_num rw));
             dsw = REG32 regs (SMIO_DSW (write_device_num rw));
             w = fset m dsr DSR_rwidth (byte32 (rwidth rc)) w;
             w = fset m dsw DSW_wformat (bool32 (wformat wc)) w;
             w = fset m dsw DSW_wswap (bool32 (wswap wc)) w;
             w = fsets m cs (programmed_read_setup cxt) w;
             w = st32 m l (word_of_int len) w;
             w = fset m a A_addr (byte32 addr) w in
         obind (smi_start m cxt w) (\<lambda>w.
         obind (smi_read_await m fuel cxt (rb_buf (raw_buffer cxt)) word_reads w) (\<lambda>(cnt, raw, w).
         let cxt = cxt\<lparr>raw_buffer := (raw_buffer cxt)\<lparr>rb_buf := raw\<rparr>\<rparr>;
             raw_data = old_words (raw_buffer cxt) in
         obind (if pxldata cxt
                then obind (smi_unpack cxt raw_data ret_data (unat (word_of_int word_reads :: size_t)))
                  (\<lambda>(_, ret_data). Returns ret_data)
                else smi_truncate cxt raw_data ret_data (unat (word_of_int cnt :: size_t))) (\<lambda>ret_data.
         Returns (cnt, cxt, ret_data, w)))))))))"

definition smi_programmed_read ::
  "'h machine \<Rightarrow> nat \<Rightarrow> SMI_CXT \<Rightarrow> u8 list \<Rightarrow> u8 \<Rightarrow> 'h world
     \<Rightarrow> (int \<times> SMI_CXT \<times> u8 list \<times> 'h world) outcome" where
  "smi_programmed_read m fuel cxt ret_data addr w = smi_programmed_read_arr m fuel cxt ret_data addr 1 w"

definition programmed_write_setup :: "SMI_CXT \<Rightarrow> (field \<times> u32) list" where
  "programmed_write_setup cxt =
     [(CS_aferr, 0), (CS_seterr, 1), (CS_done, 1), (CS_enable, 1), (CS_write, 1), (CS_clear, 1),
      (CS_pxldat, 0), (CS_pad, bool32 (pad cxt)), (CS_prdy, bool32 (prdy cxt)),
      (CS_intr, bool32 (intr cxt)), (CS_intd, bool32 (intd cxt)), (CS_intt, bool32 (intt cxt))]"

definition smi_programmed_write_arr ::
  "'h machine \<Rightarrow> nat \<Rightarrow> SMI_CXT \<Rightarrow> u32 list option \<Rightarrow> u8 \<Rightarrow> int \<Rightarrow> 'h world
     \<Rightarrow> (int \<times> 'h world) outcome" where
  "smi_programmed_write_arr m fuel cxt data addr len w =
     obind (deref (smi_regs cxt)) (\<lambda>regs.
     let cs = REG32 regs SMIO_CS; l = REG32 regs SMIO_L; a = REG32 regs SMIO_A;
         w = fsets m cs (programmed_write_setup cxt) w;
         w = st32 m l (word_of_int len) w;
         w = fset m a A_addr (byte32 addr) w in
     obind (smi_start m cxt w) (\<lambda>w.
     smi_write_await m fuel (Some cxt) data len w))"

definition smi_programmed_write ::
  "'h machine \<Rightarrow> nat \<Rightarrow> SMI_CXT \<Rightarrow> u32 \<Rightarrow> u8 \<Rightarrow> 'h world \<Rightarrow> (int \<times> 'h world) outcome" where
  "smi_programmed_write m fuel cxt data addr w =
     smi_programmed_write_arr m fuel cxt (Some [data]) addr 1 w"

section \<open>Registers apart\<close>

lemma SMIO_DSR_unat: "unat (SMIO_DSR n) = 16 + 8 * unat n"
proof -
  have "unat n < 256" using unsigned_less [of n, where ?'a = nat] by simp
  then show ?thesis by (simp add: SMIO_DSR_def unat_word_ariths unsigned_ucast_eq take_bit_nat_eq_self)
qed

lemma SMIO_DSW_unat: "unat (SMIO_DSW n) = 20 + 8 * unat n"
proof -
  have "unat n < 256" using unsigned_less [of n, where ?'a = nat] by simp
  then show ?thesis by (simp add: SMIO_DSW_def unat_word_ariths SMIO_DSR_unat)
qed

text \<open>No device settings register, whatever the device number, is the data register.\<close>

lemma settings_apart [simp]:
  "REG32 regs SMIO_D \<noteq> REG32 regs (SMIO_DSR n)" "REG32 regs SMIO_D \<noteq> REG32 regs (SMIO_DSW n)"
  using SMIO_DSR_unat [of n] SMIO_DSW_unat [of n]
  by (auto simp: REG32_def SMIO_D_def dest: arg_cong [where f = unat])

lemma data_apart [simp]:
  "REG32 regs SMIO_D \<noteq> REG32 regs SMIO_L" "REG32 regs SMIO_D \<noteq> REG32 regs SMIO_A"
  by (simp_all add: REG32_def offset_defs)

lemma fsets_logs [simp]:
  "b \<noteq> a \<Longrightarrow> loads_from b (log (fsets m a xs w)) = loads_from b (log w)"
  "b \<noteq> a \<Longrightarrow> stores_to b (fsets m a xs w) = stores_to b w"
  by (induction xs arbitrary: w) auto

lemma setup_apart:
  "REG32 regs SMIO_L \<noteq> REG32 regs SMIO_CS" "REG32 regs SMIO_A \<noteq> REG32 regs SMIO_CS"
  "REG32 regs SMIO_L \<noteq> REG32 regs SMIO_A" "REG32 regs SMIO_A \<noteq> REG32 regs SMIO_L"
  "REG32 regs SMIO_L \<noteq> REG32 regs SMIO_D" "REG32 regs SMIO_A \<noteq> REG32 regs SMIO_D"
  by (simp_all add: REG32_def offset_defs)

lemma clock_law_fsets: "clock_law m now \<Longrightarrow> now (hw w) \<le> now (hw (fsets m a xs w))"
proof (induction xs arbitrary: w)
  case (Cons x xs)
  then have "now (hw (fset m a (fst x) (snd x) w)) \<le> now (hw (fsets m a xs (fset m a (fst x) (snd x) w)))"
    by simp
  with clock_law_fields(2) [OF Cons.prems, of w a "fst x" "snd x"] show ?case
    by (cases x) simp
qed simp

lemma realloc_logs [simp]:
  "loads_from b (log (snd (realloc32 m n buf w))) = loads_from b (log w)"
  "stores_to b (snd (realloc32 m n buf w)) = stores_to b w"
  by (simp_all add: realloc32_def split_beta Let_def stores_to_def)

section \<open>Sizes\<close>

text \<open>The words and groups a packed read of \<open>n\<close> pixels takes.\<close>

definition packed_words :: "unpack_format \<Rightarrow> nat \<Rightarrow> nat" where
  "packed_words fmt n = (n * fmt_words fmt + length (fmt_pixels fmt) - 1) div length (fmt_pixels fmt)"

definition packed_groups :: "unpack_format \<Rightarrow> nat \<Rightarrow> nat" where
  "packed_groups fmt n = packed_words fmt n div fmt_words fmt"

lemma word_reads_fmt:
  assumes "0 \<le> len" and "len < 2 ^ 30 - 1" and "unpack_format_of w f s = Some fmt"
  shows "word_reads_of (mk_ratio (of_nat (fmt_words fmt)) (of_nat (length (fmt_pixels fmt)))) len =
      Returns (int (packed_words fmt (nat len)))"
    and "packed_words fmt (nat len) \<le> 2 * nat len"
proof -
  have r: "fmt_words fmt = 1 \<and> length (fmt_pixels fmt) \<in> {1, 2, 3, 4} \<or>
      fmt_words fmt = 2 \<and> length (fmt_pixels fmt) = 3"
    using assms(3) by (auto simp: unpack_format_of_def fmt_defs split: if_splits)
  have u: "uint (of_nat (fmt_words fmt) :: u8) = int (fmt_words fmt)"
    "uint (of_nat (length (fmt_pixels fmt)) :: u8) = int (length (fmt_pixels fmt))"
    using r by auto
  have mul: "c_int (len * int (fmt_words fmt)) = Returns (len * int (fmt_words fmt))"
    using r assms(1,2) by (intro c_int_fits) auto
  have "word_reads_of (mk_ratio (of_nat (fmt_words fmt)) (of_nat (length (fmt_pixels fmt)))) len =
      Returns ((len * int (fmt_words fmt) + int (length (fmt_pixels fmt)) - 1) div int (length (fmt_pixels fmt)))"
    unfolding word_reads_of_def mk_ratio_def smi_pack_ratio_t.simps u mul obind.simps
    using assms(1,2) r by (intro SMI_DIV_CEIL_pos) auto
  also have "(len * int (fmt_words fmt) + int (length (fmt_pixels fmt)) - 1) div int (length (fmt_pixels fmt))
      = int (packed_words fmt (nat len))"
    using r assms(1) unfolding packed_words_def by (auto simp: zdiv_int)
  finally show "word_reads_of (mk_ratio (of_nat (fmt_words fmt)) (of_nat (length (fmt_pixels fmt)))) len =
      Returns (int (packed_words fmt (nat len)))" .
  show "packed_words fmt (nat len) \<le> 2 * nat len"
    using r unfolding packed_words_def by (elim disjE conjE insertE) auto
qed

lemma word_reads_unpacked:
  assumes "0 \<le> len" and "len < 2 ^ 31"
  shows "word_reads_of (mk_ratio 1 1) len = (if len = INT_MAX then Undefined else Returns len)"
  using assms by (auto simp: word_reads_of_def mk_ratio_def SMI_DIV_CEIL_def c_int_def INT_MAX_def INT_MIN_def sdiv_pos)

lemma grow_raw_buffer_result:
  assumes "alloc_law m" and "wf_raw (raw_buffer cxt)" and "0 \<le> k" and "k < 2 ^ 62"
  shows "case grow_raw_buffer m cxt k w of
      (None, w') \<Rightarrow> word_of_int k > rb_size (raw_buffer cxt) \<and>
        fst (realloc32 m (word_of_int k * 4) (old_words (raw_buffer cxt)) w) = None
    | (Some cxt', w') \<Rightarrow> wf_raw (raw_buffer cxt') \<and> nat k \<le> length (old_words (raw_buffer cxt')) \<and>
        (\<exists>rb. cxt' = cxt\<lparr>raw_buffer := rb\<rparr>) \<and> rb_buf (raw_buffer cxt') = Some (old_words (raw_buffer cxt'))"
proof -
  have k: "unat (word_of_int k :: size_t) = nat k" using assms(3,4) by (intro size_t_of_int) simp_all
  have "nat k < 2 ^ 62" using assms(3,4) by (simp add: nat_less_iff)
  then have "unat (word_of_int k * 4 :: size_t) = nat k * 4"
    using k unat_mult_lem [of "word_of_int k :: size_t" 4] by simp
  then have k4: "unat (word_of_int k * 4 :: size_t) div 4 = nat k" by simp
  obtain xs where xs: "rb_buf (raw_buffer cxt) = Some xs" "length xs = unat (rb_size (raw_buffer cxt))"
    using assms(2) by (auto simp: wf_raw_def)
  show ?thesis
  proof (cases "word_of_int k > rb_size (raw_buffer cxt)")
    case False
    then have "nat k \<le> length xs" using xs k by (simp add: word_less_nat_alt)
    moreover have "\<exists>rb. cxt = cxt\<lparr>raw_buffer := rb\<rparr>"
      by (rule exI [of _ "raw_buffer cxt"]) simp
    moreover have "grow_raw_buffer m cxt k w = (Some cxt, w)"
      using False by (simp add: grow_raw_buffer_def)
    ultimately show ?thesis
      using xs(1) assms(2) by (simp add: old_words_def)
  next
    case True
    obtain nb w2 where re: "realloc32 m (word_of_int k * 4) (old_words (raw_buffer cxt)) w = (nb, w2)"
      by fastforce
    show ?thesis
    proof (cases nb)
      case None
      with True re show ?thesis by (simp add: grow_raw_buffer_def)
    next
      case (Some ys)
      then have "length ys = nat k"
        using alloc_lawD(1) [OF assms(1) re [unfolded Some]] k4 by simp
      moreover have "grow_raw_buffer m cxt k w =
          (Some (cxt\<lparr>raw_buffer := \<lparr>rb_buf = Some ys, rb_size = word_of_int k\<rparr>\<rparr>), w2)"
        using True re Some by (simp add: grow_raw_buffer_def)
      ultimately show ?thesis using k by (auto simp: wf_raw_def old_words_def)
    qed
  qed
qed

lemma byte_stream_prefix:
  assumes "fmt_words fmt * n \<le> length xs"
  shows "byte_stream fmt n (xs @ ys) = byte_stream fmt n xs"
proof -
  have "group fmt (xs @ ys) i = group fmt xs i" if "i < n" for i
  proof -
    have "fmt_words fmt * Suc i \<le> length xs"
      using assms that by (meson Suc_leI le_trans mult_le_mono2)
    then show ?thesis by (simp add: group_def)
  qed
  then have "map (\<lambda>i. pixels_of fmt (group fmt (xs @ ys) i)) [0..<n] =
      map (\<lambda>i. pixels_of fmt (group fmt xs i)) [0..<n]"
    by (intro map_cong) auto
  then show ?thesis by (simp only: byte_stream_def pixel_stream_def)
qed

section \<open>Programmed reads\<close>

text \<open>The registers set up before the await loop, as one function of the world.\<close>

definition read_prepared :: "'h machine \<Rightarrow> MEM_MAP \<Rightarrow> SMI_CXT \<Rightarrow> SMI_RW \<Rightarrow> u8 \<Rightarrow> int \<Rightarrow> 'h world \<Rightarrow> 'h world" where
  "read_prepared m regs cxt rw addr len w =
     fset m (REG32 regs SMIO_CS) CS_start 1
     (fset m (REG32 regs SMIO_A) A_addr (byte32 addr)
     (st32 m (REG32 regs SMIO_L) (word_of_int len)
     (fsets m (REG32 regs SMIO_CS) (programmed_read_setup cxt)
     (fset m (REG32 regs (SMIO_DSW (write_device_num rw))) DSW_wswap (bool32 (wswap (wconfig rw ! 0)))
     (fset m (REG32 regs (SMIO_DSW (write_device_num rw))) DSW_wformat (bool32 (wformat (wconfig rw ! 0)))
     (fset m (REG32 regs (SMIO_DSR (read_device_num rw))) DSR_rwidth (byte32 (rwidth (rconfig rw ! 0)))
     (fset m (REG32 regs SMIO_A) A_device (byte32 (read_device_num rw)) w)))))))"

lemma read_prepared_loads:
  "loads_from (REG32 regs SMIO_D) (log (read_prepared m regs cxt rw addr len w)) =
     loads_from (REG32 regs SMIO_D) (log w)"
  by (simp add: read_prepared_def)

lemma read_prepared_later:
  assumes "clock_law m now"
  shows "now (hw w) \<le> now (hw (read_prepared m regs cxt rw addr len w))"
proof -
  note s1 = clock_law_fields(2) [OF assms] and s2 = clock_law_simps(4) [OF assms]
    and s3 = clock_law_fsets [OF assms]
  show ?thesis
    unfolding read_prepared_def
    by (rule order_trans [OF _ s1], rule order_trans [OF _ s1], rule order_trans [OF _ s2],
        rule order_trans [OF _ s3], rule order_trans [OF _ s1], rule order_trans [OF _ s1],
        rule order_trans [OF _ s1], rule s1)
qed

lemma programmed_read_steps:
  assumes "smi_regs cxt = Some regs" and "rw_config cxt = Some rw" and "wf_rw rw"
    and "smi_packed_ratio cxt = Returns ratio" and k: "word_reads_of ratio len = Returns k"
    and grow: "grow_raw_buffer m cxt k w = (Some (cxt\<lparr>raw_buffer := rb\<rparr>), w1)"
    and await: "smi_read_await m fuel (cxt\<lparr>raw_buffer := rb\<rparr>) (rb_buf rb) k
      (read_prepared m regs cxt rw addr len w1) = Returns (r, Some raw, w2)"
  shows "smi_programmed_read_arr m fuel cxt ret_data addr len w =
    obind (if pxldata cxt
           then obind (smi_unpack cxt raw ret_data (unat (word_of_int k :: size_t)))
             (\<lambda>(_, ret_data). Returns ret_data)
           else smi_truncate cxt raw ret_data (unat (word_of_int r :: size_t)))
      (\<lambda>ret_data. Returns (r, cxt\<lparr>raw_buffer := rb\<lparr>rb_buf := Some raw\<rparr>\<rparr>, ret_data, w2))"
proof -
  have "config0 (cxt\<lparr>raw_buffer := x\<rparr>) = Returns (rconfig rw ! 0, wconfig rw ! 0)" for x
    using assms(2,3) by (simp add: config0_wf)
  moreover have "smi_unpack (cxt\<lparr>raw_buffer := x\<rparr>) = smi_unpack cxt" for x
    by (intro ext) (simp add: smi_unpack_def cong: config0_cong)
  moreover have "smi_truncate (cxt\<lparr>raw_buffer := x\<rparr>) = smi_truncate cxt" for x
    by (intro ext) (simp add: smi_truncate_def cong: config0_cong)
  moreover have "programmed_read_setup (cxt\<lparr>raw_buffer := rb\<rparr>) = programmed_read_setup cxt"
    by (simp add: programmed_read_setup_def)
  ultimately show ?thesis
    using assms(1,2,4) k grow await
    by (simp add: smi_programmed_read_arr_def smi_start_def Let_def read_prepared_def old_words_def
        del: One_nat_def fsets_simps)
qed

text \<open>What \<^verbatim>\<open>smi_unpack\<close> does, for the proofs that use it.\<close>

lemma smi_unpack_fills:
  assumes "config0 cxt = Returns (rc, wc)"
    and "unpack_format_of (rwidth rc) (wformat wc) (wswap wc) = Some fmt"
  shows "smi_unpack cxt raw out n =
    obind (fills fmt raw out (n div fmt_words fmt)) (\<lambda>out. Returns (SMI_OK, out))"
  using assms by (auto simp: smi_unpack_def Let_def unpackers_fill unpack_format_of_def fmt_defs
      simp del: obind_eq_Undefined obind_eq_Returns)

lemma smi_packed_ratio_of:
  assumes "config0 cxt = Returns (rc, wc)" and "pxldata cxt"
    and "unpack_format_of (rwidth rc) (wformat wc) (wswap wc) = Some fmt"
  shows "smi_packed_ratio cxt = Returns (mk_ratio (of_nat (fmt_words fmt)) (of_nat (length (fmt_pixels fmt))))"
  using assms by (auto simp: smi_packed_ratio_def unpack_format_of_def fmt_defs split: if_splits)

lemma overlay_prefix: "overlay buf 0 xs = xs @ drop (length xs) buf"
  by (simp add: overlay_def)

lemma fills_prefix:
  assumes "fmt_words fmt * n \<le> length xs" and "fmt_bytes fmt * n \<le> length out"
  shows "fills fmt (overlay buf 0 xs) out n = Returns (overlay out 0 (byte_stream fmt n xs))"
  using assms by (simp add: fills_def overlay_prefix byte_stream_prefix)

text \<open>The format a context unpacks to.\<close>

definition format_of_cxt :: "SMI_CXT \<Rightarrow> unpack_format option" where
  "format_of_cxt cxt = (case config0 cxt of
     Returns (rc, wc) \<Rightarrow> unpack_format_of (rwidth rc) (wformat wc) (wswap wc) | _ \<Rightarrow> None)"

lemma unpack_read_words:
  assumes "config0 cxt = Returns (rc, wc)"
    and "unpack_format_of (rwidth rc) (wformat wc) (wswap wc) = Some fmt"
    and "length xs \<le> n" and "n \<le> length buf" and "fmt_bytes fmt * (n div fmt_words fmt) \<le> length ret"
  shows "\<exists>ret'. smi_unpack cxt (overlay buf 0 xs) ret n = Returns (SMI_OK, ret') \<and>
    length ret' = length ret \<and>
    (length xs = n \<longrightarrow> ret' = overlay ret 0 (byte_stream fmt (n div fmt_words fmt) xs))"
proof (cases "length xs = n")
  case True
  have "fmt_words fmt * (n div fmt_words fmt) \<le> length xs" by (simp add: True)
  then show ?thesis
    using True assms(5) by (simp add: smi_unpack_fills [OF assms(1,2)] fills_prefix length_byte_stream)
next
  case False
  have "fmt_words fmt * (n div fmt_words fmt) \<le> n" by simp
  also have "n \<le> length (overlay buf 0 xs)" using assms(3,4) by simp
  finally have "fmt_words fmt * (n div fmt_words fmt) \<le> length (overlay buf 0 xs)" .
  then show ?thesis
    using False assms(5) by (simp add: smi_unpack_fills [OF assms(1,2)] fills_def length_byte_stream)
qed

lemma programmed_read_packed:
  assumes law: "clock_law m now" and "alloc_law m" and regs: "smi_regs cxt = Some regs"
    and wf: "wf_cxt cxt" and px: "pxldata cxt" and fmt: "format_of_cxt cxt = Some fmt"
    and len: "0 \<le> len" "len < 2 ^ 30 - 1"
    and room: "fmt_bytes fmt * packed_groups fmt (nat len) \<le> length ret"
    and fuel: "packed_words fmt (nat len) * 513 + 500512 < fuel"
  shows "\<exists>r cxt' ret' w'. smi_programmed_read_arr m fuel cxt ret addr len w = Returns (r, cxt', ret', w') \<and>
    wf_cxt cxt' \<and> (\<exists>rb. cxt' = cxt\<lparr>raw_buffer := rb\<rparr>) \<and> length ret' = length ret \<and>
    (\<exists>xs. loads_from (REG32 regs SMIO_D) (log w') = loads_from (REG32 regs SMIO_D) (log w) @ xs \<and>
       (r = - 1 \<and> ret' = ret \<and> xs = [] \<and>
          rb_size (raw_buffer cxt) < of_nat (packed_words fmt (nat len)) \<and>
          fst (realloc32 m (of_nat (packed_words fmt (nat len)) * 4) (old_words (raw_buffer cxt)) w) = None \<or>
        r = int (packed_words fmt (nat len)) \<and> length xs = packed_words fmt (nat len) \<and>
          ret' = overlay ret 0 (byte_stream fmt (packed_groups fmt (nat len)) xs) \<or>
        r = 21 \<and> length xs < packed_words fmt (nat len) \<and>
          now (hw (snd (grow_raw_buffer m cxt (int (packed_words fmt (nat len))) w))) + 50000000000
            \<le> now (hw w')))"
proof -
  obtain rw where rw: "rw_config cxt = Some rw" "wf_rw rw" and raw: "wf_raw (raw_buffer cxt)"
    using wf by (auto simp: wf_cxt_def)
  define rc wc where "rc = rconfig rw ! 0" and "wc = wconfig rw ! 0"
  have cfg: "config0 cxt = Returns (rc, wc)" unfolding rc_def wc_def using rw by (rule config0_wf)
  have fmt': "unpack_format_of (rwidth rc) (wformat wc) (wswap wc) = Some fmt"
    using fmt by (simp add: format_of_cxt_def cfg)
  define ratio where "ratio = mk_ratio (of_nat (fmt_words fmt)) (of_nat (length (fmt_pixels fmt)))"
  define k where "k = int (packed_words fmt (nat len))"
  have words: "word_reads_of ratio len = Returns k"
    unfolding ratio_def k_def by (rule word_reads_fmt(1) [OF len fmt'])
  have k: "0 \<le> k" "k \<le> 2 * len" "nat k = packed_words fmt (nat len)"
    using word_reads_fmt(2) [OF len fmt'] len(1) by (simp_all add: k_def)
  have ratio: "smi_packed_ratio cxt = Returns ratio"
    unfolding ratio_def by (rule smi_packed_ratio_of [OF cfg px fmt'])
  have "k < 2 ^ 62" using k len by simp
  note grown = grow_raw_buffer_result [OF assms(2) raw k(1) this, of w]
  obtain c w1 where grow: "grow_raw_buffer m cxt k w = (c, w1)" by fastforce
  have w1: "loads_from (REG32 regs SMIO_D) (log w1) = loads_from (REG32 regs SMIO_D) (log w)"
    using grow by (auto simp: grow_raw_buffer_def split_beta Let_def split: if_splits)
  show ?thesis
  proof (cases c)
    case None
    then have "smi_programmed_read_arr m fuel cxt ret addr len w = Returns (- 1, cxt, ret, w1)"
      using grow regs ratio words by (simp add: smi_programmed_read_arr_def Let_def)
    moreover have "rb_size (raw_buffer cxt) < of_nat (packed_words fmt (nat len)) \<and>
        fst (realloc32 m (of_nat (packed_words fmt (nat len)) * 4) (old_words (raw_buffer cxt)) w) = None"
      using grown grow None by (simp add: k_def)
    moreover have "cxt = cxt\<lparr>raw_buffer := raw_buffer cxt\<rparr>" by simp
    moreover have "loads_from (REG32 regs SMIO_D) (log w1) = loads_from (REG32 regs SMIO_D) (log w) @ []"
      using w1 by simp
    ultimately show ?thesis using wf by blast
  next
    case (Some cxt1)
    with grown grow obtain rb where cxt1: "cxt1 = cxt\<lparr>raw_buffer := rb\<rparr>"
      and rb: "wf_raw rb" "nat k \<le> length (old_words rb)" "rb_buf rb = Some (old_words rb)"
      by auto
    let ?w = "read_prepared m regs cxt rw addr len w1"
    have "smi_regs cxt1 = Some regs" using regs by (simp add: cxt1)
    moreover have "nat k * 513 + 500512 < fuel" using fuel k(3) by simp
    ultimately obtain r buf' w' xs where
      await: "smi_read_await m fuel cxt1 (Some (old_words rb)) k ?w = Returns (r, Some buf', w')"
      and buf': "buf' = overlay (old_words rb) 0 xs"
      and xs: "loads_from (REG32 regs SMIO_D) (log w') = loads_from (REG32 regs SMIO_D) (log ?w) @ xs"
      and r: "if length xs = nat k then r = int (nat k)
        else length xs < nat k \<and> r = 21 \<and> now (hw ?w) + 50000000000 \<le> now (hw w')"
      using smi_read_await_total [OF law _ rb(2), of cxt1 regs fuel ?w] by (metis (no_types, lifting))
    have lenb: "length xs \<le> nat k" "length buf' = length (old_words rb)"
      using r rb(2) by (simp_all add: buf' split: if_splits)
    have uk: "unat (word_of_int k :: size_t) = nat k"
      using k len by (intro size_t_of_int) simp_all
    from unpack_read_words [OF cfg fmt' lenb(1) rb(2), of ret] room obtain ret' where
      ret': "smi_unpack cxt buf' ret (nat k) = Returns (SMI_OK, ret')" "length ret' = length ret"
      and same: "length xs = nat k \<Longrightarrow>
        ret' = overlay ret 0 (byte_stream fmt (packed_groups fmt (nat len)) xs)"
      by (auto simp: buf' packed_groups_def k(3))
    have run: "smi_programmed_read_arr m fuel cxt ret addr len w =
        Returns (r, cxt\<lparr>raw_buffer := rb\<lparr>rb_buf := Some buf'\<rparr>\<rparr>, ret', w')"
      using programmed_read_steps [OF regs rw ratio words, of m w rb w1 fuel addr r buf' w' ret]
        grow await rb(3) ret'(1) px uk by (simp add: cxt1 Some)
    have "wf_cxt (cxt\<lparr>raw_buffer := rb\<lparr>rb_buf := Some buf'\<rparr>\<rparr>)"
      using rw rb lenb by (auto simp: wf_cxt_def wf_raw_def)
    moreover have "loads_from (REG32 regs SMIO_D) (log w') = loads_from (REG32 regs SMIO_D) (log w) @ xs"
      using xs w1 by (simp add: read_prepared_loads)
    moreover have "r = int (packed_words fmt (nat len)) \<and> length xs = packed_words fmt (nat len) \<and>
          ret' = overlay ret 0 (byte_stream fmt (packed_groups fmt (nat len)) xs) \<or>
        r = 21 \<and> length xs < packed_words fmt (nat len) \<and> now (hw w1) + 50000000000 \<le> now (hw w')"
      using r same k(3) read_prepared_later [OF law, of w1 regs cxt rw addr len] by (auto split: if_splits)
    moreover have "snd (grow_raw_buffer m cxt (int (packed_words fmt (nat len))) w) = w1"
      using grow by (simp add: k_def)
    moreover have "\<exists>rb'. cxt\<lparr>raw_buffer := rb\<lparr>rb_buf := Some buf'\<rparr>\<rparr> = cxt\<lparr>raw_buffer := rb'\<rparr>" by blast
    ultimately show ?thesis using run ret'(2) by blast
  qed
qed

lemma programmed_read_too_small:
  assumes law: "clock_law m now" and regs: "smi_regs cxt = Some regs"
    and wf: "wf_cxt cxt" and px: "pxldata cxt" and fmt: "format_of_cxt cxt = Some fmt"
    and size: "fmt_words fmt = 1" "rb_size (raw_buffer cxt) \<noteq> 0" "length ret < fmt_bytes fmt"
    and fuel: "501025 < fuel"
  shows "smi_programmed_read m fuel cxt ret addr w = Undefined"
proof -
  obtain rw where rw: "rw_config cxt = Some rw" "wf_rw rw" using wf by (auto simp: wf_cxt_def)
  obtain buf :: "u32 list" where buf: "rb_buf (raw_buffer cxt) = Some buf" "1 \<le> length buf"
  proof -
    obtain xs where "rb_buf (raw_buffer cxt) = Some xs" "length xs = unat (rb_size (raw_buffer cxt))"
      using wf by (auto simp: wf_cxt_def wf_raw_def)
    moreover have "0 < unat (rb_size (raw_buffer cxt))" using size(2) unat_gt_0 by blast
    ultimately show ?thesis using that [of xs] by linarith
  qed
  define rc wc where "rc = rconfig rw ! 0" and "wc = wconfig rw ! 0"
  have cfg: "config0 cxt = Returns (rc, wc)" unfolding rc_def wc_def using rw by (rule config0_wf)
  have fmt': "unpack_format_of (rwidth rc) (wformat wc) (wswap wc) = Some fmt"
    using fmt by (simp add: format_of_cxt_def cfg)
  define ratio where "ratio = mk_ratio (of_nat (fmt_words fmt)) (of_nat (length (fmt_pixels fmt)))"
  have p: "length (fmt_pixels fmt) \<in> {1, 2, 3, 4}"
    using fmt' by (auto simp: unpack_format_of_def fmt_defs split: if_splits)
  then have "packed_words fmt (nat 1) = 1" using size(1) by (auto simp: packed_words_def)
  then have k: "word_reads_of ratio 1 = Returns 1"
    using word_reads_fmt(1) [of 1, OF _ _ fmt'] by (simp add: ratio_def)
  have ratio: "smi_packed_ratio cxt = Returns ratio"
    unfolding ratio_def by (rule smi_packed_ratio_of [OF cfg px fmt'])
  let ?c = "cxt\<lparr>raw_buffer := raw_buffer cxt\<rparr>"
  have "\<not> 1 > rb_size (raw_buffer cxt)" using size(2) by (simp add: word_less_nat_alt unat_eq_0 flip: unat_gt_0)
  then have grow: "grow_raw_buffer m cxt 1 w = (Some ?c, w)"
    by (simp add: grow_raw_buffer_def)
  let ?w = "read_prepared m regs cxt rw addr 1 w"
  have "nat 1 \<le> length buf" using buf by simp
  from smi_read_await_total [OF law _ this, of cxt regs fuel ?w] obtain r raw w2 where
    await: "smi_read_await m fuel cxt (Some buf) 1 ?w = Returns (r, Some raw, w2)"
    using regs fuel by fastforce
  have "smi_unpack cxt raw ret 1 = Undefined"
    using smi_unpack_fills [OF cfg fmt', of raw ret 1] size by (simp add: fills_def)
  then show ?thesis
    using programmed_read_steps [OF regs rw ratio k grow, of fuel addr r raw w2 ret] await buf px
    by (simp add: smi_programmed_read_def)
qed

lemma direct_read_loads [simp]:
  "REG32 regs SMIO_DD \<noteq> REG32 regs SMIO_DSR0" by (simp add: REG32_def offset_defs)

lemma packed_cover:
  assumes "unpack_format_of w f s = Some fmt"
  shows "packed_groups fmt n * length (fmt_pixels fmt) < n + 4 \<and>
    (n \<le> packed_groups fmt n * length (fmt_pixels fmt) \<longleftrightarrow> \<not> (fmt_words fmt = 2 \<and> n mod 3 = 1))"
proof -
  have "fmt_words fmt = 1 \<and> length (fmt_pixels fmt) \<in> {1, 2, 3, 4} \<or> fmt_words fmt = 2 \<and> length (fmt_pixels fmt) = 3"
    using assms by (auto simp: unpack_format_of_def fmt_defs split: if_splits)
  then show ?thesis
  proof (elim disjE conjE insertE emptyE)
    assume "fmt_words fmt = 1" "length (fmt_pixels fmt) = 1"
    then show ?thesis by (simp add: packed_groups_def packed_words_def)
  next
    assume "fmt_words fmt = 1" "length (fmt_pixels fmt) = 2"
    then show ?thesis by (simp add: packed_groups_def packed_words_def) presburger
  next
    assume "fmt_words fmt = 1" "length (fmt_pixels fmt) = 3"
    then show ?thesis by (simp add: packed_groups_def packed_words_def) presburger
  next
    assume "fmt_words fmt = 1" "length (fmt_pixels fmt) = 4"
    then show ?thesis by (simp add: packed_groups_def packed_words_def) presburger
  next
    assume two: "fmt_words fmt = 2" "length (fmt_pixels fmt) = 3"
    define q r where "q = n div 3" and "r = n mod 3"
    have n: "n = 3 * q + r" and r: "r < 3" by (simp_all add: q_def r_def)
    from r consider "r = 0" | "r = 1" | "r = 2" by linarith
    then have g: "packed_groups fmt n = q + (if r = 2 then 1 else 0)"
      by cases (simp_all add: packed_groups_def packed_words_def two n)
    show ?thesis
      unfolding g two r_def [symmetric] using r by (simp add: n, presburger)
  qed
qed

section \<open>Reads that time out\<close>

definition never_ready :: "'h machine \<Rightarrow> uintptr \<Rightarrow> bool" where
  "never_ready m cs \<longleftrightarrow> (\<forall>h. bf_get CS_rxd (fst (m_ld m cs h)) = 0)"

lemma read_await_never_ready:
  assumes "never_ready m cs" and "0 < len"
  shows "loop fuel (read_await_body m cs d dl len) (0, 0, buf, w) = OutOfFuel \<or>
    (\<exists>w'. loop fuel (read_await_body m cs d dl len) (0, 0, buf, w) = Returns (21, buf, w'))"
proof (rule loop_partial [where I = "\<lambda>(cnt, k, b, w). cnt = 0 \<and> b = buf"], goal_cases)
  case (1 s s')
  have "fst (fget m cs CS_rxd v) = 0" for v
    using assms(1) by (simp add: never_ready_def fget_def ld32_def split_beta Let_def)
  with 1 assms(2) show ?case
    by (cases s) (auto simp: read_await_body_def split_beta Let_def split: if_splits)
next
  case (2 s r)
  have "fst (fget m cs CS_rxd v) = 0" for v
    using assms(1) by (simp add: never_ready_def fget_def ld32_def split_beta Let_def)
  with 2 assms(2) show ?case
    by (cases s) (auto simp: read_await_body_def SMI_ERR_TIMEOUT_def split_beta Let_def split: if_splits)
qed simp_all

lemma smi_read_await_never_ready:
  assumes "clock_law m now" and "smi_regs cxt = Some regs" and "never_ready m (REG32 regs SMIO_CS)"
    and "0 < len" and "nat len \<le> length buf" and "nat len * 513 + 500512 < fuel"
  shows "\<exists>w'. smi_read_await m fuel cxt (Some buf) len w = Returns (21, Some buf, w')"
proof -
  obtain r buf' w' where "smi_read_await m fuel cxt (Some buf) len w = Returns (r, Some buf', w')"
    using smi_read_await_total [OF assms(1,2,5,6)] by blast
  then show ?thesis
    using assms(2) read_await_never_ready [OF assms(3,4), of fuel "REG32 regs SMIO_D"
        "fst (start_timeout m PROG_READ_TIMEOUT_S w)" buf "snd (start_timeout m PROG_READ_TIMEOUT_S w)"]
    by (auto simp: smi_read_await_def split_beta Let_def)
qed

lemma truncate_fills:
  assumes "config0 cxt = Returns (rc, wc)" and "truncate_format_of (rwidth rc) = Some fmt"
  shows "smi_truncate cxt raw out n = fills fmt raw out n"
  using assms by (auto simp: smi_truncate_def truncators_fill truncate_format_of_def split: if_splits)

lemma programmed_read_timeout:
  assumes law: "clock_law m now" and regs: "smi_regs cxt = Some regs"
    and wf: "wf_cxt cxt" and px: "\<not> pxldata cxt"
    and width: "config0 cxt = Returns (rc, wc)" "truncate_format_of (rwidth rc) = Some fmt"
    and len: "0 < len" "len \<le> int (unat (rb_size (raw_buffer cxt)))" "len < 2 ^ 31"
    and small: "unat (rb_size (raw_buffer cxt)) < 21 \<or> length ret < fmt_bytes fmt * 21"
    and dead: "never_ready m (REG32 regs SMIO_CS)" and fuel: "nat len * 513 + 500512 < fuel"
  shows "smi_programmed_read_arr m fuel cxt ret addr len w = Undefined"
proof -
  obtain rw where rw: "rw_config cxt = Some rw" "wf_rw rw" using wf by (auto simp: wf_cxt_def)
  obtain buf where buf: "rb_buf (raw_buffer cxt) = Some buf" "length buf = unat (rb_size (raw_buffer cxt))"
    using wf by (auto simp: wf_cxt_def wf_raw_def)
  have ratio: "smi_packed_ratio cxt = Returns (mk_ratio 1 1)"
    using width(1) px by (simp add: smi_packed_ratio_def)
  note k = word_reads_unpacked [OF less_imp_le [OF len(1)] len(3)]
  have fits: "nat len \<le> unat (rb_size (raw_buffer cxt))" using len(2) by linarith
  have "unat (word_of_int len :: size_t) = nat len"
    using len by (intro size_t_of_int) simp_all
  then have "\<not> word_of_int len > rb_size (raw_buffer cxt)"
    using fits by (simp add: word_less_nat_alt)
  then have grow: "grow_raw_buffer m cxt len w = (Some (cxt\<lparr>raw_buffer := raw_buffer cxt\<rparr>), w)"
    by (simp add: grow_raw_buffer_def)
  let ?w = "read_prepared m regs cxt rw addr len w"
  have "nat len \<le> length buf" using fits buf(2) by simp
  from smi_read_await_never_ready [OF law regs dead len(1) this fuel, of ?w] obtain w2 where
    await: "smi_read_await m fuel cxt (Some buf) len ?w = Returns (21, Some buf, w2)" by blast
  have "fmt_words fmt = 1" using width(2) by (auto simp: truncate_format_of_def fmt_defs split: if_splits)
  then have "smi_truncate cxt buf ret 21 = Undefined"
    using small buf(2) by (auto simp: truncate_fills [OF width] fills_def)
  then show ?thesis
    using programmed_read_steps [OF regs rw ratio _ grow, of len fuel addr 21 buf w2 ret] await buf(1) px k regs ratio
    by (cases "len = INT_MAX") (simp_all add: smi_programmed_read_arr_def)
qed

section \<open>Properties\<close>

text \<open>
  C2: A packed programmed read of \<^verbatim>\<open>len\<close> pixels, fewer than \<open>2 ^ 30 - 1\<close>, into a buffer with room for
  every pixel of the FIFO words it reads, is defined, returns, keeps the context well formed and
  changes only its raw buffer. It fails with \<^verbatim>\<open>-1\<close>, having read nothing, only if the raw buffer is
  smaller than those words and \<^verbatim>\<open>realloc\<close> has refused to enlarge it to them. Otherwise it reports
  as many words as the pack ratio asks for, all taken from the data register, and the caller's
  buffer begins with what these words unpack to in the code's table of the configured mode; or it
  reports 21, with fewer words, and 50 seconds have passed since the buffer was large enough.
\<close>
theorem packed_read_delivers:
  assumes "clock_law m now" and "alloc_law m" and "smi_regs cxt = Some regs"
    and "wf_cxt cxt" and "pxldata cxt" and "format_of_cxt cxt = Some fmt"
    and "0 \<le> len" and "len < 2 ^ 30 - 1"
    and "fmt_bytes fmt * packed_groups fmt (nat len) \<le> length ret"
    and "packed_words fmt (nat len) * 513 + 500512 < fuel"
  shows "\<exists>r cxt' ret' w'. smi_programmed_read_arr m fuel cxt ret addr len w = Returns (r, cxt', ret', w') \<and>
    wf_cxt cxt' \<and> (\<exists>rb. cxt' = cxt\<lparr>raw_buffer := rb\<rparr>) \<and> length ret' = length ret \<and>
    (\<exists>xs. loads_from (REG32 regs SMIO_D) (log w') = loads_from (REG32 regs SMIO_D) (log w) @ xs \<and>
       (r = - 1 \<and> ret' = ret \<and> xs = [] \<and>
          rb_size (raw_buffer cxt) < of_nat (packed_words fmt (nat len)) \<and>
          fst (realloc32 m (of_nat (packed_words fmt (nat len)) * 4) (old_words (raw_buffer cxt)) w) = None \<or>
        r = int (packed_words fmt (nat len)) \<and> length xs = packed_words fmt (nat len) \<and>
          ret' = overlay ret 0 (byte_stream fmt (packed_groups fmt (nat len)) xs) \<or>
        r = 21 \<and> length xs < packed_words fmt (nat len) \<and>
          now (hw (snd (grow_raw_buffer m cxt (int (packed_words fmt (nat len))) w))) + 50000000000
            \<le> now (hw w')))"
  using assms by (rule programmed_read_packed)

lemma format_of_sample:
  "format_of_cxt (sample_cxt width format swap packed) = unpack_format_of width format swap"
  by (simp add: format_of_cxt_def sample_config0 sample_read_def sample_write_def)

theorem packed_read_delivers_witness:
  "\<exists>r cxt' ret' w'. smi_programmed_read_arr ram0 600000 (sample_cxt SMI_8_BITS SMI_XRGB False True)
     [0, 0, 0, 0, 0, 0, 9] 5 5 (ram_world (\<lambda>_. 0x08000000)) = Returns (r, cxt', ret', w') \<and>
     (r = - 1 \<or> r = 2 \<or> r = 21)"
proof -
  have "clock_law ram0 snd" by (rule ram_clock_law)
  then show ?thesis
    using packed_read_delivers [of ram0 snd "sample_cxt SMI_8_BITS SMI_XRGB False True" "sample_map 0x1000"
        fmt_xrgb_8 5 "[0, 0, 0, 0, 0, 0, 9]" 600000 5 "ram_world (\<lambda>_. 0x08000000)"]
    by (auto simp: ram_alloc_law sample_cxt_wf format_of_sample unpack_format_of_def packed_words_def
        packed_groups_def fmt_defs fmt_bytes_def)
qed

text \<open>
  C21: For a \<^verbatim>\<open>len\<close> below \<open>2 ^ 30 - 1\<close> the number of words \<^verbatim>\<open>smi_programmed_read_arr\<close> asks for
  is computed without overflow, and these words unpack to fewer than four pixels more than
  \<^verbatim>\<open>len\<close>, and to at least \<^verbatim>\<open>len\<close>, except in 16-bit XRGB mode with \<^verbatim>\<open>len\<close> one more than a
  multiple of three: there the last word is read but its pixel is never unpacked.
\<close>
theorem packed_read_covers:
  assumes "unpack_format_of w f s = Some fmt" and "n < 2 ^ 30 - 1"
  shows "\<exists>words. word_reads_of (mk_ratio (of_nat (fmt_words fmt)) (of_nat (length (fmt_pixels fmt)))) (int n)
      = Returns (int words) \<and>
    words div fmt_words fmt * length (fmt_pixels fmt) < n + 4 \<and>
    (n \<le> words div fmt_words fmt * length (fmt_pixels fmt)
       \<longleftrightarrow> \<not> (w = SMI_16_BITS \<and> f = SMI_XRGB \<and> n mod 3 = 1))"
proof -
  have "int n < 2 ^ 30 - 1" using assms(2) by simp
  from word_reads_fmt(1) [OF _ this assms(1)] show ?thesis
    using packed_cover [OF assms(1), of n] fmt_words_values [OF assms(1)]
    by (cases "w = SMI_16_BITS \<and> f") (auto simp: packed_groups_def intro!: exI [of _ "packed_words fmt n"])
qed

theorem packed_read_covers_witness:
  "\<exists>words. word_reads_of (mk_ratio 2 3) 4 = Returns (int words) \<and> \<not> 4 \<le> words div 2 * (3 :: nat)"
proof -
  have "length (fmt_pixels fmt_xrgb_16) = 3" and "fmt_words fmt_xrgb_16 = 2" by (simp_all add: fmt_defs)
  then show ?thesis
    using packed_read_covers [of SMI_16_BITS SMI_XRGB False fmt_xrgb_16 4]
    by (simp add: unpack_format_of_def) blast
qed

text \<open>The bound is tight: one pixel more and the sum in \<^verbatim>\<open>SMI_DIV_CEIL\<close> is no \<^verbatim>\<open>int\<close>.\<close>
lemma packed_read_length_overflows: "word_reads_of (mk_ratio 2 3) (2 ^ 30 - 1) = Undefined"
  by (simp add: word_reads_of_def SMI_DIV_CEIL_def mk_ratio_def c_int_def INT_MAX_def INT_MIN_def)

text \<open>
  A packed \<^verbatim>\<open>smi_programmed_read\<close> of a single pixel into a 32-bit variable writes outside it
  whenever one FIFO word unpacks to more than four bytes, as in the 9-bit and 18-bit RGB565 modes.
\<close>
theorem packed_read_of_one_overflows:
  assumes "clock_law m now" and "smi_regs cxt = Some regs" and "wf_cxt cxt" and "pxldata cxt"
    and "config0 cxt = Returns (rc, wc)" and "rwidth rc = SMI_9_BITS \<or> rwidth rc = SMI_18_BITS"
    and "wformat wc = SMI_RGB565" and "rb_size (raw_buffer cxt) \<noteq> 0" and "length ret = 4"
    and "501025 < fuel"
  shows "smi_programmed_read m fuel cxt ret addr w = Undefined"
proof -
  obtain fmt where "format_of_cxt cxt = Some fmt" and "fmt_words fmt = 1" and "fmt_bytes fmt = 8"
    using assms(5-7) by (auto simp: format_of_cxt_def unpack_format_of_def fmt_defs fmt_bytes_def)
  then show ?thesis
    using programmed_read_too_small [OF assms(1-4) _ _ assms(8) _ assms(10)] assms(9) by simp
qed

theorem packed_read_of_one_overflows_witness:
  "smi_programmed_read ram0 600000 (sample_cxt SMI_9_BITS SMI_RGB565 False True) [0, 0, 0, 0] 5
     (ram_world (\<lambda>_. 0x08000000)) = Undefined"
  by (rule packed_read_of_one_overflows [OF ram_clock_law, where regs = "sample_map 0x1000"
        and rc = "sample_read SMI_9_BITS" and wc = "sample_write SMI_RGB565 False"])
    (simp_all add: sample_cxt_wf sample_config0, simp_all add: sample_defs)

text \<open>
  C38: If no word ever arrives, an unpacked programmed read takes the 21 of the expired wait for a
  word count: it copies 21 elements, out of the raw buffer or past the end of the caller's buffer
  if either is shorter.
\<close>
theorem unpacked_read_timeout_overflows:
  assumes "clock_law m now" and "smi_regs cxt = Some regs" and "wf_cxt cxt" and "\<not> pxldata cxt"
    and "config0 cxt = Returns (rc, wc)" and "truncate_format_of (rwidth rc) = Some fmt"
    and "0 < len" and "len \<le> int (unat (rb_size (raw_buffer cxt)))" and "len < 2 ^ 31"
    and "unat (rb_size (raw_buffer cxt)) < 21 \<or> length ret < fmt_bytes fmt * 21"
    and "never_ready m (REG32 regs SMIO_CS)" and "nat len * 513 + 500512 < fuel"
  shows "smi_programmed_read_arr m fuel cxt ret addr len w = Undefined"
  using assms by (rule programmed_read_timeout)

theorem unpacked_read_timeout_overflows_witness:
  "smi_programmed_read_arr (ram0\<lparr>m_ld := \<lambda>a h. (0, h)\<rparr>) 600000 (sample_cxt SMI_8_BITS SMI_XRGB False False)
     [0, 0] 5 2 (ram_world (\<lambda>_. 0)) = Undefined"
proof (rule unpacked_read_timeout_overflows [where regs = "sample_map 0x1000"
        and rc = "sample_read SMI_8_BITS" and wc = "sample_write SMI_XRGB False" and now = snd
        and fmt = "fmt_truncate 1 8"])
  show "clock_law (ram0\<lparr>m_ld := \<lambda>a h. (0, h)\<rparr>) snd"
    by (simp add: clock_law_def ram_machine_def ns_of_def split_beta)
qed (simp_all add: sample_cxt_wf sample_config0 never_ready_def bf_get_def truncate_format_of_def,
     simp_all add: sample_defs)

text \<open>
  C32: \<^verbatim>\<open>smi_programmed_write_arr\<close> with one readable word more than \<^verbatim>\<open>len\<close> returns, having stored
  the length to the length register and the address to the address field, and to the data
  register the first words of the data, in order and at most one more than \<^verbatim>\<open>len\<close>; the result is
  their number, or the timeout code when 50 seconds have passed.
\<close>
theorem programmed_write_sends:
  assumes "clock_law m now" and "smi_regs cxt = Some regs" and "nat (len + 1) \<le> length data"
    and "500512 < fuel"
  shows "\<exists>r v w' n. smi_programmed_write_arr m fuel cxt (Some data) addr len w = Returns (r, w') \<and>
    n \<le> nat (len + 1) \<and>
    stores_to (REG32 regs SMIO_D) w' = stores_to (REG32 regs SMIO_D) w @ take n data \<and>
    stores_to (REG32 regs SMIO_L) w' = stores_to (REG32 regs SMIO_L) w @ [word_of_int len] \<and>
    stores_to (REG32 regs SMIO_A) w' = stores_to (REG32 regs SMIO_A) w @ [bf_set A_addr (byte32 addr) v] \<and>
    (r = int n \<or> r = SMI_ERR_TIMEOUT \<and> now (hw w) + 50000000000 \<le> now (hw w'))"
proof -
  let ?v = "st32 m (REG32 regs SMIO_L) (word_of_int len)
    (fsets m (REG32 regs SMIO_CS) (programmed_write_setup cxt) w)"
  let ?w = "fset m (REG32 regs SMIO_CS) CS_start 1 (fset m (REG32 regs SMIO_A) A_addr (byte32 addr) ?v)"
  have "smi_programmed_write_arr m fuel cxt (Some data) addr len w =
      smi_write_await m fuel (Some cxt) (Some data) len ?w"
    using assms(2) by (simp add: smi_programmed_write_arr_def smi_start_def Let_def del: One_nat_def)
  moreover from smi_write_await_total [OF assms, of ?w] obtain r w' n where
    "smi_write_await m fuel (Some cxt) (Some data) len ?w = Returns (r, w')" and n: "n \<le> nat (len + 1)"
    and sent: "sent (REG32 regs SMIO_CS) (REG32 regs SMIO_D) ?w (take n data) w'"
    and r: "r = int n \<or> r = SMI_ERR_TIMEOUT \<and> now (hw ?w) + 50000000000 \<le> now (hw w')" by blast
  moreover have "stores_to (REG32 regs SMIO_D) ?w = stores_to (REG32 regs SMIO_D) w"
      "stores_to (REG32 regs SMIO_L) ?w = stores_to (REG32 regs SMIO_L) w @ [word_of_int len]"
      "stores_to (REG32 regs SMIO_A) ?w = stores_to (REG32 regs SMIO_A) w
         @ [bf_set A_addr (byte32 addr) (fst (ld32 m (REG32 regs SMIO_A) ?v))]"
    by (simp_all add: stores_to_fset_same setup_apart)
  moreover have "now (hw w) \<le> now (hw ?w)"
    by (intro order_trans [OF clock_law_fsets order_trans [OF clock_law_simps(4)
          order_trans [OF clock_law_fields(2) clock_law_fields(2)]]] assms(1))
  ultimately show ?thesis
    unfolding sent_def
    by (intro exI [of _ r] exI [of _ "fst (ld32 m (REG32 regs SMIO_A) ?v)"] exI [of _ w'] exI [of _ n])
      (auto simp: setup_apart)
qed

theorem programmed_write_sends_witness:
  "\<exists>r w' n. smi_programmed_write_arr ram0 600000 (sample_cxt 0 False False True) (Some [5, 6, 7]) 3 2
     (ram_world (\<lambda>_. 0)) = Returns (r, w') \<and> stores_to 0x100c w' = take n [5, 6, 7]"
  using programmed_write_sends [OF ram_clock_law, of "sample_cxt 0 False False True" "sample_map 0x1000"
        2 "[5, 6, 7]" 600000 "\<lambda>_. 0" 3 "ram_world (\<lambda>_. 0)"]
  by (fastforce simp: SMIO_D_def stores_to_def ram_world_def)

text \<open>
  \<^verbatim>\<open>smi_direct_read\<close> returns 1 with the low byte of the one value it took from the direct data
  register in the first word of the buffer, the rest as it was, or the timeout code with the buffer
  untouched; either way the address field was given the address.
\<close>
theorem direct_read_byte:
  assumes "clock_law m now" and "smi_regs cxt = Some regs" and "1 \<le> length buf" and "20513 < fuel"
  shows "\<exists>r buf' w'. smi_direct_read m fuel cxt (Some buf) a w = Returns (r, Some buf', w') \<and>
    last (addr_fields (REG32 regs SMIO_DA) w') = take_bit 6 (byte32 a) \<and>
    (\<exists>v. r = 1 \<and> buf' = buf[0 := v AND 0xFF] \<and>
       loads_from (REG32 regs SMIO_DD) (log w') = loads_from (REG32 regs SMIO_DD) (log w) @ [v]
     \<or> r = SMI_ERR_TIMEOUT \<and> buf' = buf)"
proof -
  let ?cs = "REG32 regs SMIO_CS" and ?dcs = "REG32 regs SMIO_DCS" and ?da = "REG32 regs SMIO_DA"
    and ?dd = "REG32 regs SMIO_DD" and ?dsr = "REG32 regs SMIO_DSR0"
  define w1 where "w1 = fset m ?dcs DCS_start 1 (st32 m ?dd 0 (fset m ?da DA_addr (byte32 a)
    (fset m ?dcs DCS_write 0 (fset m ?dcs DCS_done 1 (fset m ?dsr DSR_rwidth 0
      (fsets m ?cs direct_setup (st32 m ?cs 0 w)))))))"
  have run: "smi_direct_read m fuel cxt (Some buf) a w =
      smi_read_await_direct m fuel (Some cxt) (Some buf) a 1 0 w1"
    using assms(2) by (simp add: smi_direct_read_def Let_def w1_def del: One_nat_def)
  have w1: "loads_from ?dd (log w1) = loads_from ?dd (log w)" by (simp add: w1_def)
  have "nat 1 \<le> length buf" and "nat 1 + 20512 < fuel" using assms(3,4) by simp_all
  from smi_read_await_direct_total [OF assms(1,2) this, of a 0 w1] obtain r buf' w' xs where
    await: "smi_read_await_direct m fuel (Some cxt) (Some buf) a 1 0 w1 = Returns (r, Some buf', w')"
    and buf': "buf' = overlay buf 0 (map (\<lambda>v. v AND 0xFF) xs)"
    and xs: "loads_from ?dd (log w') = loads_from ?dd (log w1) @ xs"
    and addr: "addr_fields ?da w' = addr_fields ?da w1 @ [take_bit 6 (byte32 a)] @ addr_walk 0 a (length xs)"
    and r: "if length xs = nat 1 then r = int (nat 1)
      else length xs < nat 1 \<and> r = SMI_ERR_TIMEOUT \<and> now (hw w1) + 2000000000 \<le> now (hw w')"
    by blast
  have la: "last (addr_fields ?da w') = take_bit 6 (byte32 a)" using addr by (simp add: addr_walk_def)
  consider v where "xs = [v]" "r = 1" | "xs = []" "r = SMI_ERR_TIMEOUT"
    using r by (cases xs) (auto split: if_splits)
  then show ?thesis
  proof cases
    case 1
    moreover have "overlay buf 0 [v AND 0xFF] = buf[0 := v AND 0xFF]"
      using assms(3) by (intro overlay_single) linarith
    ultimately have "buf' = buf[0 := v AND 0xFF]" by (simp add: buf')
    with 1 run await xs w1 la show ?thesis by auto
  next
    case 2
    then have "buf' = buf" by (simp add: buf')
    with 2 run await la show ?thesis by auto
  qed
qed

theorem direct_read_byte_witness:
  "\<exists>r buf' w'. smi_direct_read ram0 30000 (sample_cxt 0 False False True) (Some [5, 6]) 63
     (ram_world (\<lambda>_. 0x1204)) = Returns (r, Some buf', w') \<and> buf' ! 1 = 6"
  using direct_read_byte [OF ram_clock_law, of "sample_cxt 0 False False True"
      "sample_map 0x1000" "[5, 6]" 30000 "\<lambda>_. 0" 63 "ram_world (\<lambda>_. 0x1204)"]
  by fastforce

text \<open>
  \<^verbatim>\<open>smi_direct_write_arr\<close> reports success whatever happened: its result is 1 whenever it
  returns, also when it is handed no data, which \<^verbatim>\<open>smi_write_await_direct\<close> reports as an error.
\<close>
theorem direct_write_always_succeeds:
  assumes "smi_regs cxt = Some regs"
  shows "(smi_direct_write_arr m fuel cxt data addr len inc w = Returns (r, w') \<longrightarrow> r = 1) \<and>
    (\<exists>v. smi_direct_write_arr m fuel cxt None addr len inc w = Returns (1, v)) \<and>
    smi_write_await_direct m fuel (Some cxt) None addr (uint len) inc w = Returns (SMI_ERR_NULL_PTR, w)"
  using assms by (auto simp: smi_direct_write_arr_def smi_write_await_direct_def Let_def)

theorem direct_write_always_succeeds_witness:
  "\<exists>v. smi_direct_write_arr ram0 0 (sample_cxt 0 False False True) None 5 200 0 (ram_world (\<lambda>_. 0))
     = Returns (1, v)"
  using direct_write_always_succeeds [of "sample_cxt 0 False False True" "sample_map 0x1000" ram0 0]
  by simp

end
