(* ===== verification/Smi_Dma_Transfer.thy ===== *)
theory Smi_Dma_Transfer
  imports Smi_Transfer
begin

unbundle bit_operations_syntax

text \<open>
  The DMA transfers of \<^verbatim>\<open>smi.c\<close>: filling in the control block, setting up the FIFO for DMA,
  starting the channel and the transfer, and waiting for the end flag. A control block pointer is
  an \<open>option\<close> of its address and content.

  The wait sleeps ever longer between two looks at the flag; it keeps the contract
  \<open>deadline_wait\<close> of \<open>Smi_Timeout\<close> with a budget of its own (\<open>dw\<close>).
\<close>

section \<open>Waiting for the end flag\<close>

definition ETIMEDOUT :: int where "ETIMEDOUT = 110"

text \<open>One look at the clock and, before the deadline, a sleep.\<close>

definition dma_wait :: "'h machine \<Rightarrow> int \<Rightarrow> int \<Rightarrow> 'h world \<Rightarrow> bool \<times> 'h world" where
  "dma_wait m deadline delay w =
     (let (expired, w) = timeout_complete m deadline w in
      if expired then (True, w)
      else (False, nanosleep m \<lparr>tv_sec = 0, tv_nsec = delay\<rparr> w))"

definition dma_await_body ::
  "'h machine \<Rightarrow> uintptr \<Rightarrow> int \<Rightarrow> int \<times> 'h world \<Rightarrow> (int \<times> 'h world, int \<times> 'h world) iter" where
  "dma_await_body m dma_cs deadline = (\<lambda>(delay, w).
     let (e, w) = fget m dma_cs DMACS_end w in
     if e \<noteq> 0 then Leave (Returns (1, w))
     else
       (let (expired, w) = dma_wait m deadline delay w in
        if expired then
          (let w = perr ''DMA transfer timeout'' w;
               w = fset m dma_cs DMACS_abort 1 w in
           Leave (Returns (- ETIMEDOUT, w)))
        else Again (if delay < 100000 then delay * 2 else delay, w)))"

definition smi_dma_await :: "'h machine \<Rightarrow> nat \<Rightarrow> SMI_CXT \<Rightarrow> 'h world \<Rightarrow> (int \<times> 'h world) outcome" where
  "smi_dma_await m fuel cxt w =
     obind (deref (dma_regs cxt)) (\<lambda>dregs.
     let dma_cs = REG32 dregs DMAO_CS;
         (deadline, w) = start_timeout m PROG_READ_TIMEOUT_S w in
     loop fuel (dma_await_body m dma_cs deadline) (1000, w))"

section \<open>Transfers\<close>

text \<open>
  The byte count is stored to a 32-bit member, so only the product modulo \<open>2 ^ 32\<close> matters. Where
  \<^verbatim>\<open>l*4\<close> is no \<^verbatim>\<open>int\<close> (from \<open>2 ^ 29\<close> on) ISO C leaves even that open; statements that a
  transfer is defined bound the length.
\<close>

definition SMI_DMA_L :: "int \<Rightarrow> int" where "SMI_DMA_L l = l * 4"

definition smi_programmed_write_dma ::
  "'h machine \<Rightarrow> nat \<Rightarrow> SMI_CXT option \<Rightarrow> (uintptr \<times> DMA_CB) option \<Rightarrow> u8 \<Rightarrow> int \<Rightarrow> int \<Rightarrow> 'h world
     \<Rightarrow> (int \<times> DMA_CB option \<times> 'h world) outcome" where
  "smi_programmed_write_dma m fuel cxt cbp addr len channel w =
     (case (cxt, cbp) of
        (Some cxt, Some (cb_at, cb)) \<Rightarrow>
          (case smi_regs cxt of None \<Rightarrow> Returns (- 1, Some cb, w)
           | Some regs \<Rightarrow>
               let cs = REG32 regs SMIO_CS; l = REG32 regs SMIO_L;
                   a = REG32 regs SMIO_A; dc = REG32 regs SMIO_DC;
                   cb = cb\<lparr>cb_ti := DMA_DEST_DREQ OR push_bit 16 DMA_SMI_DREQ OR DMA_CB_SRCE_INC\<rparr>;
                   cb = cb\<lparr>cb_dest_addr := REG_BUS_ADDR regs SMIO_D\<rparr>;
                   cb = cb\<lparr>cb_tfr_len := word_of_int (SMI_DMA_L len)\<rparr>;
                   cb = cb\<lparr>cb_next_cb := 0\<rparr>;
                   cb = cb\<lparr>cb_stride := 0\<rparr>;
                   w = fsets m cs [(CS_clear, 1), (CS_enable, 1), (CS_pxldat, bool32 (pxldata cxt)),
                         (CS_write, 1)] w;
                   w = fset m a A_addr (byte32 addr) w;
                   w = st32 m l (word_of_int len) w;
                   w = fsets m dc [(DC_dmaen, 1), (DC_panicw, bool32 (panicw (dma_config cxt))),
                         (DC_reqw, bool32 (reqw (dma_config cxt)))] w in
               obind (smi_start m cxt w) (\<lambda>w.
               obind (deref (dma_buffer cxt)) (\<lambda>buff.
               let cb_addr = ucast (MEM_BUS_ADDR buff cb_at) in
               obind (deref (dma_regs cxt)) (\<lambda>dregs.
               let (_, w) = start_dma m (mm_virt dregs) cb_addr (word_of_int channel)
                     (fd_sync_dev cxt) (fd_sync_cpu cxt) w in
               obind (smi_dma_await m fuel cxt w) (\<lambda>(err, w).
               Returns (err, Some cb, w))))))
      | _ \<Rightarrow> Returns (- 1, map_option snd cbp, w))"

definition smi_programmed_read_dma ::
  "'h machine \<Rightarrow> nat \<Rightarrow> SMI_CXT option \<Rightarrow> (uintptr \<times> DMA_CB) option \<Rightarrow> u8 \<Rightarrow> int \<Rightarrow> int \<Rightarrow> 'h world
     \<Rightarrow> (int \<times> DMA_CB option \<times> 'h world) outcome" where
  "smi_programmed_read_dma m fuel cxt cbp addr len channel w =
     (case (cxt, cbp) of
        (Some cxt, Some (cb_at, cb)) \<Rightarrow>
          (case smi_regs cxt of None \<Rightarrow> Returns (- 1, Some cb, w)
           | Some regs \<Rightarrow>
               let cs = REG32 regs SMIO_CS; l = REG32 regs SMIO_L;
                   a = REG32 regs SMIO_A; dc = REG32 regs SMIO_DC in
               obind (smi_packed_ratio cxt) (\<lambda>ratio.
               obind (word_reads_of ratio len) (\<lambda>word_reads.
               let cb = cb\<lparr>cb_ti := DMA_SRCE_DREQ OR push_bit 16 DMA_SMI_DREQ OR DMA_CB_DEST_INC
                                   OR DMA_WAIT_RSP\<rparr>;
                   cb = cb\<lparr>cb_src_addr := REG_BUS_ADDR regs SMIO_D\<rparr>;
                   cb = cb\<lparr>cb_tfr_len := word_of_int (SMI_DMA_L word_reads)\<rparr>;
                   cb = cb\<lparr>cb_next_cb := 0\<rparr>;
                   cb = cb\<lparr>cb_stride := 0\<rparr>;
                   w = fsets m cs [(CS_clear, 1), (CS_enable, 1), (CS_pxldat, bool32 (pxldata cxt)),
                         (CS_pvmode, 0), (CS_pad, 0), (CS_write, 0)] w;
                   w = fset m a A_addr (byte32 addr) w;
                   w = st32 m l (word_of_int len) w;
                   w = fsets m dc [(DC_dmaen, 1), (DC_panicr, bool32 (panicr (dma_config cxt))),
                         (DC_reqr, bool32 (reqr (dma_config cxt)))] w in
               obind (deref (dma_buffer cxt)) (\<lambda>buff.
               let cb_addr = ucast (MEM_BUS_ADDR buff cb_at) in
               obind (deref (dma_regs cxt)) (\<lambda>dregs.
               let (_, w) = start_dma m (mm_virt dregs) cb_addr (word_of_int channel)
                     (fd_sync_dev cxt) (fd_sync_cpu cxt) w in
               obind (smi_start m cxt w) (\<lambda>w.
               obind (smi_dma_await m fuel cxt w) (\<lambda>(err, w).
               Returns (err, Some cb, w))))))))
      | _ \<Rightarrow> Returns (- 1, map_option snd cbp, w))"

section \<open>The wait keeps the contract\<close>

text \<open>The delay before the \<open>k\<close>-th sleep: doubled until it is at least 100 microseconds.\<close>

primrec dma_delay :: "nat \<Rightarrow> int" where
  "dma_delay 0 = 1000"
| "dma_delay (Suc k) = (if dma_delay k < 100000 then dma_delay k * 2 else dma_delay k)"

lemma dma_delay_range: "1000 \<le> dma_delay k \<and> dma_delay k < 200000"
  by (induction k) auto

definition dma_budget :: "int \<Rightarrow> nat \<Rightarrow> int \<Rightarrow> nat" where
  "dma_budget d k t = nat (d - t) div 1000 + (if t < d then 1 else 0)"

lemma dma_wait_result:
  assumes "clock_law m now" and "dma_wait m d (dma_delay k) w = (b, w')"
  shows "now (hw w) \<le> now (hw w')" and "b \<Longrightarrow> d \<le> now (hw w')"
    and "\<not> b \<Longrightarrow> now (hw w) < d \<and> now (hw w) + 1000 \<le> now (hw w')"
proof -
  note law = clock_law_simps [OF assms(1)]
  have c: "fst (timeout_complete m d w) \<longleftrightarrow> d \<le> now (hw w)" by (rule timeout_complete_iff [OF assms(1)])
  have n: "now (hw (snd (clock_gettime m w))) + dma_delay k \<le>
      now (hw (nanosleep m \<lparr>tv_sec = 0, tv_nsec = dma_delay k\<rparr> (snd (clock_gettime m w))))"
    using law(7) [of _ "\<lparr>tv_sec = 0, tv_nsec = dma_delay k\<rparr>"] by (simp add: ns_of_def)
  note facts = assms(2) c n law(2) [of w] dma_delay_range [of k]
  show "now (hw w) \<le> now (hw w')" using facts by (auto simp: dma_wait_def split_beta Let_def split: if_splits)
  show "b \<Longrightarrow> d \<le> now (hw w')" using facts by (auto simp: dma_wait_def split_beta Let_def split: if_splits)
  show "\<not> b \<Longrightarrow> now (hw w) < d \<and> now (hw w) + 1000 \<le> now (hw w')"
    using facts by (auto simp: dma_wait_def split_beta Let_def split: if_splits)
qed

interpretation dw: deadline_wait
  "\<lambda>(m, now). clock_law m now"
  "\<lambda>(m :: 'h machine, now) w. now (hw w)"
  "\<lambda>(m, now) d k. dma_wait m d (dma_delay k)"
  dma_budget 0
proof (unfold_locales, goal_cases)
  case (1 e d k w w')
  obtain m now where e: "e = (m, now)" by fastforce
  have t: "now (hw w) < d" "now (hw w) + 1000 \<le> now (hw w')"
    using 1 dma_wait_result(3) [of m now d k w False w'] by (auto simp: e)
  then have "nat (d - now (hw w')) + 1000 \<le> nat (d - now (hw w)) \<or> d \<le> now (hw w')" by linarith
  then show ?case
  proof
    assume "nat (d - now (hw w')) + 1000 \<le> nat (d - now (hw w))"
    then have "(nat (d - now (hw w')) + 1000) div 1000 \<le> nat (d - now (hw w)) div 1000" by (rule div_le_mono)
    then have "nat (d - now (hw w')) div 1000 + 1 \<le> nat (d - now (hw w)) div 1000"
      by (metis div_add_self2 zero_neq_numeral)
    with t show ?case by (simp add: e dma_budget_def)
  next
    assume "d \<le> now (hw w')"
    with t show ?case by (simp add: e dma_budget_def)
  qed
next
  case (2 e d k w w')
  then show ?case using dma_wait_result(2) [of "fst e" "snd e" d k w True w'] by (simp add: split_beta)
next
  case (3 e d k w b w')
  then show ?case using dma_wait_result(1) [of "fst e" "snd e" d k w b w'] by (simp add: split_beta)
next
  case (4 t t' d k)
  then show ?case by (auto simp: dma_budget_def div_le_mono)
next
  case (5 d t k)
  then show ?case by (simp add: dma_budget_def)
qed

section \<open>What the await returns\<close>

text \<open>
  A finished wait between two worlds: every value loaded from the control register but the last had
  the end flag clear; the last had it set, or it is the one whose abort bit was set and stored back.
\<close>

definition dma_waited :: "('h \<Rightarrow> int) \<Rightarrow> int \<Rightarrow> uintptr \<Rightarrow> 'h world \<Rightarrow> int \<Rightarrow> 'h world \<Rightarrow> bool" where
  "dma_waited now dl cs w r w' \<longleftrightarrow>
     (\<exists>ws v. loads_from cs (log w') = loads_from cs (log w) @ ws @ [v] \<and>
        (\<forall>x\<in>set ws. bf_get DMACS_end x = 0) \<and>
        (r = 1 \<and> bf_get DMACS_end v \<noteq> 0 \<and> stores (log w') = stores (log w)
       \<or> r = - ETIMEDOUT \<and> dl \<le> now (hw w') \<and> ws \<noteq> [] \<and>
           stores (log w') = stores (log w) @ [(cs, bf_set DMACS_abort 1 v)])) \<and>
     (\<forall>b. b \<noteq> cs \<longrightarrow> loads_from b (log w') = loads_from b (log w))"

lemma dma_waited_result: "dma_waited now dl cs w r w' \<Longrightarrow> r = 1 \<or> r = - ETIMEDOUT"
  by (auto simp: dma_waited_def)

lemma loads_fget_same:
  "loads_from a (log (snd (fget m a f w))) = loads_from a (log w) @ [fst (ld32 m a w)]"
  "fst (fget m a f w) = bf_get f (fst (ld32 m a w))"
  by (simp_all add: fget_def split_beta)

definition dma_waiting :: "uintptr \<Rightarrow> 'h world \<Rightarrow> 'h world \<Rightarrow> bool" where
  "dma_waiting cs w0 w \<longleftrightarrow> stores (log w) = stores (log w0) \<and>
     (\<forall>b. b \<noteq> cs \<longrightarrow> loads_from b (log w) = loads_from b (log w0)) \<and>
     (\<exists>ws. loads_from cs (log w) = loads_from cs (log w0) @ ws \<and> (\<forall>x\<in>set ws. bf_get DMACS_end x = 0))"

lemma dma_await_loop:
  assumes law: "clock_law m now" and fuel: "dma_budget dl 0 (now (hw w0)) < fuel"
  shows "\<exists>r w'. loop fuel (dma_await_body m cs dl) (dma_delay 0, w0) = Returns (r, w') \<and>
    dma_waited now dl cs w0 r w'"
proof (rule loop_total [where
      I = "\<lambda>(delay, w). (\<exists>k. delay = dma_delay k) \<and> dma_waiting cs w0 w" and
      M = "\<lambda>(delay, w). dma_budget dl 0 (now (hw w))"], goal_cases)
  case (1 s s')
  obtain k w where s: "s = (dma_delay k, w)" and inv: "dma_waiting cs w0 w" using 1(1) by auto
  from inv obtain ws where ws: "loads_from cs (log w) = loads_from cs (log w0) @ ws"
    "\<forall>x\<in>set ws. bf_get DMACS_end x = 0" by (auto simp: dma_waiting_def)
  define w1 where "w1 = snd (fget m cs DMACS_end w)"
  have w1: "now (hw w) \<le> now (hw w1)" unfolding w1_def by (rule clock_law_fields [OF law])
  obtain b w2 where wait: "dma_wait m dl (dma_delay k) w1 = (b, w2)" by fastforce
  from 1(2) have "\<not> b" and s': "s' = (dma_delay (Suc k), w2)" and clear: "fst (fget m cs DMACS_end w) = 0"
    by (auto simp: s dma_await_body_def split_beta Let_def w1_def [symmetric] wait
        split: if_splits simp del: One_nat_def)
  then have "0 * Suc 0 + dma_budget dl (Suc k) (now (hw w2)) < 0 * Suc 0 + dma_budget dl k (now (hw w))"
    using dw.wait_decreases [of "(m, now)" dl k w1 w2 "now (hw w)" "now (hw w2)" 0] law wait w1 by simp
  moreover have "stores (log w2) = stores (log w1)"
      "\<forall>b. loads_from b (log w2) = loads_from b (log w1)"
    using wait by (auto simp: dma_wait_def timeout_complete_def split_beta Let_def split: if_splits)
  then have "dma_waiting cs w0 w2"
    using inv ws clear unfolding dma_waiting_def w1_def
    by (auto simp: loads_fget_same simp del: One_nat_def intro!: exI [of _ "ws @ [fst (ld32 m cs w)]"])
  moreover have "\<exists>k'. dma_delay (Suc k) = dma_delay k'" by blast
  ultimately show ?case
    by (auto simp: s s' dma_budget_def simp del: dma_delay.simps)
next
  case (2 s r)
  obtain k w where s: "s = (dma_delay k, w)" and inv: "dma_waiting cs w0 w" using 2(1) by auto
  from inv obtain ws where ws: "loads_from cs (log w) = loads_from cs (log w0) @ ws"
    "\<forall>x\<in>set ws. bf_get DMACS_end x = 0" by (auto simp: dma_waiting_def)
  define v where "v = fst (ld32 m cs w)"
  define w1 where "w1 = snd (fget m cs DMACS_end w)"
  obtain b w2 where wait: "dma_wait m dl (dma_delay k) w1 = (b, w2)" by fastforce
  have logs: "stores (log w2) = stores (log w1)" "\<forall>b. loads_from b (log w2) = loads_from b (log w1)"
    using wait by (auto simp: dma_wait_def timeout_complete_def split_beta Let_def split: if_splits)
  have w1: "loads_from cs (log w1) = loads_from cs (log w0) @ ws @ [v]"
    using ws(1) by (simp add: w1_def v_def loads_fget_same)
  have quiet: "stores (log w1) = stores (log w0)"
      "\<forall>b. b \<noteq> cs \<longrightarrow> loads_from b (log w1) = loads_from b (log w0)"
    using inv by (simp_all add: w1_def dma_waiting_def)
  have late: "b \<Longrightarrow> dl \<le> now (hw w2)" using dma_wait_result(2) [OF law wait] .
  let ?e = "perr ''DMA transfer timeout'' w2"
  let ?w3 = "fset m cs DMACS_abort 1 ?e"
  have "now (hw w2) \<le> now (hw ?w3)"
    using clock_law_fields(2) [OF law] clock_law_simps(8) [OF law] by metis
  then have later: "b \<Longrightarrow> dl \<le> now (hw ?w3)" using late by linarith
  from 2(2) consider "bf_get DMACS_end v \<noteq> 0" "r = Returns (1, w1)"
    | "bf_get DMACS_end v = 0" "b" "r = Returns (- ETIMEDOUT, ?w3)"
    by (auto simp: s dma_await_body_def split_beta Let_def w1_def [symmetric] wait v_def loads_fget_same(2)
        split: if_splits simp del: One_nat_def)
  then show ?case
  proof cases
    case 1
    then show ?thesis using quiet w1 ws(2) unfolding dma_waited_def by blast
  next
    case 2
    have "loads_from cs (log ?w3) = loads_from cs (log w0) @ (ws @ [v]) @ [fst (ld32 m cs ?e)]"
      using logs w1 by (simp add: loads_fset_same)
    moreover have "\<forall>x\<in>set (ws @ [v]). bf_get DMACS_end x = 0" using ws(2) 2(1) by simp
    moreover have "stores (log ?w3) = stores (log w0) @ [(cs, bf_set DMACS_abort 1 (fst (ld32 m cs ?e)))]"
      using logs quiet by simp
    moreover have "\<forall>b. b \<noteq> cs \<longrightarrow> loads_from b (log ?w3) = loads_from b (log w0)"
      using logs quiet by simp
    ultimately have "dma_waited now dl cs w0 (- ETIMEDOUT) ?w3"
      using later [OF 2(2)] unfolding dma_waited_def by blast
    then show ?thesis using 2(3) by blast
  qed
qed (use fuel in \<open>auto simp: dma_waiting_def intro: exI [of _ 0]\<close>)

lemma dma_start_budget:
  assumes "clock_law m now"
  shows "dma_budget (fst (start_timeout m PROG_READ_TIMEOUT_S w)) 0
      (now (hw (snd (start_timeout m PROG_READ_TIMEOUT_S w)))) \<le> 50000001"
    and "fst (start_timeout m PROG_READ_TIMEOUT_S w) = now (hw w) + 50000000000"
proof -
  show d: "fst (start_timeout m PROG_READ_TIMEOUT_S w) = now (hw w) + 50000000000"
    using clock_gettime_ns [OF assms, of w]
    by (simp add: start_timeout_def split_beta Let_def PROG_READ_TIMEOUT_S_def)
  have "now (hw w) \<le> now (hw (snd (start_timeout m PROG_READ_TIMEOUT_S w)))"
    using clock_law_simps(2) [OF assms] by (simp add: start_timeout_world)
  then have "nat (now (hw w) + 50000000000 - now (hw (snd (start_timeout m PROG_READ_TIMEOUT_S w))))
      \<le> 50000000000" by linarith
  then have "nat (now (hw w) + 50000000000 - now (hw (snd (start_timeout m PROG_READ_TIMEOUT_S w)))) div 1000
      \<le> 50000000000 div 1000" by (rule div_le_mono)
  then show "dma_budget (fst (start_timeout m PROG_READ_TIMEOUT_S w)) 0
      (now (hw (snd (start_timeout m PROG_READ_TIMEOUT_S w)))) \<le> 50000001"
    unfolding dma_budget_def d by simp
qed

lemma smi_dma_await_total:
  assumes "clock_law m now" and "dma_regs cxt = Some dregs" and "50000001 < fuel"
  shows "\<exists>r w'. smi_dma_await m fuel cxt w = Returns (r, w') \<and>
    dma_waited now (now (hw w) + 50000000000) (REG32 dregs DMAO_CS) w r w'"
proof -
  let ?v = "snd (start_timeout m PROG_READ_TIMEOUT_S w)"
    and ?dl = "fst (start_timeout m PROG_READ_TIMEOUT_S w)"
  have "dma_budget ?dl 0 (now (hw ?v)) < fuel" using dma_start_budget(1) [OF assms(1), of w] assms(3) by simp
  from dma_await_loop [OF assms(1) this, of "REG32 dregs DMAO_CS"] obtain r w' where
    "loop fuel (dma_await_body m (REG32 dregs DMAO_CS) ?dl) (1000, ?v) = Returns (r, w')"
    and "dma_waited now ?dl (REG32 dregs DMAO_CS) ?v r w'"
    by auto
  moreover from this(2) have "dma_waited now (now (hw w) + 50000000000) (REG32 dregs DMAO_CS) w r w'"
    by (simp add: dma_waited_def dma_start_budget(2) [OF assms(1)])
  ultimately show ?thesis
    using assms(2) by (intro exI [of _ r] exI [of _ w']) (simp add: smi_dma_await_def split_beta Let_def)
qed

text \<open>A DMA read fills in the control block for as many words as the pack ratio asks for.\<close>

lemma programmed_read_dma_fills:
  assumes "clock_law m now" and "smi_regs cxt = Some regs" and "dma_regs cxt = Some dregs"
    and "dma_buffer cxt = Some buff" and "50000001 < fuel"
    and ratio: "smi_packed_ratio cxt = Returns ratio" "word_reads_of ratio len = Returns k"
  shows "\<exists>r w'. smi_programmed_read_dma m fuel (Some cxt) (Some (cb_at, cb)) addr len channel w =
    Returns (r, Some (cb\<lparr>cb_ti := 0x40418, cb_src_addr := REG_BUS_ADDR regs SMIO_D,
      cb_tfr_len := word_of_int (SMI_DMA_L k), cb_next_cb := 0, cb_stride := 0\<rparr>), w') \<and>
    (r = 1 \<or> r = - ETIMEDOUT)"
proof -
  have ti: "DMA_SRCE_DREQ OR push_bit 16 DMA_SMI_DREQ OR DMA_CB_DEST_INC OR DMA_WAIT_RSP = 0x40418"
    by (simp add: dma_flag_defs)
  have await: "\<exists>r w'. smi_dma_await m fuel cxt v = Returns (r, w') \<and> (r = 1 \<or> r = - ETIMEDOUT)" for v
    using smi_dma_await_total [OF assms(1,3,5), of v] dma_waited_result by blast
  let ?w = "fsets m (REG32 regs SMIO_DC) [(DC_dmaen, 1), (DC_panicr, bool32 (panicr (dma_config cxt))),
      (DC_reqr, bool32 (reqr (dma_config cxt)))]
    (st32 m (REG32 regs SMIO_L) (word_of_int len) (fset m (REG32 regs SMIO_A) A_addr (byte32 addr)
      (fsets m (REG32 regs SMIO_CS) [(CS_clear, 1), (CS_enable, 1), (CS_pxldat, bool32 (pxldata cxt)),
         (CS_pvmode, 0), (CS_pad, 0), (CS_write, 0)] w)))"
  obtain r w' where "smi_dma_await m fuel cxt (fset m (REG32 regs SMIO_CS) CS_start 1
      (snd (start_dma m (mm_virt dregs) (ucast (MEM_BUS_ADDR buff cb_at)) (word_of_int channel)
        (fd_sync_dev cxt) (fd_sync_cpu cxt) ?w))) = Returns (r, w')" and "r = 1 \<or> r = - ETIMEDOUT"
    using await by blast
  then show ?thesis
    using assms(2-4) by (intro exI [of _ r] exI [of _ w'])
      (simp add: smi_programmed_read_dma_def smi_start_def Let_def split_beta ti ratio
        del: fsets_simps One_nat_def)
qed

section \<open>Properties\<close>

text \<open>
  C17: \<^verbatim>\<open>smi_dma_await\<close> always returns: 1 when the last value it loaded from the DMA control
  register had the end flag set, with no register stored to, or \<^verbatim>\<open>-ETIMEDOUT\<close>, not before 50
  seconds have passed, after storing back the last value loaded with its abort bit set. No value
  loaded before the last had the end flag. The one register it polls and aborts is the control
  register of channel 0, whatever channel was started.
\<close>
theorem smi_dma_await_result:
  assumes "clock_law m now" and "dma_regs cxt = Some dregs" and "50000001 < fuel"
  shows "\<exists>r w' ws v. smi_dma_await m fuel cxt w = Returns (r, w') \<and>
    loads_from (REG32 dregs DMAO_CS) (log w') = loads_from (REG32 dregs DMAO_CS) (log w) @ ws @ [v] \<and>
    (\<forall>x\<in>set ws. bf_get DMACS_end x = 0) \<and>
    (r = 1 \<and> bf_get DMACS_end v \<noteq> 0 \<and> stores (log w') = stores (log w) \<or>
     r = - ETIMEDOUT \<and> now (hw w) + 50000000000 \<le> now (hw w') \<and> ws \<noteq> [] \<and>
       stores (log w') = stores (log w) @ [(REG32 dregs DMAO_CS, bf_set DMACS_abort 1 v)]) \<and>
    (\<forall>b. b \<noteq> REG32 dregs DMAO_CS \<longrightarrow> loads_from b (log w') = loads_from b (log w))"
  using smi_dma_await_total [OF assms, of w] unfolding dma_waited_def by blast

theorem smi_dma_await_result_witness:
  "\<exists>r w'. smi_dma_await ram0 60000000 (sample_cxt 0 False False True) (ram_world (\<lambda>_. 2)) = Returns (r, w') \<and>
     (r = 1 \<or> r = -110) \<and> loads_from 0x10100 (log w') = []"
  using smi_dma_await_result [OF ram_clock_law, of "sample_cxt 0 False False True" "sample_map 0x10000"
      60000000 "\<lambda>_. 0" "ram_world (\<lambda>_. 2)"]
  by (fastforce simp: ETIMEDOUT_def DMAO_CS_def ram_world_def)



text \<open>
  C18: \<^verbatim>\<open>smi_programmed_read_dma\<close> of fewer than \<open>2 ^ 29\<close> elements, on a mapped context with a
  valid width, returns 1 or \<^verbatim>\<open>-ETIMEDOUT\<close>, and has filled in the control block: destination
  increment, source request number 4 and wait for the write response, the bus address of the data
  register as source, and four bytes for every FIFO word: as many words as a packed read of
  \<^verbatim>\<open>len\<close> pixels takes in packed mode, and \<^verbatim>\<open>len\<close> words otherwise.
\<close>
theorem programmed_read_dma_block:
  assumes "clock_law m now" and "smi_regs cxt = Some regs" and "dma_regs cxt = Some dregs"
    and "dma_buffer cxt = Some buff" and "50000001 < fuel"
    and "format_of_cxt cxt = Some fmt" and "0 \<le> len" and "len < 2 ^ 29"
  shows "\<exists>r w'. smi_programmed_read_dma m fuel (Some cxt) (Some (cb_at, cb)) addr len channel w =
    Returns (r, Some (cb\<lparr>cb_ti := 0x40418, cb_src_addr := REG_BUS_ADDR regs SMIO_D,
      cb_tfr_len := of_nat (4 * (if pxldata cxt then packed_words fmt (nat len) else nat len)),
      cb_next_cb := 0, cb_stride := 0\<rparr>), w') \<and>
    (r = 1 \<or> r = - ETIMEDOUT)"
proof -
  obtain rc wc where cfg: "config0 cxt = Returns (rc, wc)"
    and fmt: "unpack_format_of (rwidth rc) (wformat wc) (wswap wc) = Some fmt"
    using assms(6) by (auto simp: format_of_cxt_def split: outcome.splits)
  define n where "n = (if pxldata cxt then packed_words fmt (nat len) else nat len)"
  have "\<exists>ratio. smi_packed_ratio cxt = Returns ratio \<and> word_reads_of ratio len = Returns (int n)"
  proof (cases "pxldata cxt")
    case True
    have "len < 2 ^ 30 - 1" using assms(8) by simp
    from word_reads_fmt(1) [OF assms(7) this fmt] smi_packed_ratio_of [OF cfg True fmt] True
    show ?thesis by (simp add: n_def)
  next
    case False
    then have "smi_packed_ratio cxt = Returns (mk_ratio 1 1)" using cfg by (simp add: smi_packed_ratio_def)
    then show ?thesis using assms(7,8) False by (simp add: word_reads_unpacked INT_MAX_def n_def)
  qed
  then obtain ratio where ratio: "smi_packed_ratio cxt = Returns ratio" "word_reads_of ratio len = Returns (int n)"
    by blast
  have "word_of_int (SMI_DMA_L (int n)) = (of_nat (4 * n) :: u32)"
    by (simp add: SMI_DMA_L_def)
  then show ?thesis
    using programmed_read_dma_fills [OF assms(1-5) ratio, of cb_at cb addr channel w] unfolding n_def
    by simp
qed

theorem programmed_read_dma_block_witness:
  "\<exists>r cb' w'. smi_programmed_read_dma ram0 60000000 (Some (sample_cxt SMI_16_BITS SMI_XRGB False True))
     (Some (0x4000, \<lparr>cb_ti = 0, cb_src_addr = 9, cb_dest_addr = 7, cb_tfr_len = 0, cb_stride = 0,
        cb_next_cb = 0, cb_debug = 0, cb_unused = 0\<rparr>)) 1 10 2 (ram_world (\<lambda>_. 0)) = Returns (r, Some cb', w')
     \<and> cb_tfr_len cb' = 28 \<and> cb_dest_addr cb' = 7"
  using programmed_read_dma_block [OF ram_clock_law, of "sample_cxt SMI_16_BITS SMI_XRGB False True"
      "sample_map 0x1000" "sample_map 0x10000" "sample_map 0x4000" 60000000 fmt_xrgb_16 10 "\<lambda>_. 0" "0x4000"
      "\<lparr>cb_ti = 0, cb_src_addr = 9, cb_dest_addr = 7, cb_tfr_len = 0, cb_stride = 0,
        cb_next_cb = 0, cb_debug = 0, cb_unused = 0\<rparr>" 1 2 "ram_world (\<lambda>_. 0)"]
  by (fastforce simp: format_of_sample unpack_format_of_def packed_words_def fmt_defs)

text \<open>
  A DMA write on a channel that \<^verbatim>\<open>start_dma\<close> refuses still reports success if the end flag of
  channel 0 is set: the refusal is ignored, and the flag looked at is not the channel's.
\<close>
theorem refused_channel_succeeds:
  assumes "smi_regs cxt = Some regs" and "dma_regs cxt = Some dregs" and "dma_buffer cxt = Some buff"
    and "(word_of_int channel :: u8) > 14" and "0 < fuel"
    and "\<And>h. bf_get DMACS_end (fst (m_ld m (REG32 dregs DMAO_CS) h)) \<noteq> 0"
  shows "\<exists>cb' w'. smi_programmed_write_dma m fuel (Some cxt) (Some (cb_at, cb)) addr len channel w =
      Returns (1, Some cb', w') \<and>
    (\<forall>a v. fst (start_dma m a (ucast (MEM_BUS_ADDR buff cb_at)) (word_of_int channel)
       (fd_sync_dev cxt) (fd_sync_cpu cxt) v) = - 1)"
proof -
  obtain f where f: "fuel = Suc f" using assms(5) by (cases fuel) auto
  have "fst (fget m (REG32 dregs DMAO_CS) DMACS_end v) \<noteq> 0" for v
    using assms(6) by (simp add: fget_def ld32_def split_beta Let_def)
  then have "\<exists>v'. smi_dma_await m fuel cxt v = Returns (1, v')" for v
    using assms(2) by (simp add: smi_dma_await_def dma_await_body_def f split_beta Let_def)
  then show ?thesis
    using assms(1-4) by (simp add: smi_programmed_write_dma_def smi_start_def Let_def split_beta
        start_dma_def del: fsets_simps)
qed

theorem refused_channel_succeeds_witness:
  "\<exists>cb' w'. smi_programmed_write_dma (ram0\<lparr>m_ld := \<lambda>a h. (2, h)\<rparr>) 1 (Some (sample_cxt 0 False False True))
     (Some (0x4000, \<lparr>cb_ti = 0, cb_src_addr = 9, cb_dest_addr = 7, cb_tfr_len = 0, cb_stride = 0,
        cb_next_cb = 0, cb_debug = 0, cb_unused = 0\<rparr>)) 1 10 20 (ram_world (\<lambda>_. 0))
     = Returns (1, Some cb', w')"
  using refused_channel_succeeds [of "sample_cxt 0 False False True" "sample_map 0x1000"
      "sample_map 0x10000" "sample_map 0x4000" 20 1 "ram0\<lparr>m_ld := \<lambda>a h. (2, h)\<rparr>" "0x4000"
      "\<lparr>cb_ti = 0, cb_src_addr = 9, cb_dest_addr = 7, cb_tfr_len = 0, cb_stride = 0,
        cb_next_cb = 0, cb_debug = 0, cb_unused = 0\<rparr>" 1 10 "ram_world (\<lambda>_. 0)"]
  by (fastforce simp: bf_get_def drop_bit_eq_div take_bit_eq_mod)

end
