(* ===== verification/Smi_Lite_Unpack.thy ===== *)
theory Smi_Lite_Unpack
  imports Smi_Unpack
begin

unbundle bit_operations_syntax

text \<open>
  The data half of the single-header library \<^verbatim>\<open>smilite.h\<close>: its own copies of the register
  layouts and offsets, of the unpackers and of the truncators. A program includes either this header or
  the library, so the copies have to agree: every definition here is translated from
  \<^verbatim>\<open>smilite.h\<close>, and the lemmas show it equal to the one translated from \<^verbatim>\<open>smi.h\<close> or
  \<^verbatim>\<open>smi.c\<close>. What differs is \<^verbatim>\<open>smi_unpack\<close>, which reports no error code.
\<close>

section \<open>Register layouts\<close>

definition lite_SMI_CS_BITFIELD :: bitfield_struct where
  "lite_SMI_CS_BITFIELD =
     [(''enable'', 1), (''done'', 1), (''active'', 1), (''start'', 1), (''clear'', 1),
      (''write'', 1), (''pad'', 2), (''teen'', 1), (''intd'', 1), (''intt'', 1),
      (''intr'', 1), (''pvmode'', 1), (''seterr'', 1), (''pxldat'', 1), (''edreq'', 1),
      (''_res'', 7), (''prdy'', 1), (''aferr'', 1), (''rxr'', 1), (''txw'', 1),
      (''rxd'', 1), (''txd'', 1), (''rxf'', 1), (''txe'', 1)]"

definition lite_SMI_L_BITFIELD :: bitfield_struct where
  "lite_SMI_L_BITFIELD =
     [(''length'', 32)]"

definition lite_SMI_A_BITFIELD :: bitfield_struct where
  "lite_SMI_A_BITFIELD =
     [(''addr'', 6), (''_x2'', 2), (''device'', 2), (''_x1'', 21)]"

definition lite_SMI_D_BITFIELD :: bitfield_struct where
  "lite_SMI_D_BITFIELD =
     [(''data'', 32)]"

definition lite_SMI_DC_BITFIELD :: bitfield_struct where
  "lite_SMI_DC_BITFIELD =
     [(''reqw'', 6), (''reqr'', 6), (''panicw'', 6), (''panicr'', 6), (''dmap'', 1),
      (''_x2'', 3), (''dmaen'', 1), (''_x1'', 3)]"

definition lite_SMI_DSR_BITFIELD :: bitfield_struct where
  "lite_SMI_DSR_BITFIELD =
     [(''rstrobe'', 7), (''rdreq'', 1), (''rpace'', 7), (''rpaceall'', 1), (''rhold'', 6),
      (''fsetup'', 1), (''mode68'', 1), (''rsetup'', 6), (''rwidth'', 2)]"

definition lite_SMI_DSW_BITFIELD :: bitfield_struct where
  "lite_SMI_DSW_BITFIELD =
     [(''wstrobe'', 7), (''wdreq'', 1), (''wpace'', 7), (''wpaceall'', 1), (''whold'', 6),
      (''wswap'', 1), (''wformat'', 1), (''wsetup'', 6), (''wwidth'', 2)]"

definition lite_SMI_DCS_BITFIELD :: bitfield_struct where
  "lite_SMI_DCS_BITFIELD =
     [(''enable'', 1), (''start'', 1), (''done'', 1), (''write'', 1), (''_res'', 28)]"

definition lite_SMI_DA_BITFIELD :: bitfield_struct where
  "lite_SMI_DA_BITFIELD =
     [(''addr'', 6), (''_x2'', 2), (''device'', 2), (''_x1'', 22)]"

definition lite_SMI_DD_BITFIELD :: bitfield_struct where
  "lite_SMI_DD_BITFIELD =
     [(''data'', 18), (''_res'', 14)]"

definition lite_SMI_FD_BITFIELD :: bitfield_struct where
  "lite_SMI_FD_BITFIELD =
     [(''fcnt'', 6), (''_x2'', 2), (''flvl'', 6), (''_x1'', 18)]"

definition lite_DMA_CS_BITFIELD :: bitfield_struct where
  "lite_DMA_CS_BITFIELD =
     [(''active'', 1), (''end'', 1), (''intr'', 1), (''dreq'', 1), (''pause'', 1),
      (''dreqstop'', 1), (''waiting_write'', 1), (''_x1'', 1), (''error'', 1), (''_x2'', 7),
      (''priority'', 4), (''panic_priority'', 4), (''_x3'', 4), (''wait_write'', 1), (''disdebug'', 1),
      (''abort'', 1), (''reset'', 1)]"

lemmas lite_layout_defs =
  lite_SMI_CS_BITFIELD_def SMI_CS_BITFIELD_def
  lite_SMI_L_BITFIELD_def SMI_L_BITFIELD_def
  lite_SMI_A_BITFIELD_def SMI_A_BITFIELD_def
  lite_SMI_D_BITFIELD_def SMI_D_BITFIELD_def
  lite_SMI_DC_BITFIELD_def SMI_DC_BITFIELD_def
  lite_SMI_DSR_BITFIELD_def SMI_DSR_BITFIELD_def
  lite_SMI_DSW_BITFIELD_def SMI_DSW_BITFIELD_def
  lite_SMI_DCS_BITFIELD_def SMI_DCS_BITFIELD_def
  lite_SMI_DA_BITFIELD_def SMI_DA_BITFIELD_def
  lite_SMI_DD_BITFIELD_def SMI_DD_BITFIELD_def
  lite_SMI_FD_BITFIELD_def SMI_FD_BITFIELD_def
  lite_DMA_CS_BITFIELD_def DMA_CS_BITFIELD_def

lemma lite_layouts:
  "lite_SMI_CS_BITFIELD = SMI_CS_BITFIELD"
  "lite_SMI_L_BITFIELD = SMI_L_BITFIELD"
  "lite_SMI_A_BITFIELD = SMI_A_BITFIELD"
  "lite_SMI_D_BITFIELD = SMI_D_BITFIELD"
  "lite_SMI_DC_BITFIELD = SMI_DC_BITFIELD"
  "lite_SMI_DSR_BITFIELD = SMI_DSR_BITFIELD"
  "lite_SMI_DSW_BITFIELD = SMI_DSW_BITFIELD"
  "lite_SMI_DCS_BITFIELD = SMI_DCS_BITFIELD"
  "lite_SMI_DA_BITFIELD = SMI_DA_BITFIELD"
  "lite_SMI_DD_BITFIELD = SMI_DD_BITFIELD"
  "lite_SMI_FD_BITFIELD = SMI_FD_BITFIELD"
  "lite_DMA_CS_BITFIELD = DMA_CS_BITFIELD"
  by (simp_all only: lite_layout_defs)

section \<open>Unpackers\<close>

definition lite_unpack_rgb565_8 :: "u32 list \<Rightarrow> u8 list \<Rightarrow> nat \<Rightarrow> u8 list outcome" where
  "lite_unpack_rgb565_8 raw out cnt =
     obind (c_for 0 cnt (\<lambda>i (out, dst).
         obind (fetch raw i) (\<lambda>word.
           let b1 = ucast (drop_bit 0 word AND 0xFF);
               b0 = ucast (drop_bit 8 word AND 0xFF);
               b3 = ucast (drop_bit 16 word AND 0xFF);
               b2 = ucast (drop_bit 24 word AND 0xFF) in
           obind (assigns out [(dst, [b0]), (dst + 1, [b1]), (dst + 2, [b2]), (dst + 3, [b3])])
             (\<lambda>out. Returns (out, dst + 4)))) (out, 0)) (\<lambda>s. Returns (fst s))"

definition lite_unpack_xrgb_8 :: "u32 list \<Rightarrow> u8 list \<Rightarrow> nat \<Rightarrow> u8 list outcome" where
  "lite_unpack_xrgb_8 raw out cnt =
     obind (c_for 0 cnt (\<lambda>i (out, dst).
         obind (fetch raw i) (\<lambda>word.
           let b2 = ucast (drop_bit 0 word AND 0xFF);
               b1 = ucast (drop_bit 8 word AND 0xFF);
               b0 = ucast (drop_bit 16 word AND 0xFF) in
           obind (assigns out [(dst, [b0]), (dst + 1, [b1]), (dst + 2, [b2])])
             (\<lambda>out. Returns (out, dst + 3)))) (out, 0)) (\<lambda>s. Returns (fst s))"

definition lite_unpack_xrgb_9 :: "u32 list \<Rightarrow> u8 list \<Rightarrow> nat \<Rightarrow> u8 list outcome" where
  "lite_unpack_xrgb_9 raw out cnt =
     obind (c_for 0 cnt (\<lambda>i (out, dst).
         obind (fetch raw i) (\<lambda>word.
           let d0 = ucast ((drop_bit 13 word AND 0x7) OR (drop_bit 15 word AND 0x1F8));
               d1 = ucast ((drop_bit 2 word AND 0x3F) OR (drop_bit 4 word AND 0x1C0)) in
           obind (assigns out [(dst, le16 d0), (dst + 2, le16 d1)])
             (\<lambda>out. Returns (out, dst + 4)))) (out, 0)) (\<lambda>s. Returns (fst s))"

definition lite_unpack_xrgb_9_swap :: "u32 list \<Rightarrow> u8 list \<Rightarrow> nat \<Rightarrow> u8 list outcome" where
  "lite_unpack_xrgb_9_swap raw out cnt =
     obind (c_for 0 cnt (\<lambda>i (out, dst).
         obind (fetch raw i) (\<lambda>word.
           let d0 = ucast ((drop_bit 2 word AND 0x3F) OR (drop_bit 4 word AND 0x1C0));
               d1 = ucast ((drop_bit 13 word AND 0x7) OR (drop_bit 15 word AND 0x1F8)) in
           obind (assigns out [(dst, le16 d0), (dst + 2, le16 d1)])
             (\<lambda>out. Returns (out, dst + 4)))) (out, 0)) (\<lambda>s. Returns (fst s))"

definition lite_unpack_rgb565_9_word :: "u32 \<Rightarrow> u16 list" where
  "lite_unpack_rgb565_9_word word =
     (let b0 = ucast (drop_bit 0 word AND 0xFF) :: u8;
          b1 = ucast (drop_bit 8 word AND 0xFF) :: u8;
          b2 = ucast (drop_bit 16 word AND 0xFF) :: u8;
          b3 = ucast (drop_bit 24 word AND 0xFF) :: u8;
          p0 = ucast b0 :: u32; p1 = ucast b1 :: u32; p2 = ucast b2 :: u32; p3 = ucast b3 :: u32;
          d1 = ucast (push_bit 1 p0 OR (drop_bit 7 p0 AND 0x1)) :: u16;
          d3 = ucast (push_bit 1 p2 OR (drop_bit 7 p2 AND 0x1)) :: u16;
          d0 = ucast ((push_bit 1 p1 AND 0x1F0) OR (drop_bit 2 p1 AND 0x8) OR (p1 AND 0x7)) :: u16;
          d2 = ucast ((push_bit 1 p3 AND 0x1F0) OR (drop_bit 2 p3 AND 0x8) OR (p3 AND 0x7)) :: u16 in
      [d0, d1, d2, d3])"

definition lite_unpack_rgb565_9 :: "u32 list \<Rightarrow> u8 list \<Rightarrow> nat \<Rightarrow> u8 list outcome" where
  "lite_unpack_rgb565_9 raw out cnt =
     obind (c_for 0 cnt (\<lambda>i (out, dst).
         obind (fetch raw i) (\<lambda>word.
           let word_buffer = lite_unpack_rgb565_9_word word in
           obind (assigns out
               [(dst, le16 (word_buffer ! 0)), (dst + 2, le16 (word_buffer ! 1)),
                (dst + 4, le16 (word_buffer ! 2)), (dst + 6, le16 (word_buffer ! 3))])
             (\<lambda>out. Returns (out, dst + 8)))) (out, 0)) (\<lambda>s. Returns (fst s))"

definition lite_apply_swap_16 :: "u16 list \<Rightarrow> u16 list" where
  "lite_apply_swap_16 w =
     (let t = w ! 0; w = w[0 := w ! 1]; w = w[1 := t];
          t = w ! 2; w = w[2 := w ! 3]; w = w[3 := t] in
      w)"

definition lite_unpack_rgb565_9_swap :: "u32 list \<Rightarrow> u8 list \<Rightarrow> nat \<Rightarrow> u8 list outcome" where
  "lite_unpack_rgb565_9_swap raw out cnt =
     obind (c_for 0 cnt (\<lambda>i (out, dst).
         obind (fetch raw i) (\<lambda>word.
           let word_buffer = lite_unpack_rgb565_9_word word in
           obind (assigns out
               [(dst, le16 (word_buffer ! 1)), (dst + 2, le16 (word_buffer ! 0)),
                (dst + 4, le16 (word_buffer ! 3)), (dst + 6, le16 (word_buffer ! 2))])
             (\<lambda>out. Returns (out, dst + 8)))) (out, 0)) (\<lambda>s. Returns (fst s))"

definition lite_unpack_xrgb_16 :: "u32 list \<Rightarrow> u8 list \<Rightarrow> nat \<Rightarrow> u8 list outcome" where
  "lite_unpack_xrgb_16 raw out cnt =
     (let pairs = cnt div 2 in
      obind (c_for 0 pairs (\<lambda>i (out, dst).
         obind (fetch raw (2 * i)) (\<lambda>word.
         obind (fetch raw (2 * i + 1)) (\<lambda>word2.
           let d0 = ucast (drop_bit 8 word AND 0xFFFF);
               d1 = ucast ((push_bit 8 word AND 0xFF00) OR (drop_bit 16 word2 AND 0x00FF));
               d2 = ucast (word2 AND 0xFFFF) in
           obind (assigns out [(dst, le16 d0), (dst + 2, le16 d1), (dst + 4, le16 d2)])
             (\<lambda>out. Returns (out, dst + 6))))) (out, 0)) (\<lambda>s. Returns (fst s)))"

definition lite_unpack_rgb565_16 :: "u32 list \<Rightarrow> u8 list \<Rightarrow> nat \<Rightarrow> u8 list outcome" where
  "lite_unpack_rgb565_16 raw out cnt =
     obind (c_for 0 cnt (\<lambda>i (out, dst).
         obind (fetch raw i) (\<lambda>word.
           let d0 = ucast (drop_bit 0 word AND 0xFFFF);
               d1 = ucast (drop_bit 16 word AND 0xFFFF) in
           obind (assigns out [(dst, le16 d0), (dst + 2, le16 d1)])
             (\<lambda>out. Returns (out, dst + 4)))) (out, 0)) (\<lambda>s. Returns (fst s))"

definition lite_unpack_xrgb_18 :: "u32 list \<Rightarrow> u8 list \<Rightarrow> nat \<Rightarrow> u8 list outcome" where
  "lite_unpack_xrgb_18 raw out cnt =
     obind (c_for 0 cnt (\<lambda>i (out, dst).
         obind (fetch raw i) (\<lambda>word.
           let d0 = (drop_bit 2 word AND 0x3F) OR (drop_bit 4 word AND 0xFC0)
                 OR (drop_bit 6 word AND 0x3F000) in
           obind (assigns out [(dst, le32 d0)]) (\<lambda>out. Returns (out, dst + 4)))) (out, 0)) (\<lambda>s. Returns (fst s))"

definition lite_unpack_rgb565_18 :: "u32 list \<Rightarrow> u8 list \<Rightarrow> nat \<Rightarrow> u8 list outcome" where
  "lite_unpack_rgb565_18 raw out cnt =
     obind (c_for 0 cnt (\<lambda>i (out, dst).
         obind (fetch raw i) (\<lambda>word.
           let w0 = drop_bit 0 word AND 0xFFFF;
               w1 = drop_bit 16 word AND 0xFFFF;
               d0 = (push_bit 2 w0 AND 0x3E000) OR (drop_bit 3 w0 AND 0x1000) OR (push_bit 1 w0 AND 0xFFE);
               d1 = (push_bit 2 w1 AND 0x3E000) OR (drop_bit 3 w1 AND 0x1000) OR (push_bit 1 w1 AND 0xFFE) in
           obind (assigns out [(dst, le32 d0), (dst + 4, le32 d1)]) (\<lambda>out. Returns (out, dst + 8)))) (out, 0)) (\<lambda>s. Returns (fst s))"

definition lite_reverse18 :: "u32 \<Rightarrow> u32" where
  "lite_reverse18 v =
     (let v = push_bit 1 (v AND 0x15555) OR drop_bit 1 (v AND 0x2AAAA);
          v = push_bit 2 (v AND 0x03333) OR drop_bit 2 (v AND 0x0CCCC);
          v = push_bit 4 (v AND 0x00F0F) OR drop_bit 4 (v AND 0x0F0F0);
          v = push_bit 8 (v AND 0x000FF) OR drop_bit 8 (v AND 0x3FC00) in
      v)"

definition lite_unpack_rgb565_18_swap :: "u32 list \<Rightarrow> u8 list \<Rightarrow> nat \<Rightarrow> u8 list outcome" where
  "lite_unpack_rgb565_18_swap raw out cnt =
     obind (c_for 0 cnt (\<lambda>i (out, dst).
         obind (fetch raw i) (\<lambda>word.
           let w0 = lite_reverse18 (drop_bit 0 word AND 0xFFFF);
               w1 = lite_reverse18 (drop_bit 16 word AND 0xFFFF);
               d0 = (push_bit 2 w0 AND 0x3E000) OR (drop_bit 3 w0 AND 0x1000) OR (push_bit 1 w0 AND 0xFFE);
               d1 = (push_bit 2 w1 AND 0x3E000) OR (drop_bit 3 w1 AND 0x1000) OR (push_bit 1 w1 AND 0xFFE) in
           obind (assigns out [(dst, le32 d0), (dst + 4, le32 d1)]) (\<lambda>out. Returns (out, dst + 8)))) (out, 0)) (\<lambda>s. Returns (fst s))"

section \<open>Dispatch, ratio and truncation\<close>

text \<open>
  The two formats are tested one after the other, and there is no result: an unknown width is
  reported on standard error only.
\<close>

definition lite_unpack :: "SMI_CXT \<Rightarrow> u32 list \<Rightarrow> u8 list \<Rightarrow> nat \<Rightarrow> u8 list outcome" where
  "lite_unpack cxt data out cnt =
     obind (config0 cxt) (\<lambda>(rc, wc).
       let width = rwidth rc;
           format = wformat wc;
           swap = wswap wc in
       if width = SMI_8_BITS then
         obind (if format = SMI_RGB565 then lite_unpack_rgb565_8 data out cnt else Returns out) (\<lambda>out.
         if format = SMI_XRGB then lite_unpack_xrgb_8 data out cnt else Returns out)
       else if width = SMI_9_BITS then
         obind (if format = SMI_RGB565 then
                  (if \<not> swap then lite_unpack_rgb565_9 data out cnt
                   else lite_unpack_rgb565_9_swap data out cnt)
                else Returns out) (\<lambda>out.
         if format = SMI_XRGB then
           (if \<not> swap then lite_unpack_xrgb_9 data out cnt else lite_unpack_xrgb_9_swap data out cnt)
         else Returns out)
       else if width = SMI_16_BITS then
         obind (if format = SMI_RGB565 then lite_unpack_rgb565_16 data out cnt else Returns out) (\<lambda>out.
         if format = SMI_XRGB then lite_unpack_xrgb_16 data out cnt else Returns out)
       else if width = SMI_18_BITS then
         obind (if format = SMI_RGB565 then
                  (if \<not> swap then lite_unpack_rgb565_18 data out cnt
                   else lite_unpack_rgb565_18_swap data out cnt)
                else Returns out) (\<lambda>out.
         if format = SMI_XRGB then lite_unpack_xrgb_18 data out cnt else Returns out)
       else Returns out)"

definition lite_packed_ratio :: "SMI_CXT \<Rightarrow> smi_pack_ratio_t outcome" where
  "lite_packed_ratio cxt =
     obind (config0 cxt) (\<lambda>(rc, wc).
       let width = rwidth rc;
           format = wformat wc in
       Returns
        (if \<not> pxldata cxt then mk_ratio 1 1
         else if width = SMI_8_BITS \<and> format = SMI_RGB565 then mk_ratio 1 4
         else if width = SMI_8_BITS \<and> format = SMI_XRGB then mk_ratio 1 3
         else if width = SMI_9_BITS \<and> format = SMI_RGB565 then mk_ratio 1 4
         else if width = SMI_9_BITS \<and> format = SMI_XRGB then mk_ratio 1 2
         else if width = SMI_16_BITS \<and> format = SMI_RGB565 then mk_ratio 1 2
         else if width = SMI_16_BITS \<and> format = SMI_XRGB then mk_ratio 2 3
         else if width = SMI_18_BITS \<and> format = SMI_RGB565 then mk_ratio 1 2
         else if width = SMI_18_BITS \<and> format = SMI_XRGB then mk_ratio 1 1
         else mk_ratio 1 1))"

definition lite_truncate_8 :: "u32 list \<Rightarrow> u8 list \<Rightarrow> nat \<Rightarrow> u8 list outcome" where
  "lite_truncate_8 data out cnt =
     c_for 0 cnt (\<lambda>i out. obind (fetch data i) (\<lambda>v. store out i [ucast (v AND 0xFF)])) out"

definition lite_truncate_9 :: "u32 list \<Rightarrow> u8 list \<Rightarrow> nat \<Rightarrow> u8 list outcome" where
  "lite_truncate_9 data out cnt =
     c_for 0 cnt (\<lambda>i out. obind (fetch data i) (\<lambda>v. store out (2 * i) (le16 (ucast (v AND 0x1FF))))) out"

definition lite_truncate_16 :: "u32 list \<Rightarrow> u8 list \<Rightarrow> nat \<Rightarrow> u8 list outcome" where
  "lite_truncate_16 data out cnt =
     c_for 0 cnt (\<lambda>i out. obind (fetch data i) (\<lambda>v. store out (2 * i) (le16 (ucast (v AND 0xFFFF))))) out"

definition lite_truncate_18 :: "u32 list \<Rightarrow> u8 list \<Rightarrow> nat \<Rightarrow> u8 list outcome" where
  "lite_truncate_18 data out cnt =
     c_for 0 cnt (\<lambda>i out. obind (fetch data i) (\<lambda>v. store out (4 * i) (le32 (v AND 0x3FFFF)))) out"

definition lite_truncate :: "SMI_CXT \<Rightarrow> u32 list \<Rightarrow> u8 list \<Rightarrow> nat \<Rightarrow> u8 list outcome" where
  "lite_truncate cxt data out cnt =
     obind (config0 cxt) (\<lambda>(rc, wc).
       let width = rwidth rc in
       if width = SMI_8_BITS then lite_truncate_8 data out cnt
       else if width = SMI_9_BITS then lite_truncate_9 data out cnt
       else if width = SMI_16_BITS then lite_truncate_16 data out cnt
       else if width = SMI_18_BITS then lite_truncate_18 data out cnt
       else Returns out)"

section \<open>The copies agree\<close>

lemma lite_helpers:
  "lite_unpack_rgb565_9_word = smi_unpack_rgb565_9_word" "lite_reverse18 = reverse18"
  "lite_apply_swap_16 = apply_swap_16"
  by (rule ext, simp only: lite_unpack_rgb565_9_word_def smi_unpack_rgb565_9_word_def lite_reverse18_def
      reverse18_def lite_apply_swap_16_def apply_swap_16_def)+

lemmas lite_helper_simps = lite_helpers(1,2)

lemma lite_unpackers:
  "lite_unpack_rgb565_8 = smi_unpack_rgb565_8"
  "lite_unpack_xrgb_8 = smi_unpack_xrgb_8"
  "lite_unpack_xrgb_9 = smi_unpack_xrgb_9"
  "lite_unpack_xrgb_9_swap = smi_unpack_xrgb_9_swap"
  "lite_unpack_rgb565_9 = smi_unpack_rgb565_9"
  "lite_unpack_rgb565_9_swap = smi_unpack_rgb565_9_swap"
  "lite_unpack_xrgb_16 = smi_unpack_xrgb_16"
  "lite_unpack_rgb565_16 = smi_unpack_rgb565_16"
  "lite_unpack_xrgb_18 = smi_unpack_xrgb_18"
  "lite_unpack_rgb565_18 = smi_unpack_rgb565_18"
  "lite_unpack_rgb565_18_swap = smi_unpack_rgb565_18_swap"
  by (intro ext, simp only: lite_helper_simps
      lite_unpack_rgb565_8_def smi_unpack_rgb565_8_def unpack_rgb565_8_iter_def [abs_def]
      lite_unpack_xrgb_8_def smi_unpack_xrgb_8_def unpack_xrgb_8_iter_def [abs_def]
      lite_unpack_xrgb_9_def smi_unpack_xrgb_9_def unpack_xrgb_9_iter_def [abs_def]
      lite_unpack_xrgb_9_swap_def smi_unpack_xrgb_9_swap_def unpack_xrgb_9_swap_iter_def [abs_def]
      lite_unpack_rgb565_9_def smi_unpack_rgb565_9_def unpack_rgb565_9_iter_def [abs_def]
      lite_unpack_rgb565_9_swap_def smi_unpack_rgb565_9_swap_def unpack_rgb565_9_swap_iter_def [abs_def]
      lite_unpack_xrgb_16_def smi_unpack_xrgb_16_def unpack_xrgb_16_iter_def [abs_def]
      lite_unpack_rgb565_16_def smi_unpack_rgb565_16_def unpack_rgb565_16_iter_def [abs_def]
      lite_unpack_xrgb_18_def smi_unpack_xrgb_18_def unpack_xrgb_18_iter_def [abs_def]
      lite_unpack_rgb565_18_def smi_unpack_rgb565_18_def unpack_rgb565_18_iter_def [abs_def]
      lite_unpack_rgb565_18_swap_def smi_unpack_rgb565_18_swap_def unpack_rgb565_18_swap_iter_def [abs_def])+

lemma lite_truncators:
  "lite_truncate_8 = smi_truncate_8" "lite_truncate_9 = smi_truncate_9"
  "lite_truncate_16 = smi_truncate_16" "lite_truncate_18 = smi_truncate_18"
  by (intro ext, simp only: lite_truncate_8_def smi_truncate_8_def lite_truncate_9_def smi_truncate_9_def
      lite_truncate_16_def smi_truncate_16_def lite_truncate_18_def smi_truncate_18_def
      truncate_8_iter_def [abs_def] truncate_9_iter_def [abs_def] truncate_16_iter_def [abs_def] truncate_18_iter_def [abs_def])+

lemma lite_unpack_agrees: "lite_unpack cxt data out cnt = obind (smi_unpack cxt data out cnt) (\<lambda>r. Returns (snd r))"
proof (cases "config0 cxt")
  case (Returns c)
  then obtain rc wc where "config0 cxt = Returns (rc, wc)" by (metis prod.collapse)
  then show ?thesis
    by (cases "wformat wc") (simp_all add: lite_unpack_def smi_unpack_def lite_unpackers obind_assoc Let_def)
qed (simp_all add: lite_unpack_def smi_unpack_def)

lemma lite_packed_ratio_agrees: "lite_packed_ratio = smi_packed_ratio"
  by (rule ext) (simp only: lite_packed_ratio_def smi_packed_ratio_def)

lemma lite_truncate_agrees: "lite_truncate = smi_truncate"
  by (intro ext) (simp only: lite_truncate_def smi_truncate_def lite_truncators)

section \<open>Properties\<close>

text \<open>
  C15: The single-header library unpacks, truncates and announces pack ratios exactly as the full
  one: for every context, FIFO words, destination and count the destination ends up the same, or
  both are undefined; only the error code is missing.
\<close>
theorem lite_data_agrees:
  "lite_unpack cxt data out cnt = obind (smi_unpack cxt data out cnt) (\<lambda>r. Returns (snd r)) \<and>
   lite_truncate cxt data out cnt = smi_truncate cxt data out cnt \<and>
   lite_packed_ratio cxt = smi_packed_ratio cxt"
  by (simp add: lite_unpack_agrees lite_truncate_agrees lite_packed_ratio_agrees)

end
