(* ===== verification/Smi_Lite.thy ===== *)
theory Smi_Lite
  imports Smi_Dma_Transfer Smi_Lite_Unpack
begin

unbundle bit_operations_syntax

text \<open>
  The await half of the single-header library \<^verbatim>\<open>smilite.h\<close>: its copies of the segment mapping and
  of the deadline functions, and its own await loops, which do not use the tiered wait of
  \<^verbatim>\<open>timeout.h\<close> but look at the clock once every 1025 polls. The library does not sleep, so what
  ends its loops is that time passes: \<open>passing\<close> says that a load of a register takes at least
  a nanosecond, \<open>paced\<close> that it takes at least \<open>p\<close>. The poll count of \<^verbatim>\<open>smi_read_await\<close>
  is an \<^verbatim>\<open>int\<close> that is never reset, so how long a load takes decides whether it overflows.
\<close>

section \<open>Copies\<close>

definition lite_map_segment ::
  "'h machine \<Rightarrow> MEM_MAP \<Rightarrow> uintptr \<Rightarrow> u32 \<Rightarrow> 'h world \<Rightarrow> MEM_MAP option \<times> 'h world" where
  "lite_map_segment m mp addr sz w =
     (let sz = PAGE_ROUNDUP sz;
          (fd, w) = sys m (Open ''/dev/mem'' ''O_RDWR|O_SYNC'') w in
      if fd < 0 then (None, perr ''Could not open /dev/'' w)
      else
        (let (mem, w) = sys m (Mmap (ucast sz) fd addr) w;
             (_, w) = sys m (Close fd) w in
         if mem = -1 then (None, perr ''Could not map memory'' w)
         else
           (Some (mp\<lparr>mm_virt := word_of_int mem, mm_bus := 0, mm_phys := addr,
                      mm_size := ucast sz\<rparr>), w)))"

definition lite_unmap_segment :: "'h machine \<Rightarrow> uintptr \<Rightarrow> u32 \<Rightarrow> 'h world \<Rightarrow> 'h world" where
  "lite_unmap_segment m mem sz w =
     (if mem \<noteq> 0 then snd (sys m (Munmap mem (ucast (PAGE_ROUNDUP sz))) w) else w)"

definition lite_start_timeout :: "'h machine \<Rightarrow> int \<Rightarrow> 'h world \<Rightarrow> int \<times> 'h world" where
  "lite_start_timeout m seconds w =
     (let (t, w) = clock_gettime m w in
      (tv_sec t * 1000000000 + tv_nsec t + seconds * 1000000000, w))"

definition lite_timeout_complete :: "'h machine \<Rightarrow> int \<Rightarrow> 'h world \<Rightarrow> bool \<times> 'h world" where
  "lite_timeout_complete m deadline w =
     (let (t, w) = clock_gettime m w; now_ns = tv_sec t * 1000000000 + tv_nsec t in
      (deadline \<le> now_ns, w))"

definition EINVAL :: int where "EINVAL = 22"

section \<open>Await loops\<close>

text \<open>
  The test in the middle of the loops: past 1024 polls look at the clock. The loop of
  \<^verbatim>\<open>smi_read_await\<close> does not reset the poll count afterwards, so its increment can overflow; the
  others do.
\<close>

definition lite_check :: "'h machine \<Rightarrow> int \<Rightarrow> nat \<Rightarrow> 'h world \<Rightarrow> bool \<times> 'h world" where
  "lite_check m deadline spin w =
     (if spin > 1024 then lite_timeout_complete m deadline w else (False, w))"

definition lite_spin :: "nat \<Rightarrow> nat" where
  "lite_spin spin = (if spin > 1024 then 0 else spin)"

definition lite_read_body ::
  "'h machine \<Rightarrow> uintptr \<Rightarrow> uintptr \<Rightarrow> int \<Rightarrow> int \<Rightarrow> 'h read_state
     \<Rightarrow> ('h read_state, int \<times> u32 list \<times> 'h world) iter" where
  "lite_read_body m cs d deadline len = (\<lambda>(cnt, spin, buf, w).
     if int cnt < len then
       (let (rxd, w) = fget m cs CS_rxd w in
        ibind (if rxd \<noteq> 0 then
                 (let (v, w) = ld32 m d w in obind (store buf cnt [v]) (\<lambda>buf. Returns (cnt + 1, buf, w)))
               else Returns (cnt, buf, w)) (\<lambda>(cnt, buf, w).
        let (expired, w) = lite_check m deadline spin w in
        if expired then
          (let w = perr ''Programmed read data fetch timeout'' w;
               w = fset m cs CS_clear 1 w in
           Leave (Returns (- ETIMEDOUT, buf, w)))
        else ibind (c_int (int spin + 1)) (\<lambda>_. Again (cnt, spin + 1, buf, w))))
     else
       (let (rxd, w) = fget m cs CS_rxd w;
            w = (if rxd \<noteq> 0 then perr ''Leftover data in the RX FIFO'' w else w) in
        Leave (Returns (int cnt, buf, w))))"

definition lite_read_await ::
  "'h machine \<Rightarrow> nat \<Rightarrow> SMI_CXT \<Rightarrow> u32 list option \<Rightarrow> int \<Rightarrow> 'h world
     \<Rightarrow> (int \<times> u32 list option \<times> 'h world) outcome" where
  "lite_read_await m fuel cxt ret_data len w =
     obind (deref (smi_regs cxt)) (\<lambda>regs.
     let cs = REG32 regs SMIO_CS;
         d = REG32 regs SMIO_D in
     case ret_data of None \<Rightarrow> Returns (- EINVAL, None, w)
     | Some buf \<Rightarrow>
         let (deadline, w) = lite_start_timeout m PROG_READ_TIMEOUT_S w in
         obind (loop fuel (lite_read_body m cs d deadline len) (0, 0, buf, w)) (\<lambda>(r, buf, w).
         Returns (r, Some buf, w)))"

definition lite_poll_body ::
  "'h machine \<Rightarrow> uintptr \<Rightarrow> field \<Rightarrow> int \<Rightarrow> nat \<times> 'h world
     \<Rightarrow> (nat \<times> 'h world, bool \<times> nat \<times> 'h world) iter" where
  "lite_poll_body m reg flag deadline = (\<lambda>(spin, w).
     let (v, w) = fget m reg flag w in
     if v \<noteq> 0 then Leave (Returns (False, spin, w))
     else
       (let (expired, w) = lite_check m deadline spin w in
        if expired then Leave (Returns (True, spin, w)) else Again (lite_spin spin + 1, w)))"

definition lite_direct_timeout ::
  "'h machine \<Rightarrow> uintptr \<Rightarrow> uintptr \<Rightarrow> string \<Rightarrow> 'h world \<Rightarrow> int \<times> 'h world" where
  "lite_direct_timeout m cs dcs msg w =
     (let w = perr msg w;
          w = fset m cs CS_clear 1 w;
          w = fset m dcs DCS_done 1 w in
      (- ETIMEDOUT, w))"

definition lite_next_addr :: "'h machine \<Rightarrow> uintptr \<Rightarrow> int \<Rightarrow> u8 \<Rightarrow> 'h world \<Rightarrow> u8 \<times> 'h world" where
  "lite_next_addr m da increment addr w =
     (if increment > 0 then (addr + 1, fset m da DA_addr (byte32 (addr + 1)) w)
      else if increment < 0 then (addr - 1, fset m da DA_addr (byte32 (addr - 1)) w)
      else (addr, w))"

definition lite_read_direct_body ::
  "'h machine \<Rightarrow> nat \<Rightarrow> MEM_MAP \<Rightarrow> int \<Rightarrow> int \<Rightarrow> int \<Rightarrow> 'h direct_state
     \<Rightarrow> ('h direct_state, int \<times> u32 list \<times> 'h world) iter" where
  "lite_read_direct_body m fuel regs deadline len increment = (\<lambda>(cnt, spin, addr, buf, w).
     if int cnt < len then
       (let cs = REG32 regs SMIO_CS; da = REG32 regs SMIO_DA;
            dcs = REG32 regs SMIO_DCS; dd = REG32 regs SMIO_DD;
            w = fset m dcs DCS_start 1 w in
        ibind (loop fuel (lite_poll_body m dcs DCS_done deadline) (spin, w)) (\<lambda>(expired, spin, w).
        if expired then
          (let (r, w) = lite_direct_timeout m cs dcs ''Direct read timeout'' w in
           Leave (Returns (r, buf, w)))
        else
          (let (v, w) = ld32 m dd w in
           ibind (store buf cnt [v AND 0xFF]) (\<lambda>buf.
           let w = fset m dcs DCS_done 1 w;
               (addr, w) = lite_next_addr m da increment addr w in
           Again (cnt + 1, spin, addr, buf, w)))))
     else Leave (Returns (int cnt, buf, w)))"

definition lite_read_await_direct ::
  "'h machine \<Rightarrow> nat \<Rightarrow> SMI_CXT option \<Rightarrow> u32 list option \<Rightarrow> u8 \<Rightarrow> int \<Rightarrow> int \<Rightarrow> 'h world
     \<Rightarrow> (int \<times> u32 list option \<times> 'h world) outcome" where
  "lite_read_await_direct m fuel cxt ret_data addr len increment w =
     (case (ret_data, cxt) of
        (Some buf, Some cxt) \<Rightarrow>
          obind (deref (smi_regs cxt)) (\<lambda>regs.
          let w = fset m (REG32 regs SMIO_DCS) DCS_write 0 w;
              w = fset m (REG32 regs SMIO_DA) DA_addr (byte32 addr) w;
              (deadline, w) = lite_start_timeout m DIRECT_READ_TIMEOUT_S w in
          obind (loop fuel (lite_read_direct_body m fuel regs deadline len increment) (0, 0, addr, buf, w))
            (\<lambda>(r, buf, w). Returns (r, Some buf, w)))
      | _ \<Rightarrow> Returns (- 1, ret_data, w))"

definition lite_write_timeout :: "'h machine \<Rightarrow> uintptr \<Rightarrow> string \<Rightarrow> 'h world \<Rightarrow> int \<times> 'h world" where
  "lite_write_timeout m cs msg w =
     (let w = perr msg w;
          w = fset m cs CS_clear 1 w;
          w = fset m cs CS_done 1 w in
      (- ETIMEDOUT, w))"

text \<open>Unlike \<^verbatim>\<open>smi.c\<close>, the word is stored before the FIFO is asked whether it has room.\<close>

definition lite_write_body ::
  "'h machine \<Rightarrow> nat \<Rightarrow> uintptr \<Rightarrow> uintptr \<Rightarrow> u32 list \<Rightarrow> int \<Rightarrow> int \<Rightarrow> nat \<times> nat \<times> 'h world
     \<Rightarrow> (nat \<times> nat \<times> 'h world, int \<times> 'h world) iter" where
  "lite_write_body m fuel cs d data deadline len = (\<lambda>(cnt, spin, w).
     let (dn, w) = fget m cs CS_done w in
     if dn \<noteq> 0 then Leave (Returns (int cnt, w))
     else
       ibind (if int cnt < len + 1
              then obind (fetch data cnt) (\<lambda>v. Returns (cnt + 1, st32 m d v w))
              else Returns (cnt, w)) (\<lambda>(cnt, w).
       ibind (loop fuel (lite_poll_body m cs CS_txd deadline) (spin, w)) (\<lambda>(expired, spin, w).
       if expired then
         Leave (Returns (lite_write_timeout m cs ''Programmed write await timeout - TX is full'' w))
       else
         (let (expired, w) = lite_check m deadline spin w in
          if expired then
            Leave (Returns (lite_write_timeout m cs ''Programmed write await timeout'' w))
          else
            (let (aferr, w) = fget m cs CS_aferr w in
             if aferr \<noteq> 0 then
               (let w = perr ''Protected registers written to during write'' w;
                    w = fset m cs CS_aferr 1 w;
                    w = fset m cs CS_clear 1 w in
                Leave (Returns (int cnt, w)))
             else Again (cnt, lite_spin spin + 1, w))))))"

definition lite_write_await ::
  "'h machine \<Rightarrow> nat \<Rightarrow> SMI_CXT option \<Rightarrow> u32 list option \<Rightarrow> int \<Rightarrow> 'h world
     \<Rightarrow> (int \<times> 'h world) outcome" where
  "lite_write_await m fuel cxt data len w =
     (case (data, cxt) of
        (Some data, Some cxt) \<Rightarrow>
          obind (deref (smi_regs cxt)) (\<lambda>regs.
          let cs = REG32 regs SMIO_CS;
              d = REG32 regs SMIO_D;
              (deadline, w) = lite_start_timeout m PROG_WRITE_TIMEOUT_S w in
          loop fuel (lite_write_body m fuel cs d data deadline len) (0, 0, w))
      | _ \<Rightarrow> Returns (- 1, w))"

definition lite_done_body ::
  "'h machine \<Rightarrow> uintptr \<Rightarrow> int \<Rightarrow> nat \<Rightarrow> 'h world \<Rightarrow> ('h world, bool \<times> 'h world) iter" where
  "lite_done_body m dcs deadline spin w =
     (let (dn, w) = fget m dcs DCS_done w in
      if dn \<noteq> 0 then Leave (Returns (False, w))
      else
        (let (expired, w) = lite_check m deadline spin w in
         if expired then Leave (Returns (True, w)) else Again w))"

definition lite_write_direct_body ::
  "'h machine \<Rightarrow> nat \<Rightarrow> MEM_MAP \<Rightarrow> u32 list \<Rightarrow> int \<Rightarrow> int \<Rightarrow> int \<Rightarrow> nat \<times> nat \<times> u8 \<times> 'h world
     \<Rightarrow> (nat \<times> nat \<times> u8 \<times> 'h world, int \<times> 'h world) iter" where
  "lite_write_direct_body m fuel regs data deadline len increment = (\<lambda>(cnt, spin, addr, w).
     if int cnt < len then
       (let cs = REG32 regs SMIO_CS; da = REG32 regs SMIO_DA;
            dcs = REG32 regs SMIO_DCS; dd = REG32 regs SMIO_DD in
        ibind (fetch data cnt) (\<lambda>v.
        let w = st32 m dd v w;
            w = fset m dcs DCS_start 1 w in
        ibind (loop fuel (lite_done_body m dcs deadline spin) w) (\<lambda>(expired, w).
        if expired then
          Leave (Returns (lite_direct_timeout m cs dcs ''Direct read array timeout'' w))
        else
          (let (addr, w) = lite_next_addr m da increment addr w in
           Again (cnt + 1, spin + 1, addr, w)))))
     else Leave (Returns (int cnt, w)))"

definition lite_write_await_direct ::
  "'h machine \<Rightarrow> nat \<Rightarrow> SMI_CXT option \<Rightarrow> u32 list option \<Rightarrow> u8 \<Rightarrow> int \<Rightarrow> int \<Rightarrow> 'h world
     \<Rightarrow> (int \<times> 'h world) outcome" where
  "lite_write_await_direct m fuel cxt data addr len increment w =
     (case (data, cxt) of
        (Some data, Some cxt) \<Rightarrow>
          obind (deref (smi_regs cxt)) (\<lambda>regs.
          let (deadline, w) = lite_start_timeout m PROG_WRITE_TIMEOUT_S w;
              w = fset m (REG32 regs SMIO_DCS) DCS_write 1 w in
          loop fuel (lite_write_direct_body m fuel regs data deadline len increment) (0, 0, addr, w))
      | _ \<Rightarrow> Returns (- 1, w))"

definition lite_dma_body ::
  "'h machine \<Rightarrow> uintptr \<Rightarrow> int \<Rightarrow> int \<times> 'h world \<Rightarrow> (int \<times> 'h world, int \<times> 'h world) iter" where
  "lite_dma_body m dma_cs deadline = (\<lambda>(delay, w).
     let (e, w) = fget m dma_cs DMACS_end w in
     if e \<noteq> 0 then Leave (Returns (1, w))
     else
       (let (expired, w) = lite_timeout_complete m deadline w in
        if expired then
          (let w = perr ''DMA transfer timeout'' w;
               w = fset m dma_cs DMACS_abort 1 w in
           Leave (Returns (- ETIMEDOUT, w)))
        else
          (let w = nanosleep m \<lparr>tv_sec = 0, tv_nsec = delay\<rparr> w in
           Again (if delay < 100000 then delay * 2 else delay, w))))"

definition lite_dma_await :: "'h machine \<Rightarrow> nat \<Rightarrow> SMI_CXT \<Rightarrow> 'h world \<Rightarrow> (int \<times> 'h world) outcome" where
  "lite_dma_await m fuel cxt w =
     obind (deref (dma_regs cxt)) (\<lambda>dregs.
     let dma_cs = REG32 dregs DMAO_CS;
         (deadline, w) = lite_start_timeout m PROG_READ_TIMEOUT_S w in
     loop fuel (lite_dma_body m dma_cs deadline) (1000, w))"

section \<open>The copies agree\<close>

lemma lite_copies:
  "lite_map_segment = map_segment" "lite_unmap_segment = unmap_segment"
  "lite_start_timeout = start_timeout" "lite_timeout_complete = timeout_complete"
  "lite_next_addr = next_addr"
  by (intro ext, simp only: lite_map_segment_def map_segment_def lite_unmap_segment_def unmap_segment_def
      lite_start_timeout_def start_timeout_def lite_timeout_complete_def timeout_complete_def
      lite_next_addr_def next_addr_def)+

lemma lite_dma_body_agrees: "lite_dma_body = dma_await_body"
  by (intro ext) (simp add: lite_dma_body_def dma_await_body_def dma_wait_def lite_copies Let_def split_beta)

lemma lite_dma_await_agrees: "lite_dma_await = smi_dma_await"
  by (intro ext) (simp add: lite_dma_await_def smi_dma_await_def lite_copies lite_dma_body_agrees)

section \<open>Time passes\<close>

definition passing :: "'h machine \<Rightarrow> ('h \<Rightarrow> int) \<Rightarrow> bool" where
  "passing m now \<longleftrightarrow> clock_law m now \<and> (\<forall>a h. now h + 1 \<le> now (snd (m_ld m a h)))"

lemma passing_law: "passing m now \<Longrightarrow> clock_law m now"
  by (simp add: passing_def)

definition paced :: "'h machine \<Rightarrow> ('h \<Rightarrow> int) \<Rightarrow> int \<Rightarrow> bool" where
  "paced m now p \<longleftrightarrow> clock_law m now \<and> (\<forall>a h. now h + p \<le> now (snd (m_ld m a h)))"

lemma paced_law: "paced m now p \<Longrightarrow> clock_law m now"
  by (simp add: paced_def)

lemma paced_fget: "paced m now p \<Longrightarrow> now (hw w) + p \<le> now (hw (snd (fget m a f w)))"
  by (simp add: paced_def fget_def ld32_def split_beta Let_def)

lemma passing_paced: "passing m now \<longleftrightarrow> paced m now 1"
  by (simp add: passing_def paced_def)

lemma passing_fget: "passing m now \<Longrightarrow> now (hw w) + 1 \<le> now (hw (snd (fget m a f w)))"
  by (simp add: passing_def fget_def ld32_def split_beta Let_def)

text \<open>
  What is left of a wait: polls until the clock is looked at, and a round of 1026 polls for every
  nanosecond before the deadline. A poll that loads a register and does not expire uses some of it.
\<close>

definition lite_budget :: "int \<Rightarrow> nat \<Rightarrow> int \<Rightarrow> nat" where
  "lite_budget d k t = (1025 - k) + 1026 * nat (d - t)"

lemma lite_budget_later: "t \<le> t' \<Longrightarrow> lite_budget d k t' \<le> lite_budget d k t"
  by (simp add: lite_budget_def)

lemma lite_check_now:
  "clock_law m now \<Longrightarrow> now (hw w) \<le> now (hw (snd (lite_check m d k w)))"
  by (simp add: lite_check_def lite_copies clock_law_simps)

lemma lite_check_expired:
  assumes "clock_law m now" and "fst (lite_check m d k w)"
  shows "d \<le> now (hw (snd (lite_check m d k w)))" and "1024 < k"
  using assms clock_law_simps(2) [OF assms(1), of w]
  by (auto simp: lite_check_def lite_copies timeout_complete_iff split: if_splits)

lemma lite_budget_round:
  assumes "1024 < k \<Longrightarrow> t < d" and "t + 1 \<le> t'"
  shows "lite_budget d (Suc (lite_spin k)) t' < lite_budget d k t"
    and "lite_budget d (Suc k) t' < lite_budget d k t"
proof -
  have le: "nat (d - t') \<le> nat (d - t)" using assms(2) by simp
  have "lite_budget d (Suc (lite_spin k)) t' < lite_budget d k t
    \<and> lite_budget d (Suc k) t' < lite_budget d k t"
  proof (cases "k > 1024")
    case True
    with assms have lt: "nat (d - t') + 1 \<le> nat (d - t)" by linarith
    from True have "1025 - k = 0" "lite_spin k = 0" "1025 - Suc k = 0" by (simp_all add: lite_spin_def)
    with lt show ?thesis unfolding lite_budget_def by linarith
  next
    case False
    then have "lite_spin k = k" "1025 - Suc k < 1025 - k" by (simp_all add: lite_spin_def)
    with le show ?thesis unfolding lite_budget_def by simp
  qed
  then show "lite_budget d (Suc (lite_spin k)) t' < lite_budget d k t"
      "lite_budget d (Suc k) t' < lite_budget d k t" by blast+
qed

lemma lite_check_open:
  "clock_law m now \<Longrightarrow> \<not> fst (lite_check m d k w) \<Longrightarrow> 1024 < k \<Longrightarrow> now (hw w) < d"
  by (simp add: lite_check_def lite_copies timeout_complete_iff)

text \<open>The load comes before the look at the clock, or after it.\<close>

lemma lite_check_cost:
  assumes "clock_law m now" and "\<not> fst (lite_check m d k w)" and "t + 1 \<le> now (hw w)"
  shows "lite_budget d (Suc (lite_spin k)) (now (hw (snd (lite_check m d k w)))) < lite_budget d k t"
    and "lite_budget d (Suc k) (now (hw (snd (lite_check m d k w)))) < lite_budget d k t"
proof -
  have "t + 1 \<le> now (hw (snd (lite_check m d k w)))"
    using lite_check_now [OF assms(1), of w d k] assms(3) by linarith
  moreover have "1024 < k \<Longrightarrow> t < d" using lite_check_open [OF assms(1,2)] assms(3) by simp
  ultimately show "lite_budget d (Suc (lite_spin k)) (now (hw (snd (lite_check m d k w)))) < lite_budget d k t"
      "lite_budget d (Suc k) (now (hw (snd (lite_check m d k w)))) < lite_budget d k t"
    by (auto intro: lite_budget_round)
qed

lemma lite_check_cost_after:
  assumes "clock_law m now" and "\<not> fst (lite_check m d k w)"
    and "now (hw (snd (lite_check m d k w))) + 1 \<le> t'"
  shows "lite_budget d (Suc (lite_spin k)) t' < lite_budget d k (now (hw w))"
  using lite_check_open [OF assms(1,2)] lite_check_now [OF assms(1), of w d k] assms(3)
  by (intro lite_budget_round) auto

lemma lite_check_logs [simp]:
  "stores (log (snd (lite_check m d k w))) = stores (log w)"
  "loads_from a (log (snd (lite_check m d k w))) = loads_from a (log w)"
  "store_addrs (snd (lite_check m d k w)) = store_addrs w"
  "stores_to a (snd (lite_check m d k w)) = stores_to a w"
  by (simp_all add: lite_check_def lite_copies)

lemma lite_budget_start:
  assumes "clock_law m now" and "0 \<le> s"
  shows "lite_budget (fst (start_timeout m s w)) 0 (now (hw (snd (start_timeout m s w))))
    \<le> 1025 + 1026 * (nat s * 1000000000)"
proof -
  have "fst (start_timeout m s w) - now (hw (snd (start_timeout m s w))) \<le> s * 1000000000"
    using clock_gettime_ns [OF assms(1), of w] clock_law_simps(2) [OF assms(1), of w]
    by (simp add: start_timeout_def split_beta Let_def)
  then have "nat (fst (start_timeout m s w) - now (hw (snd (start_timeout m s w)))) \<le> nat s * 1000000000"
    using assms(2) by linarith
  then show ?thesis by (simp add: lite_budget_def)
qed

lemma start_timeout_deadline:
  "clock_law m now \<Longrightarrow> fst (start_timeout m s w) = now (hw w) + s * 1000000000"
  using clock_gettime_ns [of m now w] by (simp add: start_timeout_def split_beta Let_def)

section \<open>Reading from the FIFO\<close>

definition lite_read_done ::
  "('h \<Rightarrow> int) \<Rightarrow> int \<Rightarrow> uintptr \<Rightarrow> uintptr \<Rightarrow> u32 list \<Rightarrow> 'h world \<Rightarrow> int
     \<Rightarrow> (int \<times> u32 list \<times> 'h world) outcome \<Rightarrow> bool" where
  "lite_read_done now dl cs d buf0 w0 len res \<longleftrightarrow>
     (\<exists>r buf w xs. res = Returns (r, buf, w) \<and> buf = overlay buf0 0 xs \<and> length xs \<le> nat len \<and>
        loads_from d (log w) = loads_from d (log w0) @ xs \<and>
        (length xs = nat len \<and> r = int (nat len) \<and> stores (log w) = stores (log w0)
       \<or> r = - ETIMEDOUT \<and> dl \<le> now (hw w) \<and> only_set cs CS_clear 1 w0 w))"

text \<open>
  Each poll takes 25 nanoseconds, and from the 1026th on each sees a clock before the deadline, so
  in 50 seconds there are no more than \<open>2000000000\<close>, which an \<^verbatim>\<open>int\<close> can count.
\<close>

definition lite_read_inv ::
  "('h \<Rightarrow> int) \<Rightarrow> uintptr \<Rightarrow> u32 list \<Rightarrow> 'h world \<Rightarrow> int \<Rightarrow> 'h read_state \<Rightarrow> bool" where
  "lite_read_inv now d buf0 w0 len = (\<lambda>(cnt, spin, buf, w).
     read_inv d buf0 w0 len (cnt, spin, buf, w) \<and>
     now (hw w0) + 25 * int spin \<le> now (hw w) \<and> spin \<le> 2000000000)"

lemma lite_read_iteration:
  assumes law: "paced m now 25" and "cs \<noteq> d" and fits: "nat len \<le> length buf0"
    and dl: "dl \<le> now (hw w0) + 50000000000"
    and inv: "lite_read_inv now d buf0 w0 len (cnt, spin, buf, w)"
  shows "case lite_read_body m cs d dl len (cnt, spin, buf, w) of
      Again s' \<Rightarrow> lite_read_inv now d buf0 w0 len s' \<and> fst (snd s') = Suc spin
    | Leave r \<Rightarrow> lite_read_done now dl cs d buf0 w0 len r"
proof -
  from inv obtain xs where xs: "length xs = cnt" "loads_from d (log w) = loads_from d (log w0) @ xs"
    "buf = overlay buf0 0 xs" "stores (log w) = stores (log w0)" "cnt \<le> nat len"
    and pace: "now (hw w0) + 25 * int spin \<le> now (hw w)" "spin \<le> 2000000000"
    by (auto simp: lite_read_inv_def read_inv_def)
  define w1 where "w1 = snd (fget m cs CS_rxd w)"
  have w1: "now (hw w) + 25 \<le> now (hw w1)" unfolding w1_def by (rule paced_fget [OF law])
  note clock = paced_law [OF law]
  show ?thesis
  proof (cases "int cnt < len")
    case False
    then show ?thesis
      using xs assms(2)
      by (auto simp: lite_read_body_def lite_read_done_def split_beta Let_def intro!: exI [of _ xs])
  next
    case True
    then have room: "cnt < length buf0" and lt: "cnt < nat len" using fits by linarith+
    define v where "v = fst (ld32 m d w1)"
    define got where "got \<longleftrightarrow> fst (fget m cs CS_rxd w) \<noteq> 0"
    define w2 where "w2 = (if got then snd (ld32 m d w1) else w1)"
    define ys where "ys = (if got then xs @ [v] else xs)"
    have st: "store buf cnt [v] = Returns (overlay buf0 0 (xs @ [v]))"
      using xs room overlay_overlay [of 0 xs "[v]" buf0] by (simp add: store_def)
    have w2: "now (hw w) + 25 \<le> now (hw w2)"
      using w1 clock_law_simps(3) [OF clock, of w1 d] by (auto simp: w2_def)
    have logs: "loads_from d (log w2) = loads_from d (log w0) @ ys" "stores (log w2) = stores (log w0)"
      using xs assms(2) by (auto simp: w2_def w1_def ys_def v_def)
    have ys: "length ys = (if got then Suc cnt else cnt)" "length ys \<le> nat len"
      using xs lt by (auto simp: ys_def)
    define w3 where "w3 = snd (lite_check m dl spin w2)"
    have count: "c_int (int spin + 1) = Returns (int spin + 1)"
      using pace(2) by (intro c_int_fits) auto
    have body: "lite_read_body m cs d dl len (cnt, spin, buf, w) =
        (if fst (lite_check m dl spin w2)
         then Leave (Returns (- ETIMEDOUT, overlay buf0 0 ys,
                fset m cs CS_clear 1 (perr ''Programmed read data fetch timeout'' w3)))
         else Again (length ys, Suc spin, overlay buf0 0 ys, w3))"
      using True st xs(3) count
      by (simp add: lite_read_body_def split_beta Let_def ys ys_def w2_def w3_def w1_def [symmetric]
          v_def [symmetric] got_def [symmetric] xs(1) del: One_nat_def)
    show ?thesis
    proof (cases "fst (lite_check m dl spin w2)")
      case True
      have "now (hw w3) \<le> now (hw (fset m cs CS_clear 1 (perr e w3)))" for e
        using clock_law_fields(2) [OF clock] clock_law_simps(8) [OF clock] by metis
      then have "dl \<le> now (hw (fset m cs CS_clear 1 (perr e w3)))" for e
        using lite_check_expired(1) [OF clock True] unfolding w3_def by (rule order_trans [rotated])
      moreover have "only_set cs CS_clear 1 w0 (fset m cs CS_clear 1 (perr e w3))" for e
        by (rule only_set_fset) (simp add: w3_def logs)
      ultimately show ?thesis
        using True ys(2) logs(1) assms(2) unfolding body lite_read_done_def
        by (auto simp: w3_def intro!: exI [of _ ys])
    next
      case False
      have "now (hw w2) \<le> now (hw w3)" unfolding w3_def by (rule lite_check_now [OF clock])
      moreover have "1024 < spin \<Longrightarrow> now (hw w2) < dl" using lite_check_open [OF clock False] .
      then have "Suc spin \<le> 2000000000" using pace w2 dl by (cases "1024 < spin") linarith+
      ultimately show ?thesis
        using False pace w2 ys logs
        unfolding body by (auto simp: lite_read_inv_def read_inv_def w3_def intro!: exI [of _ ys])
    qed
  qed
qed

lemma lite_read_loop:
  assumes "paced m now 25" and "cs \<noteq> d" and "nat len \<le> length buf0"
    and "dl \<le> now (hw w0) + 50000000000" and "2000000001 < fuel"
  shows "lite_read_done now dl cs d buf0 w0 len (loop fuel (lite_read_body m cs d dl len) (0, 0, buf0, w0))"
proof (rule loop_total [where I = "lite_read_inv now d buf0 w0 len" and
      M = "\<lambda>(cnt, spin, buf, w). 2000000001 - spin"], goal_cases)
  case (1 s s')
  obtain cnt spin buf w cnt' spin' buf' w' where s: "s = (cnt, spin, buf, w)" and s': "s' = (cnt', spin', buf', w')"
    by (metis prod_cases4)
  from 1 lite_read_iteration [OF assms(1-4), of cnt spin buf w]
  have inv: "lite_read_inv now d buf0 w0 len s' \<and> fst (snd s') = Suc spin" by (simp add: s)
  then have "spin' = Suc spin" and "spin' \<le> 2000000000" by (simp_all add: s' lite_read_inv_def)
  with inv show ?case by (simp add: s s')
next
  case (2 s r)
  then show ?case
    using lite_read_iteration [OF assms(1-4), of "fst s" "fst (snd s)" "fst (snd (snd s))" "snd (snd (snd s))"]
    by simp
qed (use assms(5) in \<open>auto simp: lite_read_inv_def read_inv_def\<close>)

lemma lite_read_await_total:
  assumes "paced m now 25" and "smi_regs cxt = Some regs" and "nat len \<le> length buf"
    and "2000000001 < fuel"
  shows "\<exists>r buf' w' xs. lite_read_await m fuel cxt (Some buf) len w = Returns (r, Some buf', w') \<and>
    buf' = overlay buf 0 xs \<and> length xs \<le> nat len \<and>
    loads_from (REG32 regs SMIO_D) (log w') = loads_from (REG32 regs SMIO_D) (log w) @ xs \<and>
    (length xs = nat len \<and> r = int (nat len) \<and> stores (log w') = stores (log w)
     \<or> r = - 110 \<and> now (hw w) + 50000000000 \<le> now (hw w') \<and>
       only_set (REG32 regs SMIO_CS) CS_clear 1 w w')"
proof -
  note clock = paced_law [OF assms(1)]
  let ?dl = "fst (start_timeout m PROG_READ_TIMEOUT_S w)" and ?w = "snd (start_timeout m PROG_READ_TIMEOUT_S w)"
  have dl: "?dl = now (hw w) + 50000000000"
    by (simp add: start_timeout_deadline [OF clock] PROG_READ_TIMEOUT_S_def)
  have "now (hw w) \<le> now (hw ?w)" unfolding start_timeout_world by (rule clock_law_simps(2) [OF clock])
  then have "?dl \<le> now (hw ?w) + 50000000000" unfolding dl by linarith
  from lite_read_loop [OF assms(1) regs_apart(2) assms(3) this assms(4), of regs, unfolded lite_read_done_def]
  obtain r buf' w' xs where
    run: "loop fuel (lite_read_body m (REG32 regs SMIO_CS) (REG32 regs SMIO_D) ?dl len) (0, 0, buf, ?w)
      = Returns (r, buf', w')" and "buf' = overlay buf 0 xs" "length xs \<le> nat len"
    "loads_from (REG32 regs SMIO_D) (log w') = loads_from (REG32 regs SMIO_D) (log ?w) @ xs"
    "length xs = nat len \<and> r = int (nat len) \<and> stores (log w') = stores (log ?w)
       \<or> r = - ETIMEDOUT \<and> ?dl \<le> now (hw w') \<and> only_set (REG32 regs SMIO_CS) CS_clear 1 ?w w'"
    by blast
  moreover have "lite_read_await m fuel cxt (Some buf) len w = Returns (r, Some buf', w')"
    using assms(2) run by (simp add: lite_read_await_def lite_copies split_beta Let_def)
  ultimately show ?thesis
    by (intro exI [of _ r] exI [of _ buf'] exI [of _ w'] exI [of _ xs])
      (simp add: ETIMEDOUT_def dl only_set_def)
qed

text \<open>
  A machine so fast that the count overflows before the deadline: no word ever comes, a load takes
  at most \<open>p\<close> nanoseconds and a look at the clock none.
\<close>

definition hasty :: "'h machine \<Rightarrow> ('h \<Rightarrow> int) \<Rightarrow> uintptr \<Rightarrow> int \<Rightarrow> bool" where
  "hasty m now cs p \<longleftrightarrow> clock_law m now \<and> never_ready m cs \<and>
     (\<forall>h. now (snd (m_ld m cs h)) \<le> now h + p \<and> now (snd (m_clock m h)) \<le> now h)"

lemma lite_read_overflows:
  assumes law: "hasty m now cs 23" and "0 < len"
    and dl: "now (hw w0) + 50000000000 \<le> dl" and fuel: "2147483648 < fuel"
  shows "loop fuel (lite_read_body m cs d dl len) (0, 0, buf, w0) = Undefined"
proof -
  have clock: "clock_law m now" and dead: "fst (fget m cs CS_rxd w) = 0" for w
    using law by (simp_all add: hasty_def never_ready_def fget_def ld32_def split_beta Let_def)
  let ?I = "\<lambda>(cnt, spin, b, w). cnt = 0 \<and> int spin \<le> INT_MAX \<and> now (hw w) \<le> now (hw w0) + 23 * int spin"
  have step: "lite_read_body m cs d dl len (0, spin, b, w) =
        (if int spin = INT_MAX then Leave Undefined
         else Again (0, Suc spin, b, snd (lite_check m dl spin (snd (fget m cs CS_rxd w))))) \<and>
      now (hw (snd (lite_check m dl spin (snd (fget m cs CS_rxd w))))) \<le> now (hw w0) + 23 * int (Suc spin)"
    if "int spin \<le> INT_MAX" and "now (hw w) \<le> now (hw w0) + 23 * int spin" for spin b w
  proof -
    define w1 where "w1 = snd (fget m cs CS_rxd w)"
    have w1: "now (hw w1) \<le> now (hw w0) + 23 * int (Suc spin)"
      using law that(2) unfolding w1_def hasty_def
      by (auto simp: fget_def ld32_def split_beta Let_def intro: order_trans)
    have "23 * int (Suc spin) < 50000000000" using that(1) by (simp add: INT_MAX_def)
    then have "now (hw w1) < dl" using w1 dl by linarith
    then have open_yet: "\<not> fst (lite_check m dl spin w1)"
      by (simp add: lite_check_def lite_copies timeout_complete_iff [OF clock])
    have "now (hw (snd (lite_check m dl spin w1))) \<le> now (hw w1)"
      using law by (simp add: hasty_def lite_check_def lite_copies clock_gettime_def split_beta Let_def)
    moreover have "c_int (int spin + 1) = (if int spin = INT_MAX then Undefined else Returns (int spin + 1))"
      using that(1) by (auto simp: c_int_def INT_MAX_def INT_MIN_def)
    ultimately show ?thesis
      using w1 open_yet dead assms(2)
      by (simp add: lite_read_body_def split_beta Let_def del: One_nat_def flip: w1_def)
  qed
  show ?thesis
  proof (rule loop_total [where I = ?I and M = "\<lambda>(cnt, spin, b, w). 2147483648 - spin"], goal_cases)
    case (1 s s')
    then show ?case using step by (cases s) (auto simp: INT_MAX_def split: if_splits)
  next
    case (2 s r)
    then show ?case using step by (cases s) (auto split: if_splits)
  qed (use fuel in \<open>auto simp: INT_MAX_def\<close>)
qed

lemma lite_read_await_undefined:
  assumes "hasty m now (REG32 regs SMIO_CS) 23" and "smi_regs cxt = Some regs" and "0 < len"
    and "2147483648 < fuel"
  shows "lite_read_await m fuel cxt (Some buf) len w = Undefined"
proof -
  have clock: "clock_law m now" using assms(1) by (simp add: hasty_def)
  let ?w = "snd (start_timeout m PROG_READ_TIMEOUT_S w)"
  have "now (hw ?w) \<le> now (hw w)"
    using assms(1) by (simp add: hasty_def start_timeout_world clock_gettime_def split_beta Let_def)
  then have "now (hw ?w) + 50000000000 \<le> fst (start_timeout m PROG_READ_TIMEOUT_S w)"
    by (simp add: start_timeout_deadline [OF clock] PROG_READ_TIMEOUT_S_def)
  from lite_read_overflows [OF assms(1,3) this assms(4)] show ?thesis
    using assms(2) by (simp add: lite_read_await_def lite_copies split_beta Let_def)
qed

section \<open>Polling a flag\<close>

lemma lite_poll_loop:
  assumes law: "passing m now" and fuel: "lite_budget dl spin (now (hw w0)) < fuel"
  shows "\<exists>e spin' w'. loop fuel (lite_poll_body m reg flag dl) (spin, w0) = Returns (e, spin', w') \<and>
    quiet w0 w' reg \<and> now (hw w0) \<le> now (hw w') \<and>
    lite_budget dl spin' (now (hw w')) \<le> lite_budget dl spin (now (hw w0)) \<and>
    (e \<longrightarrow> dl \<le> now (hw w'))"
proof (rule loop_total [where
      I = "\<lambda>(k, w). quiet w0 w reg \<and> now (hw w0) \<le> now (hw w) \<and>
        lite_budget dl k (now (hw w)) \<le> lite_budget dl spin (now (hw w0))" and
      M = "\<lambda>(k, w). lite_budget dl k (now (hw w))"], goal_cases)
  case (1 s s')
  note clock = passing_law [OF law]
  obtain k w where s: "s = (k, w)" by fastforce
  define w1 where "w1 = snd (fget m reg flag w)"
  have w1: "now (hw w) + 1 \<le> now (hw w1)" unfolding w1_def by (rule passing_fget [OF law])
  have w2: "now (hw w1) \<le> now (hw (snd (lite_check m dl k w1)))" by (rule lite_check_now [OF clock])
  from 1 have "\<not> fst (lite_check m dl k w1)" and s': "s' = (Suc (lite_spin k), snd (lite_check m dl k w1))"
    by (auto simp: s lite_poll_body_def split_beta Let_def w1_def split: if_splits)
  then show ?case
    using 1(1) w1 w2 lite_check_cost(1) [OF clock _ w1, of dl k]
    by (auto simp: s s' quiet_def w1_def)
next
  case (2 s r)
  note clock = passing_law [OF law]
  obtain k w where s: "s = (k, w)" by fastforce
  define w1 where "w1 = snd (fget m reg flag w)"
  define w2 where "w2 = snd (lite_check m dl k w1)"
  have w1: "now (hw w) + 1 \<le> now (hw w1)" unfolding w1_def by (rule passing_fget [OF law])
  have w2: "now (hw w1) \<le> now (hw w2)" unfolding w2_def by (rule lite_check_now [OF clock])
  have left: "lite_budget dl k (now (hw w1)) \<le> lite_budget dl k (now (hw w))"
      "lite_budget dl k (now (hw w2)) \<le> lite_budget dl k (now (hw w))"
    using w1 w2 by (auto intro: lite_budget_later)
  from 2 have "r = Returns (False, k, w1) \<or> r = Returns (True, k, w2) \<and> dl \<le> now (hw w2)"
    using lite_check_expired(1) [OF clock, of dl k w1]
    by (auto simp: s lite_poll_body_def split_beta Let_def w1_def w2_def split: if_splits)
  then show ?case
    using 2(1) w1 w2 left by (auto simp: s quiet_def w1_def w2_def)
qed (use fuel in \<open>auto simp: quiet_def\<close>)

section \<open>Writing to the FIFO\<close>

definition lite_write_done ::
  "uintptr \<Rightarrow> u32 list \<Rightarrow> 'h world \<Rightarrow> int \<Rightarrow> (int \<times> 'h world) outcome \<Rightarrow> bool" where
  "lite_write_done d data w0 len res \<longleftrightarrow>
     (\<exists>r w n. res = Returns (r, w) \<and> n \<le> nat (len + 1) \<and> stores_to d w = stores_to d w0 @ take n data \<and>
        (r = int n \<or> r = - ETIMEDOUT))"

lemma lite_write_iteration:
  assumes law: "passing m now" and apart: "cs \<noteq> d" "d \<noteq> cs" and fits: "nat (len + 1) \<le> length data"
    and fuel: "lite_budget dl k (now (hw w)) < fuel"
    and n: "n \<le> nat (len + 1)" and sent: "stores_to d w = stores_to d w0 @ take n data"
  shows "case lite_write_body m fuel cs d data dl len (n, k, w) of
      Again (n', k', w') \<Rightarrow> n' \<le> nat (len + 1) \<and> stores_to d w' = stores_to d w0 @ take n' data \<and>
        lite_budget dl k' (now (hw w')) < lite_budget dl k (now (hw w))
    | Leave r \<Rightarrow> lite_write_done d data w0 len r"
proof -
  note clock = passing_law [OF law]
  define w1 where "w1 = snd (fget m cs CS_done w)"
  have w1: "now (hw w) + 1 \<le> now (hw w1)" unfolding w1_def by (rule passing_fget [OF law])
  define w2 where "w2 = (if int n < len + 1 then st32 m d (data ! n) w1 else w1)"
  define n' where "n' = (if int n < len + 1 then Suc n else n)"
  have w2: "now (hw w) + 1 \<le> now (hw w2)"
    using w1 clock_law_simps(4) [OF clock, of w1 d "data ! n"] by (simp add: w2_def)
  have n': "n' \<le> nat (len + 1)" "stores_to d w2 = stores_to d w0 @ take n' data"
      "stores_to d w1 = stores_to d w0 @ take n data"
    using n sent fits by (auto simp: n'_def w2_def w1_def take_Suc_conv_app_nth)
  have fet: "int n < len + 1 \<Longrightarrow> fetch data n = Returns (data ! n)" using fits by simp
  have b2: "lite_budget dl k (now (hw w2)) \<le> lite_budget dl k (now (hw w))"
    using w2 by (auto intro: lite_budget_later)
  then have "lite_budget dl k (now (hw w2)) < fuel" using fuel by simp
  from lite_poll_loop [OF law this, of cs CS_txd] obtain e k2 w3 where
    poll: "loop fuel (lite_poll_body m cs CS_txd dl) (k, w2) = Returns (e, k2, w3)" "quiet w2 w3 cs"
      "lite_budget dl k2 (now (hw w3)) \<le> lite_budget dl k (now (hw w2))" by blast
  have run: "int n < len + 1 \<Longrightarrow> loop fuel (lite_poll_body m cs CS_txd dl) (k, st32 m d (data ! n) w1)
        = Returns (e, k2, w3)"
      "\<not> int n < len + 1 \<Longrightarrow> loop fuel (lite_poll_body m cs CS_txd dl) (k, w1) = Returns (e, k2, w3)"
    using poll(1) by (simp_all add: w2_def)
  show ?thesis
  proof (cases "fst (fget m cs CS_done w) \<noteq> 0")
    case True
    with n n'(3) show ?thesis
      by (auto simp: lite_write_body_def split_beta Let_def lite_write_done_def simp del: One_nat_def
          simp flip: w1_def intro!: exI [of _ n])
  next
    case False
    define w4 where "w4 = snd (lite_check m dl k2 w3)"
    define w5 where "w5 = snd (fget m cs CS_aferr w4)"
    have st: "stores_to d w3 = stores_to d w2" "stores_to d w4 = stores_to d w2" "stores_to d w5 = stores_to d w2"
      using quiet_stores_to [OF poll(2), of d] by (simp_all add: w4_def w5_def)
    have w5: "now (hw w4) + 1 \<le> now (hw w5)" unfolding w5_def by (rule passing_fget [OF law])
    have body: "lite_write_body m fuel cs d data dl len (n, k, w) =
        (if e then Leave (Returns (lite_write_timeout m cs ''Programmed write await timeout - TX is full'' w3))
         else if fst (lite_check m dl k2 w3)
         then Leave (Returns (lite_write_timeout m cs ''Programmed write await timeout'' w4))
         else if fst (fget m cs CS_aferr w4) \<noteq> 0
         then Leave (Returns (int n', fset m cs CS_clear 1 (fset m cs CS_aferr 1
                (perr ''Protected registers written to during write'' w5))))
         else Again (n', Suc (lite_spin k2), w5))"
      using False
      by (cases "int n < len + 1")
        (simp_all add: lite_write_body_def split_beta Let_def fet run n'_def
          del: One_nat_def flip: w1_def w4_def w5_def)
    have decr: "lite_budget dl (Suc (lite_spin k2)) (now (hw w5)) < lite_budget dl k (now (hw w))"
      if "\<not> fst (lite_check m dl k2 w3)"
    proof -
      have "lite_budget dl (Suc (lite_spin k2)) (now (hw w5)) < lite_budget dl k2 (now (hw w3))"
        using lite_check_cost_after [OF clock that] w5 by (simp add: w4_def)
      then show ?thesis using poll(3) b2 by linarith
    qed
    show ?thesis
      unfolding body using n' st decr
      by (auto simp: lite_write_done_def lite_write_timeout_def Let_def apart)
  qed
qed

lemma lite_write_loop:
  assumes "passing m now" and "cs \<noteq> d" "d \<noteq> cs" and "nat (len + 1) \<le> length data"
    and "lite_budget dl 0 (now (hw w0)) < fuel"
  shows "lite_write_done d data w0 len (loop fuel (lite_write_body m fuel cs d data dl len) (0, 0, w0))"
proof (rule loop_total [where
      I = "\<lambda>(n, k, w). n \<le> nat (len + 1) \<and> stores_to d w = stores_to d w0 @ take n data \<and>
        lite_budget dl k (now (hw w)) < fuel" and
      M = "\<lambda>(n, k, w). lite_budget dl k (now (hw w))"], goal_cases)
  case (1 s s')
  then show ?case
    using lite_write_iteration [OF assms(1-4), of dl "fst (snd s)" "snd (snd s)" fuel "fst s" w0]
    by (auto simp: split_beta)
next
  case (2 s r)
  then show ?case
    using lite_write_iteration [OF assms(1-4), of dl "fst (snd s)" "snd (snd s)" fuel "fst s" w0]
    by (auto simp: split_beta)
qed (use assms(5) in auto)

lemma lite_write_await_total:
  assumes "passing m now" and "smi_regs cxt = Some regs" and "nat (len + 1) \<le> length data"
    and "51300000001025 < fuel"
  shows "\<exists>r w' n. lite_write_await m fuel (Some cxt) (Some data) len w = Returns (r, w') \<and>
    n \<le> nat (len + 1) \<and>
    stores_to (REG32 regs SMIO_D) w' = stores_to (REG32 regs SMIO_D) w @ take n data \<and>
    (r = int n \<or> r = - 110)"
proof -
  let ?dl = "fst (start_timeout m PROG_WRITE_TIMEOUT_S w)"
    and ?w = "snd (start_timeout m PROG_WRITE_TIMEOUT_S w)"
  have "lite_budget ?dl 0 (now (hw ?w)) < fuel"
    using lite_budget_start [OF passing_law [OF assms(1)], of PROG_WRITE_TIMEOUT_S w] assms(4)
    by (simp add: PROG_WRITE_TIMEOUT_S_def)
  from lite_write_loop [OF assms(1) regs_apart(2,1) assms(3) this, of regs]
  show ?thesis
    using assms(2) by (auto simp: lite_write_done_def lite_write_await_def lite_copies ETIMEDOUT_def split_beta Let_def)
qed

section \<open>Direct reads\<close>

definition lite_read_direct_inv ::
  "('h \<Rightarrow> int) \<Rightarrow> int \<Rightarrow> MEM_MAP \<Rightarrow> u32 list \<Rightarrow> u8 \<Rightarrow> int \<Rightarrow> int \<Rightarrow> 'h world \<Rightarrow> 'h direct_state \<Rightarrow> bool" where
  "lite_read_direct_inv now dl regs buf0 a inc len w0 = (\<lambda>(n, k, addr, buf, w).
     n \<le> nat len \<and> addr = addr_after inc a n \<and>
     addr_fields (REG32 regs SMIO_DA) w = addr_fields (REG32 regs SMIO_DA) w0 @ addr_walk inc a n \<and>
     lite_budget dl k (now (hw w)) \<le> lite_budget dl 0 (now (hw w0)) \<and>
     (\<exists>xs. length xs = n \<and>
        loads_from (REG32 regs SMIO_DD) (log w) = loads_from (REG32 regs SMIO_DD) (log w0) @ xs \<and>
        buf = overlay buf0 0 (map (\<lambda>v. v AND 0xFF) xs)))"

definition lite_read_direct_done ::
  "MEM_MAP \<Rightarrow> u32 list \<Rightarrow> u8 \<Rightarrow> int \<Rightarrow> int \<Rightarrow> 'h world \<Rightarrow> (int \<times> u32 list \<times> 'h world) outcome \<Rightarrow> bool" where
  "lite_read_direct_done regs buf0 a inc len w0 res \<longleftrightarrow>
     (\<exists>r buf w xs. res = Returns (r, buf, w) \<and> buf = overlay buf0 0 (map (\<lambda>v. v AND 0xFF) xs) \<and>
        loads_from (REG32 regs SMIO_DD) (log w) = loads_from (REG32 regs SMIO_DD) (log w0) @ xs \<and>
        addr_fields (REG32 regs SMIO_DA) w
          = addr_fields (REG32 regs SMIO_DA) w0 @ addr_walk inc a (length xs) \<and>
        (if length xs = nat len then r = int (nat len)
         else length xs < nat len \<and> r = - ETIMEDOUT))"

lemma lite_read_direct_iteration:
  assumes law: "passing m now" and fits: "nat len \<le> length buf0"
    and fuel: "lite_budget dl 0 (now (hw w0)) < fuel"
    and inv: "lite_read_direct_inv now dl regs buf0 a inc len w0 s"
  shows "case lite_read_direct_body m fuel regs dl len inc s of
      Again s' \<Rightarrow> lite_read_direct_inv now dl regs buf0 a inc len w0 s' \<and> nat len - fst s' < nat len - fst s
    | Leave r \<Rightarrow> lite_read_direct_done regs buf0 a inc len w0 r"
proof -
  note clock = passing_law [OF law]
  obtain n k addr buf w where s: "s = (n, k, addr, buf, w)" by (metis prod_cases5)
  from inv obtain xs where st: "n \<le> nat len" "addr = addr_after inc a n" "length xs = n"
      "addr_fields (REG32 regs SMIO_DA) w = addr_fields (REG32 regs SMIO_DA) w0 @ addr_walk inc a n"
      "lite_budget dl k (now (hw w)) \<le> lite_budget dl 0 (now (hw w0))"
      "loads_from (REG32 regs SMIO_DD) (log w) = loads_from (REG32 regs SMIO_DD) (log w0) @ xs"
      "buf = overlay buf0 0 (map (\<lambda>v. v AND 0xFF) xs)"
    by (auto simp: lite_read_direct_inv_def s)
  let ?dcs = "REG32 regs SMIO_DCS" and ?dd = "REG32 regs SMIO_DD" and ?da = "REG32 regs SMIO_DA"
  show ?thesis
  proof (cases "int n < len")
    case False
    with st show ?thesis by (auto simp: s lite_read_direct_body_def lite_copies lite_read_direct_done_def)
  next
    case True
    then have lt: "n < nat len" by linarith
    define w1 where "w1 = fset m ?dcs DCS_start 1 w"
    have "now (hw w) \<le> now (hw w1)" unfolding w1_def by (rule clock_law_fields [OF clock])
    then have b1: "lite_budget dl k (now (hw w1)) \<le> lite_budget dl k (now (hw w))"
      by (rule lite_budget_later)
    then have "lite_budget dl k (now (hw w1)) < fuel" using fuel st(5) by simp
    from lite_poll_loop [OF law this, of ?dcs DCS_done] obtain e k2 w2 where
      poll: "loop fuel (lite_poll_body m ?dcs DCS_done dl) (k, w1) = Returns (e, k2, w2)"
      and q: "quiet w1 w2 ?dcs" and b2: "lite_budget dl k2 (now (hw w2)) \<le> lite_budget dl k (now (hw w1))"
      by blast
    have w2: "loads_from ?dd (log w2) = loads_from ?dd (log w)"
        "addr_fields ?da w2 = addr_fields ?da w"
      using q by (simp_all add: quiet_def w1_def addr_fields_def stores_to_def)
    show ?thesis
    proof (cases e)
      case True
      with \<open>int n < len\<close> lt st poll w2 show ?thesis
        by (auto simp: s lite_read_direct_body_def lite_copies Let_def lite_direct_timeout_def lite_read_direct_done_def
            addr_fields_simps simp del: One_nat_def simp flip: w1_def intro!: exI [of _ xs])
    next
      case False
      define v where "v = fst (ld32 m ?dd w2)"
      define w3 where "w3 = fset m ?dcs DCS_done 1 (snd (ld32 m ?dd w2))"
      have w3: "now (hw w2) \<le> now (hw w3)"
        unfolding w3_def using clock_law_simps(3) [OF clock] clock_law_fields(2) [OF clock] order_trans by blast
      have "?dd \<noteq> ?da" by simp
      from next_addr_result [OF this clock, of inc a n w3] obtain w4 where
        moved: "next_addr m ?da inc (addr_after inc a n) w3 = (addr_after inc a (Suc n), w4)"
        and w4: "addr_fields ?da w4 @ addr_walk inc a 0 = addr_fields ?da w3 @ drop n (addr_walk inc a (Suc n))"
          "loads_from ?dd (log w4) = loads_from ?dd (log w3)" "now (hw w3) \<le> now (hw w4)"
        by blast
      have sto: "store buf n [v AND 0xFF] = Returns (overlay buf0 0 (map (\<lambda>v. v AND 0xFF) (xs @ [v])))"
        using st \<open>int n < len\<close> fits overlay_overlay [of 0 "map (\<lambda>v. v AND 0xFF) xs" "[v AND 0xFF]" buf0]
        by (simp add: store_def)
      have body: "lite_read_direct_body m fuel regs dl len inc s =
          Again (Suc n, k2, addr_after inc a (Suc n), overlay buf0 0 (map (\<lambda>v. v AND 0xFF) (xs @ [v])), w4)"
        using \<open>int n < len\<close> False st(2) poll sto moved
        by (simp add: s lite_read_direct_body_def lite_copies Let_def split_beta del: One_nat_def map_append flip: w1_def v_def w3_def)
      have "now (hw w2) \<le> now (hw w4)" using w3 w4(3) by linarith
      then have "lite_budget dl k2 (now (hw w4)) \<le> lite_budget dl k2 (now (hw w2))" by (rule lite_budget_later)
      moreover have "addr_fields ?da w4 = addr_fields ?da w0 @ addr_walk inc a (Suc n)"
        using w4(1) w2(2) st(4) addr_walk_Suc [of inc a n]
        by (simp add: w3_def addr_fields_simps addr_walk_def split: if_splits)
      moreover have "loads_from ?dd (log w4) = loads_from ?dd (log w0) @ xs @ [v]"
        using w4(2) w2(1) st(6) by (simp add: w3_def v_def)
      ultimately show ?thesis
        using lt st(3) st(5) b1 b2 unfolding body lite_read_direct_inv_def
        by (auto simp: s intro!: exI [of _ "xs @ [v]"])
    qed
  qed
qed

lemma lite_read_direct_loop:
  assumes "passing m now" and "nat len \<le> length buf0"
    and "lite_budget dl 0 (now (hw w0)) < fuel" and "nat len < fuel"
  shows "lite_read_direct_done regs buf0 a inc len w0
    (loop fuel (lite_read_direct_body m fuel regs dl len inc) (0, 0, a, buf0, w0))"
proof (rule loop_total [where I = "lite_read_direct_inv now dl regs buf0 a inc len w0" and
      M = "\<lambda>s. nat len - fst s"], goal_cases)
  case (1 s s')
  then show ?case using lite_read_direct_iteration [OF assms(1-3), of regs a inc s] by simp
next
  case (2 s r)
  then show ?case using lite_read_direct_iteration [OF assms(1-3), of regs a inc s] by simp
qed (use assms(4) in \<open>auto simp: lite_read_direct_inv_def addr_after_def addr_walk_def\<close>)


lemma lite_read_await_direct_total:
  assumes "passing m now" and "smi_regs cxt = Some regs" and "nat len \<le> length buf"
    and "2052000001025 < fuel" and "nat len < fuel"
  shows "\<exists>r buf' w' xs. lite_read_await_direct m fuel (Some cxt) (Some buf) a len inc w =
      Returns (r, Some buf', w') \<and>
    buf' = overlay buf 0 (map (\<lambda>v. v AND 0xFF) xs) \<and>
    loads_from (REG32 regs SMIO_DD) (log w') = loads_from (REG32 regs SMIO_DD) (log w) @ xs \<and>
    addr_fields (REG32 regs SMIO_DA) w' = addr_fields (REG32 regs SMIO_DA) w
      @ [take_bit 6 (byte32 a)] @ addr_walk inc a (length xs) \<and>
    (if length xs = nat len then r = int (nat len) else length xs < nat len \<and> r = - ETIMEDOUT)"
proof -
  let ?start = "fset m (REG32 regs SMIO_DA) DA_addr (byte32 a) (fset m (REG32 regs SMIO_DCS) DCS_write 0 w)"
  let ?dl = "fst (start_timeout m DIRECT_READ_TIMEOUT_S ?start)"
    and ?w = "snd (start_timeout m DIRECT_READ_TIMEOUT_S ?start)"
  have "lite_budget ?dl 0 (now (hw ?w)) < fuel"
    using lite_budget_start [OF passing_law [OF assms(1)], of DIRECT_READ_TIMEOUT_S ?start] assms(4)
    by (simp add: DIRECT_READ_TIMEOUT_S_def)
  then have "lite_read_direct_done regs buf a inc len ?w
      (loop fuel (lite_read_direct_body m fuel regs ?dl len inc) (0, 0, a, buf, ?w))"
    using lite_read_direct_loop [OF assms(1,3) _ assms(5)] by blast
  then show ?thesis
    using assms(2) by (auto simp: lite_read_direct_done_def lite_read_await_direct_def lite_copies split_beta Let_def
        addr_fields_simps simp del: One_nat_def)
qed

section \<open>Devices that do not answer\<close>

lemma lite_write_await_direct_diverges:
  assumes "\<And>h. bf_get DCS_done (fst (m_ld m (REG32 regs SMIO_DCS) h)) = 0"
    and "smi_regs cxt = Some regs" and "0 < len" and "data \<noteq> []"
  shows "lite_write_await_direct m fuel (Some cxt) (Some data) a len inc w = OutOfFuel"
proof -
  have "loop fuel (lite_done_body m (REG32 regs SMIO_DCS) dl 0) w = OutOfFuel" for dl w
    by (rule loop_diverges [where I = "\<lambda>_. True"])
      (use assms(1) in \<open>auto simp: lite_done_body_def lite_check_def fget_def ld32_def split_beta Let_def\<close>)
  then have "loop fuel (lite_write_direct_body m fuel regs data dl len inc) (0, 0, a, w) = OutOfFuel" for dl w
    using assms(3,4) by (cases fuel) (simp_all add: lite_write_direct_body_def fetch_def Let_def)
  then show ?thesis
    using assms(2) by (simp add: lite_write_await_direct_def split_beta Let_def)
qed

text \<open>A FIFO with no room, and no transfer that completes.\<close>

definition full_fifo :: "'h machine \<Rightarrow> uintptr \<Rightarrow> bool" where
  "full_fifo m cs \<longleftrightarrow>
     (\<forall>h. bf_get CS_done (fst (m_ld m cs h)) = 0 \<and> bf_get CS_txd (fst (m_ld m cs h)) = 0)"

lemma full_fifo_flags:
  assumes "full_fifo m cs"
  shows "fst (fget m cs CS_done w) = 0" "fst (fget m cs CS_txd w) = 0"
  using assms by (simp_all add: full_fifo_def fget_def ld32_def split_beta Let_def)

text \<open>A poll of a flag that stays clear can only expire.\<close>

lemma poll_only_expires:
  assumes "\<And>w. fst (fget m reg flag w) = 0"
  shows "loop fuel (poll_body m reg flag dl) s \<noteq> Returns (False, k, w)"
    and "loop fuel (lite_poll_body m reg flag dl) s \<noteq> Returns (False, k, w)"
  by (rule loop_partial [where I = "\<lambda>_. True"];
      use assms in \<open>auto simp: poll_body_def lite_poll_body_def split_beta Let_def split: if_splits\<close>)+

lemma smi_write_await_full:
  assumes "full_fifo m (REG32 regs SMIO_CS)" and "clock_law m now" and "smi_regs cxt = Some regs"
    and "500512 < fuel"
  shows "\<exists>w'. smi_write_await m fuel (Some cxt) (Some data) len w = Returns (SMI_ERR_TIMEOUT, w') \<and>
    stores_to (REG32 regs SMIO_D) w' = stores_to (REG32 regs SMIO_D) w"
proof -
  let ?cs = "REG32 regs SMIO_CS" and ?d = "REG32 regs SMIO_D"
  let ?dl = "fst (start_timeout m PROG_WRITE_TIMEOUT_S w)"
    and ?w = "snd (start_timeout m PROG_WRITE_TIMEOUT_S w)"
  define w1 where "w1 = snd (fget m ?cs CS_done ?w)"
  have "spin_budget ?dl 0 (now (hw ?w)) < fuel"
    using start_budget [OF assms(2), of PROG_WRITE_TIMEOUT_S w] assms(4) by (simp add: timeouts SPIN_SOFT_LIMIT_def)
  then have "spin_budget ?dl 0 (now (hw w1)) < fuel"
    using tw.left_later [OF clock_law_fields(1) [OF assms(2), of ?w ?cs CS_done], of ?dl 0] by (simp add: w1_def)
  from poll_loop [OF assms(2) this, of ?cs CS_txd] obtain e k w2 where
    poll: "loop fuel (poll_body m ?cs CS_txd ?dl) (0, w1) = Returns (e, k, w2)" "quiet w1 w2 ?cs" by blast
  moreover from this have e
    using poll_only_expires(1) [of m ?cs CS_txd fuel ?dl "(0, w1)" k w2] full_fifo_flags(2) [OF assms(1)]
    by (cases e) (auto simp del: One_nat_def)
  ultimately have "write_await_body m fuel ?cs ?d data ?dl len (0, 0, ?w) =
      Leave (Returns (write_timeout m ?cs ''Write await timeout reached. Interface not receiving data'' w2))"
    using full_fifo_flags(1) [OF assms(1)]
    by (simp add: write_await_body_def split_beta Let_def del: One_nat_def flip: w1_def)
  then have "loop fuel (write_await_body m fuel ?cs ?d data ?dl len) (0, 0, ?w) =
      Returns (write_timeout m ?cs ''Write await timeout reached. Interface not receiving data'' w2)"
    using assms(4) by (intro loop_once) auto
  then have "smi_write_await m fuel (Some cxt) (Some data) len w =
      Returns (write_timeout m ?cs ''Write await timeout reached. Interface not receiving data'' w2)"
    using assms(3) by (simp add: smi_write_await_def split_beta Let_def)
  with quiet_stores_to [OF poll(2), of ?d] show ?thesis
    by (simp add: write_timeout_def Let_def w1_def)
qed


lemma lite_write_await_full:
  assumes "full_fifo m (REG32 regs SMIO_CS)" and "passing m now" and "smi_regs cxt = Some regs"
    and "51300000001025 < fuel" and "0 \<le> len" and "data \<noteq> []"
  shows "\<exists>w'. lite_write_await m fuel (Some cxt) (Some data) len w = Returns (- ETIMEDOUT, w') \<and>
    stores_to (REG32 regs SMIO_D) w' = stores_to (REG32 regs SMIO_D) w @ [hd data]"
proof -
  let ?cs = "REG32 regs SMIO_CS" and ?d = "REG32 regs SMIO_D"
  let ?dl = "fst (start_timeout m PROG_WRITE_TIMEOUT_S w)"
    and ?w = "snd (start_timeout m PROG_WRITE_TIMEOUT_S w)"
  note clock = passing_law [OF assms(2)]
  define w1 where "w1 = snd (fget m ?cs CS_done ?w)"
  define w2 where "w2 = st32 m ?d (hd data) w1"
  have "now (hw ?w) \<le> now (hw w2)"
    unfolding w2_def w1_def using clock_law_fields(1) [OF clock] clock_law_simps(4) [OF clock] order_trans by blast
  then have "lite_budget ?dl 0 (now (hw w2)) \<le> lite_budget ?dl 0 (now (hw ?w))" by (rule lite_budget_later)
  moreover have "lite_budget ?dl 0 (now (hw ?w)) < fuel"
    using lite_budget_start [OF clock, of PROG_WRITE_TIMEOUT_S w] assms(4) by (simp add: PROG_WRITE_TIMEOUT_S_def)
  ultimately have "lite_budget ?dl 0 (now (hw w2)) < fuel" by linarith
  from lite_poll_loop [OF assms(2) this, of ?cs CS_txd] obtain e k w3 where
    poll: "loop fuel (lite_poll_body m ?cs CS_txd ?dl) (0, w2) = Returns (e, k, w3)" "quiet w2 w3 ?cs" by blast
  have fet: "fetch data 0 = Returns (hd data)" using assms(6) by (simp add: fetch_def hd_conv_nth)
  from poll(1) have e
    using poll_only_expires(2) [of m ?cs CS_txd fuel ?dl "(0, w2)" k w3] full_fifo_flags(2) [OF assms(1)]
    by (cases e) (auto simp del: One_nat_def)
  with poll(1) have "lite_write_body m fuel ?cs ?d data ?dl len (0, 0, ?w) =
      Leave (Returns (lite_write_timeout m ?cs ''Programmed write await timeout - TX is full'' w3))"
    using full_fifo_flags(1) [OF assms(1)] assms(5)
    by (simp add: fet lite_write_body_def split_beta Let_def del: One_nat_def flip: w1_def w2_def)
  then have "loop fuel (lite_write_body m fuel ?cs ?d data ?dl len) (0, 0, ?w) =
      Returns (lite_write_timeout m ?cs ''Programmed write await timeout - TX is full'' w3)"
    using assms(4) by (intro loop_once) auto
  then have "lite_write_await m fuel (Some cxt) (Some data) len w =
      Returns (lite_write_timeout m ?cs ''Programmed write await timeout - TX is full'' w3)"
    using assms(3) by (simp add: lite_write_await_def lite_copies split_beta Let_def)
  with quiet_stores_to [OF poll(2), of ?d] show ?thesis
    by (simp add: lite_write_timeout_def Let_def w1_def w2_def)
qed


section \<open>Properties\<close>

text \<open>
  C16: \<^verbatim>\<open>smi_read_await\<close> of the single-header library returns on any machine whose loads take at
  least 25 nanoseconds, its poll count never reaching the end of \<^verbatim>\<open>int\<close>. The words it took are in the
  buffer in order; the result is their number if they all came, and then nothing was stored, or
  \<^verbatim>\<open>-ETIMEDOUT\<close>, negative as it should be and not before 50 seconds have passed, and the one store
  made is the control register with its clear bit set.
\<close>
theorem lite_read_await_result:
  assumes "paced m now 25" and "smi_regs cxt = Some regs" and "nat len \<le> length buf"
    and "2000000001 < fuel"
  shows "\<exists>r buf' w' xs. lite_read_await m fuel cxt (Some buf) len w = Returns (r, Some buf', w') \<and>
    buf' = overlay buf 0 xs \<and> length xs \<le> nat len \<and>
    loads_from (REG32 regs SMIO_D) (log w') = loads_from (REG32 regs SMIO_D) (log w) @ xs \<and>
    (length xs = nat len \<and> r = int (nat len) \<and> stores (log w') = stores (log w)
     \<or> r = - 110 \<and> now (hw w) + 50000000000 \<le> now (hw w') \<and>
       stores (log w') = stores (log w) @ [(REG32 regs SMIO_CS,
         bf_set CS_clear 1 (last (loads_from (REG32 regs SMIO_CS) (log w'))))])"
  using assms by (rule lite_read_await_total [unfolded only_set_def])

lemma ram_passing: "passing (ram_machine answer) snd"
  by (simp add: passing_def ram_clock_law) (simp add: ram_machine_def split_beta)

text \<open>Plain memory whose loads take \<open>p\<close> nanoseconds.\<close>

abbreviation (input) slow_ram :: "int \<Rightarrow> ram machine" where
  "slow_ram p \<equiv> ram0\<lparr>m_ld := \<lambda>a h. (fst h a, (fst h, snd h + p))\<rparr>"

lemma slow_ram_law: "0 \<le> p \<Longrightarrow> clock_law (slow_ram p) snd"
  by (simp add: clock_law_def ram_machine_def ns_of_def split_beta)

theorem lite_read_await_result_witness:
  "\<exists>r buf' w'. lite_read_await (slow_ram 25) 3000000000 (sample_cxt 0 False False True) (Some [5, 6, 7]) 2
     (ram_world (\<lambda>_. 0x08000000)) = Returns (r, Some buf', w') \<and> (r = 2 \<or> r = - 110)"
proof -
  have "paced (slow_ram 25) snd 25" by (simp add: paced_def slow_ram_law)
  from lite_read_await_result [OF this, of "sample_cxt 0 False False True" "sample_map 0x1000"
      2 "[5, 6, 7]" 3000000000 "ram_world (\<lambda>_. 0x08000000)"]
  show ?thesis by fastforce
qed

text \<open>
  C37: On a machine whose loads take at most 23 nanoseconds and a look at the clock none, and where no
  word ever comes, a read of one word or more with \<^verbatim>\<open>smi_read_await\<close> of the single-header library
  does not time out but is undefined: its poll count, which the other loops reset and this one does
  not, overflows \<^verbatim>\<open>int\<close> before the 50 seconds are over.
\<close>
theorem lite_read_await_overflows:
  assumes "hasty m now (REG32 regs SMIO_CS) 23" and "smi_regs cxt = Some regs" and "0 < len"
    and "2147483648 < fuel"
  shows "lite_read_await m fuel cxt (Some buf) len w = Undefined"
  using assms by (rule lite_read_await_undefined)

theorem lite_read_await_overflows_witness:
  "lite_read_await (slow_ram 10\<lparr>m_ld := \<lambda>a h. (0, (fst h, snd h + 10))\<rparr>) 3000000000
     (sample_cxt 0 False False True) (Some [5, 6, 7]) 2 (ram_world (\<lambda>_. 0)) = Undefined"
proof (rule lite_read_await_overflows [where regs = "sample_map 0x1000" and now = snd])
  have "clock_law (ram0\<lparr>m_ld := \<lambda>a h. (0, (fst h, snd h + 10))\<rparr>) snd"
    by (simp add: clock_law_def ram_machine_def ns_of_def split_beta)
  then show "hasty (slow_ram 10\<lparr>m_ld := \<lambda>a h. (0, (fst h, snd h + 10))\<rparr>) snd
      (REG32 (sample_map 0x1000) SMIO_CS) 23"
    by (simp add: hasty_def never_ready_def bf_get_def) (simp add: ram_machine_def split_beta)
qed simp_all

text \<open>
  C36: The two libraries treat a full FIFO differently: when there is no room and the transfer does
  not complete, the full library sends nothing, while the single-header library has stored the
  first word, which is lost, before it asks. Both end with their timeout code.
\<close>
theorem full_fifo_loses_word:
  assumes "full_fifo m (REG32 regs SMIO_CS)" and "passing m now" and "smi_regs cxt = Some regs"
    and "51300000001025 < fuel" and "0 \<le> len" and "data \<noteq> []"
  shows "(\<exists>w'. smi_write_await m fuel (Some cxt) (Some data) len w = Returns (SMI_ERR_TIMEOUT, w') \<and>
      stores_to (REG32 regs SMIO_D) w' = stores_to (REG32 regs SMIO_D) w) \<and>
    (\<exists>w'. lite_write_await m fuel (Some cxt) (Some data) len w = Returns (- ETIMEDOUT, w') \<and>
      stores_to (REG32 regs SMIO_D) w' = stores_to (REG32 regs SMIO_D) w @ [hd data])"
  using lite_write_await_full [OF assms] smi_write_await_full [OF assms(1) passing_law [OF assms(2)] assms(3)]
    assms(4) by simp

abbreviation (input) dead_machine :: "ram machine" where
  "dead_machine \<equiv> ram0\<lparr>m_ld := \<lambda>a h. (0, (fst h, snd h + 1))\<rparr>"

lemma dead_machine_laws: "full_fifo dead_machine cs" "passing dead_machine snd"
  using ram_clock_law [of "\<lambda>_. 0"] by (simp_all add: full_fifo_def passing_def clock_law_def bf_get_def)

theorem full_fifo_loses_word_witness:
  "\<exists>w'. lite_write_await dead_machine 60000000000000 (Some (sample_cxt 0 False False True)) (Some [7, 8]) 1
     (ram_world (\<lambda>_. 0)) = Returns (- ETIMEDOUT, w') \<and> stores_to 0x100c w' = [7]"
  using full_fifo_loses_word [OF dead_machine_laws, where regs = "sample_map 0x1000" and len = 1
      and cxt = "sample_cxt 0 False False True" and fuel = 60000000000000 and data = "[7, 8]"
      and w = "ram_world (\<lambda>_. 0)"]
  by (auto simp: SMIO_D_def stores_to_def ram_world_def)

text \<open>
  The direct write of the single-header library has the same defect as that of the full one:
  the poll count does not grow while it waits, so if the device never completes the first transfer
  it never returns.
\<close>
theorem lite_write_await_direct_hangs:
  assumes "\<And>h. bf_get DCS_done (fst (m_ld m (REG32 regs SMIO_DCS) h)) = 0"
    and "smi_regs cxt = Some regs" and "0 < len" and "data \<noteq> []"
  shows "lite_write_await_direct m fuel (Some cxt) (Some data) a len inc w = OutOfFuel"
  using assms by (rule lite_write_await_direct_diverges)

theorem lite_write_await_direct_hangs_witness:
  "lite_write_await_direct dead_machine 1000000 (Some (sample_cxt 0 False False True)) (Some [7]) 0 1 0
     (ram_world (\<lambda>_. 0)) = OutOfFuel"
  by (rule lite_write_await_direct_hangs [where regs = "sample_map 0x1000"]) (simp_all add: bf_get_def)

end
