(* ===== verification/Smi_Sram.thy ===== *)
theory Smi_Sram
  imports Smi_Transfer
begin

unbundle bit_operations_syntax

text \<open>
  The clients of the library in \<^verbatim>\<open>sram.c\<close>: the write and read-back demonstration on an
  SRAM chip, and the two bench loops. Uninitialised arrays are parameters: their content is arbitrary.
  Printed lines are results.

  The chip and the controller's direct mode are hardware. \<open>sram\<close> is what a program can see of
  them, \<open>sram_law\<close> is the law that a machine shows a chip: a transfer reads or writes one
  byte at the address the address register holds, and is over when the control register is next
  looked at.
\<close>

section \<open>The programs\<close>

text \<open>Assigning to members of \<^verbatim>\<open>*cxt->rw_config->rconfig\<close> and \<^verbatim>\<open>wconfig\<close>, their first elements.\<close>

definition set_config0 ::
  "(SMI_READ \<Rightarrow> SMI_READ) \<Rightarrow> (SMI_WRITE \<Rightarrow> SMI_WRITE) \<Rightarrow> SMI_CXT \<Rightarrow> SMI_CXT outcome" where
  "set_config0 f g cxt =
     obind (deref (rw_config cxt)) (\<lambda>rw.
     obind (fetch (rconfig rw) 0) (\<lambda>rc.
     obind (fetch (wconfig rw) 0) (\<lambda>wc.
     Returns (cxt\<lparr>rw_config := Some (rw\<lparr>rconfig := (rconfig rw)[0 := f rc],
                                         wconfig := (wconfig rw)[0 := g wc]\<rparr>)\<rparr>))))"

text \<open>The line printed for each element: its index, its address and its value.\<close>

definition sram_helloworld ::
  "'h machine \<Rightarrow> nat \<Rightarrow> u32 list \<Rightarrow> SMI_CXT \<Rightarrow> 'h world
     \<Rightarrow> ((nat \<times> nat \<times> u32) list \<times> SMI_CXT \<times> 'h world) outcome" where
  "sram_helloworld m fuel ret cxt w =
     obind (set_config0 (\<lambda>rc. rc\<lparr>rwidth := SMI_8_BITS\<rparr>)
         (\<lambda>wc. wc\<lparr>wformat := SMI_RGB565, wswap := False\<rparr>) cxt) (\<lambda>cxt.
     let cxt = cxt\<lparr>pxldata := True, pad := False, intd := False, intr := False, intt := False\<rparr>;
         data32 = [0xFF, 0x00, 0xFF, 0x00, 0xFF, 0x00, 0xFF, 0x00, 0xFF, 0x00, 0xFF, 0];
         len = 12 in
     obind (smi_direct_write_arr m fuel cxt (Some data32) 0 12 1 w) (\<lambda>(_, w).
     let w = sleep m 0 w in
     obind (smi_direct_read_arr m fuel cxt (Some ret) 0 len 1 w) (\<lambda>(len_read, ret, w).
     if len_read < 0 then Returns ([], cxt, perr ''Did not read'' w)
     else
       obind (deref ret) (\<lambda>ret.
       obind (c_for 0 (nat len) (\<lambda>i out. obind (fetch ret i) (\<lambda>v. Returns (out @ [(i, i mod 64, v)]))) [])
         (\<lambda>out. Returns (out, cxt, w))))))"

definition testbench_write ::
  "'h machine \<Rightarrow> nat \<Rightarrow> SMI_CXT \<Rightarrow> size_t \<Rightarrow> 'h world \<Rightarrow> (int \<times> 'h world) outcome" where
  "testbench_write m fuel cxt len w =
     c_for 0 (unat len)
       (\<lambda>i (count, w). obind (smi_direct_write m fuel cxt 0xA 0 w) (\<lambda>(r, w). Returns (count + r, w)))
       (0, w)"

text \<open>An array of \<^verbatim>\<open>block_len\<close> elements, and the division, need a positive length.\<close>

definition bench_reads ::
  "'h machine \<Rightarrow> nat \<Rightarrow> int \<Rightarrow> nat \<Rightarrow> int \<times> SMI_CXT \<times> u8 list \<times> 'h world
     \<Rightarrow> (int \<times> SMI_CXT \<times> u8 list \<times> 'h world) outcome" where
  "bench_reads m fuel block_len i = (\<lambda>(count, cxt, ret, w).
     obind (smi_programmed_read_arr m fuel cxt ret 1 block_len w) (\<lambda>(r, cxt, ret, w).
     Returns (count + r, cxt, ret, w)))"

definition testbench_read ::
  "'h machine \<Rightarrow> nat \<Rightarrow> u8 list \<Rightarrow> SMI_CXT \<Rightarrow> size_t \<Rightarrow> int \<Rightarrow> 'h world
     \<Rightarrow> (int \<times> SMI_CXT \<times> 'h world) outcome" where
  "testbench_read m fuel ret cxt len block_len w =
     obind (set_config0 (\<lambda>rc. rc\<lparr>rwidth := SMI_8_BITS\<rparr>)
         (\<lambda>wc. wc\<lparr>wformat := SMI_RGB565, wswap := False\<rparr>) cxt) (\<lambda>cxt.
     let cxt = cxt\<lparr>pxldata := True, pixel_value_mode := 0, pad := False, intd := False,
                   intr := False, intt := False\<rparr> in
     if block_len \<le> 0 then Undefined
     else
       (let itr = len div word_of_int block_len;
            (start, w) = clock_gettime m w in
        obind (c_for 0 (unat itr) (bench_reads m fuel block_len) (0, cxt, ret, w)) (\<lambda>(_, cxt, _, w).
        let (stop, w) = clock_gettime m w in
        Returns ((tv_sec stop - tv_sec start) * 1000000000 + (tv_nsec stop - tv_nsec start), cxt, w))))"

text \<open>
  The two benchmarks print and save floating-point statistics of the times measured
  (\<open>Smi_Stats\<close>). Here they return what the statistics are computed from: the block length or number of threads, the sum of
  the five times and the times. \<open>junk n\<close> is the uninitialised array of a read of \<open>n\<close> words.
\<close>

definition TEST_ITERATIONS :: nat where "TEST_ITERATIONS = 5"
definition ITERATIONS :: size_t where "ITERATIONS = 1048576"

type_synonym 'h bench_state = "int \<times> int list \<times> SMI_CXT \<times> 'h world"

definition timed_reads ::
  "'h machine \<Rightarrow> nat \<Rightarrow> (nat \<Rightarrow> u8 list) \<Rightarrow> int \<Rightarrow> 'h bench_state \<Rightarrow> 'h bench_state outcome" where
  "timed_reads m fuel junk block = (\<lambda>(total, times, cxt, w).
     obind (testbench_read m fuel (junk (nat block)) cxt ITERATIONS block w) (\<lambda>(_, cxt, w).
     c_for 0 TEST_ITERATIONS
       (\<lambda>i (total, times, cxt, w).
         obind (testbench_read m fuel (junk (nat block)) cxt ITERATIONS block w) (\<lambda>(t, cxt, w).
         Returns (total + t, times @ [t], cxt, w)))
       (total, times, cxt, w)))"

definition block_round ::
  "'h machine \<Rightarrow> nat \<Rightarrow> (nat \<Rightarrow> u8 list) \<Rightarrow> int \<Rightarrow> (int \<times> int \<times> int list) list \<times> SMI_CXT \<times> 'h world
     \<Rightarrow> ((int \<times> int \<times> int list) list \<times> SMI_CXT \<times> 'h world) outcome" where
  "block_round m fuel junk block = (\<lambda>(rows, cxt, w).
     obind (timed_reads m fuel junk block (0, [], cxt, w)) (\<lambda>(total, times, cxt, w).
     Returns (rows @ [(block, total, times)], cxt, w)))"

definition megbyte_load_block_test ::
  "'h machine \<Rightarrow> nat \<Rightarrow> (nat \<Rightarrow> u8 list) \<Rightarrow> SMI_CXT \<Rightarrow> 'h world
     \<Rightarrow> ((int \<times> int \<times> int list) list \<times> SMI_CXT \<times> 'h world) outcome" where
  "megbyte_load_block_test m fuel junk cxt w =
     (let (csv, w) = sys m (Fopen ''read.csv'') w in
      if csv = 0 then Returns ([], cxt, perr ''Failed to open CSV file'' w)
      else
        obind (c_double 8 1048576 (block_round m fuel junk) ([], cxt, w)) (\<lambda>(rows, cxt, w).
        Returns (rows, cxt, snd (sys m (Fclose csv) w))))"

text \<open>The threads only burn processor time (\<^verbatim>\<open>cpu_load\<close>), and none is ever joined.\<close>

definition thread_round ::
  "'h machine \<Rightarrow> nat \<Rightarrow> (nat \<Rightarrow> u8 list) \<Rightarrow> int
     \<Rightarrow> int \<times> (int \<times> int \<times> int list) list \<times> SMI_CXT \<times> 'h world
     \<Rightarrow> (int \<times> (int \<times> int \<times> int list) list \<times> SMI_CXT \<times> 'h world) outcome" where
  "thread_round m fuel junk threads = (\<lambda>(total, rows, cxt, w).
     obind (c_for 0 (nat threads) (\<lambda>i w. Returns (snd (sys m PthreadCreate w))) w) (\<lambda>w.
     obind (timed_reads m fuel junk 2048 (total, [], cxt, w)) (\<lambda>(total, times, cxt, w).
     Returns (0, rows @ [(threads, total, times)], cxt, w))))"

definition megbyte_load_thread_test ::
  "'h machine \<Rightarrow> nat \<Rightarrow> (nat \<Rightarrow> u8 list) \<Rightarrow> SMI_CXT \<Rightarrow> 'h world
     \<Rightarrow> ((int \<times> int \<times> int list) list \<times> SMI_CXT \<times> 'h world) outcome" where
  "megbyte_load_thread_test m fuel junk cxt w =
     obind (c_double 1 256 (thread_round m fuel junk) (0, [], cxt, w)) (\<lambda>(_, rows, cxt, w).
     Returns (rows, cxt, w))"

section \<open>An SRAM chip\<close>

record sram =
  cell :: "u32 \<Rightarrow> u8"
  at_addr :: u32
  latch_in :: u32
  latch_out :: u32
  writing :: bool

text \<open>What a store to one of the direct mode registers does to the chip and the latches.\<close>

definition sram_transfer :: "sram \<Rightarrow> sram" where
  "sram_transfer s =
     (if writing s then s\<lparr>cell := (cell s)(at_addr s := ucast (latch_in s))\<rparr>
      else s\<lparr>latch_out := ucast (cell s (at_addr s))\<rparr>)"

definition sram_store :: "MEM_MAP \<Rightarrow> uintptr \<Rightarrow> u32 \<Rightarrow> sram \<Rightarrow> sram" where
  "sram_store regs a v s =
     (if a = REG32 regs SMIO_DA then s\<lparr>at_addr := bf_get DA_addr v\<rparr>
      else if a = REG32 regs SMIO_DD then s\<lparr>latch_in := v\<rparr>
      else if a = REG32 regs SMIO_DCS then
        (let s = s\<lparr>writing := (bf_get DCS_write v \<noteq> 0)\<rparr> in
         if bf_get DCS_start v \<noteq> 0 then sram_transfer s else s)
      else s)"

definition sram_law :: "'h machine \<Rightarrow> ('h \<Rightarrow> sram) \<Rightarrow> MEM_MAP \<Rightarrow> bool" where
  "sram_law m chip regs \<longleftrightarrow>
     (\<forall>h. (\<forall>a. chip (snd (m_ld m a h)) = chip h) \<and>
        (\<forall>a v. chip (m_st m a v h) = sram_store regs a v (chip h)) \<and>
        chip (snd (m_clock m h)) = chip h \<and> (\<forall>s. chip (m_sleep m s h) = chip h) \<and>
        fst (m_ld m (REG32 regs SMIO_DD) h) = latch_out (chip h) \<and>
        bf_get DCS_start (fst (m_ld m (REG32 regs SMIO_DCS) h)) = 0 \<and>
        bf_get DCS_done (fst (m_ld m (REG32 regs SMIO_DCS) h)) \<noteq> 0 \<and>
        (bf_get DCS_write (fst (m_ld m (REG32 regs SMIO_DCS) h)) \<noteq> 0) = writing (chip h))"

text \<open>The cells a block transfer from address \<open>a\<close> visits, and a block of bytes written there.\<close>

definition slot :: "int \<Rightarrow> u8 \<Rightarrow> nat \<Rightarrow> u32" where
  "slot inc a n = take_bit 6 (byte32 (addr_after inc a n))"

primrec put_block :: "int \<Rightarrow> u8 \<Rightarrow> nat \<Rightarrow> u32 list \<Rightarrow> (u32 \<Rightarrow> u8) \<Rightarrow> (u32 \<Rightarrow> u8)" where
  "put_block inc a n [] c = c"
| "put_block inc a n (v # vs) c = put_block inc a (Suc n) vs (c(slot inc a n := ucast v))"

lemma put_block_snoc:
  "put_block inc a n (vs @ [v]) c = (put_block inc a n vs c)(slot inc a (n + length vs) := ucast v)"
  by (induction vs arbitrary: n c) simp_all

lemma sram_accesses:
  assumes "sram_law m chip regs"
  shows "chip (hw (snd (ld32 m b w))) = chip (hw w)"
    and "chip (hw (st32 m b v w)) = sram_store regs b v (chip (hw w))"
    and "chip (hw (snd (clock_gettime m w))) = chip (hw w)"
    and "chip (hw (sleep m k w)) = chip (hw w)"
    and "chip (hw (snd (fget m b f w))) = chip (hw w)"
    and "fst (ld32 m (REG32 regs SMIO_DD) w) = latch_out (chip (hw w))"
    and "fst (fget m (REG32 regs SMIO_DCS) DCS_done w) \<noteq> 0"
  using assms by (simp_all add: sram_law_def access_defs split_beta Let_def)

lemma sram_apart [simp]:
  "REG32 regs SMIO_CS \<noteq> REG32 regs SMIO_DA" "REG32 regs SMIO_CS \<noteq> REG32 regs SMIO_DCS"
  "REG32 regs SMIO_DSR0 \<noteq> REG32 regs SMIO_DA" "REG32 regs SMIO_DSR0 \<noteq> REG32 regs SMIO_DD"
  "REG32 regs SMIO_DSR0 \<noteq> REG32 regs SMIO_DCS"
  by (simp_all add: REG32_def offset_defs)

lemma sram_fset_other:
  assumes "sram_law m chip regs" and "b \<noteq> REG32 regs SMIO_DA" and "b \<noteq> REG32 regs SMIO_DD"
    and "b \<noteq> REG32 regs SMIO_DCS"
  shows "chip (hw (fset m b f x w)) = chip (hw w)"
    and "chip (hw (fsets m b xs w)) = chip (hw w)"
proof -
  show one: "chip (hw (fset m b f x w)) = chip (hw w)" for f x w
    using assms by (simp add: fset_def split_beta sram_accesses sram_store_def)
  show "chip (hw (fsets m b xs w)) = chip (hw w)"
    by (induction xs arbitrary: w) (auto simp: one)
qed

text \<open>Assignments to members of the direct address and control registers.\<close>

lemma sram_fset:
  assumes law: "sram_law m chip regs"
  shows "chip (hw (fset m (REG32 regs SMIO_DA) DA_addr x w)) = (chip (hw w))\<lparr>at_addr := take_bit 6 x\<rparr>"
    and "chip (hw (fset m (REG32 regs SMIO_DCS) DCS_start 1 w)) = sram_transfer (chip (hw w))"
    and "chip (hw (fset m (REG32 regs SMIO_DCS) DCS_done 1 w)) = chip (hw w)"
    and "chip (hw (fset m (REG32 regs SMIO_DCS) DCS_write x w))
      = (chip (hw w))\<lparr>writing := take_bit 1 x \<noteq> 0\<rparr>"
proof -
  let ?v = "fst (ld32 m (REG32 regs SMIO_DCS) w)"
  have v: "bf_get DCS_start ?v = 0" "(bf_get DCS_write ?v \<noteq> 0) = writing (chip (hw w))"
    using law by (simp_all add: sram_law_def ld32_def split_beta Let_def)
  show "chip (hw (fset m (REG32 regs SMIO_DA) DA_addr x w)) = (chip (hw w))\<lparr>at_addr := take_bit 6 x\<rparr>"
    by (simp add: fset_def split_beta sram_accesses [OF law] sram_store_def bf_get_set fld_ok_def bf_trunc_def)
  show "chip (hw (fset m (REG32 regs SMIO_DCS) DCS_start 1 w)) = sram_transfer (chip (hw w))"
    using v by (simp add: fset_def split_beta sram_accesses [OF law] sram_store_def bf_get_set
        bf_get_set_apart fld_apart_def fld_ok_def bf_trunc_def)
  show "chip (hw (fset m (REG32 regs SMIO_DCS) DCS_done 1 w)) = chip (hw w)"
    using v by (simp add: fset_def split_beta sram_accesses [OF law] sram_store_def bf_get_set
        bf_get_set_apart fld_apart_def fld_ok_def bf_trunc_def)
  show "chip (hw (fset m (REG32 regs SMIO_DCS) DCS_write x w))
      = (chip (hw w))\<lparr>writing := take_bit 1 x \<noteq> 0\<rparr>"
    using v by (simp add: fset_def split_beta sram_accesses [OF law] sram_store_def bf_get_set
        bf_get_set_apart fld_apart_def fld_ok_def bf_trunc_def)
qed

lemma sram_next_addr:
  assumes law: "sram_law m chip regs" and here: "at_addr (chip (hw w)) = slot inc a n"
  obtains w' where "next_addr m (REG32 regs SMIO_DA) inc (addr_after inc a n) w = (addr_after inc a (Suc n), w')"
    and "chip (hw w') = (chip (hw w))\<lparr>at_addr := slot inc a (Suc n)\<rparr>"
proof -
  let ?r = "next_addr m (REG32 regs SMIO_DA) inc (addr_after inc a n) w"
  have "fst ?r = addr_after inc a (Suc n)"
    by (simp add: next_addr_def addr_after_def algebra_simps)
  moreover have "chip (hw (snd ?r)) = (chip (hw w))\<lparr>at_addr := slot inc a (Suc n)\<rparr>"
  proof (cases "inc = 0")
    case True
    with here have "at_addr (chip (hw w)) = slot inc a (Suc n)" by (simp add: slot_def addr_after_def)
    then have "(chip (hw w))\<lparr>at_addr := slot inc a (Suc n)\<rparr> = chip (hw w)" by (metis sram.surjective sram.update_convs(2))
    with True show ?thesis by (simp add: next_addr_def)
  next
    case False
    then show ?thesis
      by (auto simp: next_addr_def slot_def addr_after_def sram_fset [OF law] algebra_simps)
  qed
  ultimately show ?thesis by (intro that [of "snd ?r"]) (auto simp: prod_eq_iff)
qed

lemma sram_done_at_once:
  assumes "sram_law m chip regs" and "0 < fuel"
  obtains w' where "loop fuel (write_done_body m (REG32 regs SMIO_DCS) dl k) w = Returns (False, w')"
    and "loop fuel (poll_body m (REG32 regs SMIO_DCS) DCS_done dl) (k, w) = Returns (False, k, w')"
    and "chip (hw w') = chip (hw w)"
  using assms sram_accesses(5,7) [OF assms(1)]
  by (fastforce simp: write_done_body_def poll_body_def split_beta Let_def gr0_conv_Suc)

definition sram_written :: "int \<Rightarrow> u8 \<Rightarrow> (u32 \<Rightarrow> u8) \<Rightarrow> u32 list \<Rightarrow> nat \<Rightarrow> sram \<Rightarrow> bool" where
  "sram_written inc a c data n s \<longleftrightarrow>
     n \<le> length data \<and> writing s \<and> at_addr s = slot inc a n \<and> cell s = put_block inc a 0 (take n data) c"

lemma sram_write_iteration:
  assumes law: "sram_law m chip regs" and "0 < fuel" and "sram_written inc a c data n (chip (hw w))"
  shows "if n < length data
    then \<exists>w'. write_direct_body m fuel regs data dl (int (length data)) inc (n, k, addr_after inc a n, w)
        = Again (Suc n, Suc k, addr_after inc a (Suc n), w') \<and> sram_written inc a c data (Suc n) (chip (hw w'))
    else write_direct_body m fuel regs data dl (int (length data)) inc (n, k, addr_after inc a n, w)
        = Leave (Returns (int (length data), w))"
proof (cases "n < length data")
  case True
  let ?dcs = "REG32 regs SMIO_DCS"
  define w1 where "w1 = fset m ?dcs DCS_start 1 (st32 m (REG32 regs SMIO_DD) (data ! n) w)"
  obtain w2 where w2: "loop fuel (write_done_body m ?dcs dl k) w1 = Returns (False, w2)"
      "chip (hw w2) = chip (hw w1)"
    using sram_done_at_once [OF law assms(2)] by metis
  have chip1: "cell (chip (hw w2)) = (cell (chip (hw w)))(slot inc a n := ucast (data ! n))"
      "at_addr (chip (hw w2)) = at_addr (chip (hw w))" "writing (chip (hw w2))"
    using assms(3) by (simp_all add: w2(2) w1_def sram_fset [OF law] sram_accesses [OF law] sram_store_def
        sram_transfer_def sram_written_def del: One_nat_def)
  then have "at_addr (chip (hw w2)) = slot inc a n" using assms(3) by (simp add: sram_written_def)
  from sram_next_addr [OF law this] obtain w3 where
    w3: "next_addr m (REG32 regs SMIO_DA) inc (addr_after inc a n) w2 = (addr_after inc a (Suc n), w3)"
      "chip (hw w3) = (chip (hw w2))\<lparr>at_addr := slot inc a (Suc n)\<rparr>" by blast
  have "sram_written inc a c data (Suc n) (chip (hw w3))"
    using assms(3) True put_block_snoc [of inc a 0 "take n data" "data ! n" c]
    by (simp add: w3(2) chip1 sram_written_def take_Suc_conv_app_nth)
  then show ?thesis
    using True w2(1) w3(1)
    by (simp add: write_direct_body_def fetch_def Let_def flip: w1_def del: One_nat_def)
qed (use assms(3) in \<open>simp add: write_direct_body_def sram_written_def\<close>)

lemma sram_write_loop:
  assumes law: "sram_law m chip regs" and "length data < fuel" and "sram_written inc a c data 0 (chip (hw w))"
  shows "\<exists>w'. loop fuel (write_direct_body m fuel regs data dl (int (length data)) inc) (0, 0, a, w)
      = Returns (int (length data), w') \<and> sram_written inc a c data (length data) (chip (hw w'))"
proof (rule loop_total [where M = "\<lambda>(n, k, addr, w). length data - n" and
      I = "\<lambda>(n, k, addr, w). addr = addr_after inc a n \<and> sram_written inc a c data n (chip (hw w))"], goal_cases)
  case (1 s s')
  then show ?case
    using sram_write_iteration [OF law, of fuel inc a c data "fst s" "snd (snd (snd s))" dl "fst (snd s)"] assms(2)
    by (cases s) (auto split: if_splits)
next
  case (2 s r)
  then show ?case
    using sram_write_iteration [OF law, of fuel inc a c data "fst s" "snd (snd (snd s))" dl "fst (snd s)"] assms(2)
    by (cases s) (auto simp: sram_written_def split: if_splits)
qed (use assms in \<open>auto simp: addr_after_def\<close>)

text \<open>A block write stores the block in the chip, after a zero in its first cell.\<close>

lemma sram_write_arr:
  assumes law: "sram_law m chip regs" and regs: "smi_regs cxt = Some regs"
    and "length data < 256" and "length data < fuel"
  shows "\<exists>w'. smi_direct_write_arr m fuel cxt (Some data) a (of_nat (length data)) inc w = Returns (1, w') \<and>
    cell (chip (hw w')) = put_block inc a 0 data ((cell (chip (hw w)))(slot inc a 0 := 0)) \<and>
    writing (chip (hw w'))"
proof -
  let ?da = "REG32 regs SMIO_DA" and ?dcs = "REG32 regs SMIO_DCS" and ?dd = "REG32 regs SMIO_DD"
    and ?cs = "REG32 regs SMIO_CS" and ?dsr = "REG32 regs SMIO_DSR0"
  let ?c = "(cell (chip (hw w)))(slot inc a 0 := 0)"
  define w1 where "w1 = fset m ?dcs DCS_start 1 (st32 m ?dd 0 (fset m ?da DA_addr (byte32 a)
    (fset m ?dcs DCS_write 1 (fset m ?dcs DCS_done 1 (fset m ?dsr DSR_rwidth 0
      (fsets m ?cs direct_setup (st32 m ?cs 0 w)))))))"
  define w2 where "w2 = fset m ?dcs DCS_write 1 (snd (start_timeout m PROG_WRITE_TIMEOUT_S w1))"
  have "sram_written inc a ?c data 0 (chip (hw w2))"
    by (simp add: w2_def w1_def start_timeout_world sram_fset [OF law] sram_accesses [OF law]
        sram_fset_other [OF law] sram_store_def sram_transfer_def sram_written_def slot_def addr_after_def del: One_nat_def)
  from sram_write_loop [OF law assms(4) this] obtain w' where
    "loop fuel (write_direct_body m fuel regs data (fst (start_timeout m PROG_WRITE_TIMEOUT_S w1))
        (int (length data)) inc) (0, 0, a, w2) = Returns (int (length data), w')"
    and w': "sram_written inc a ?c data (length data) (chip (hw w'))" by blast
  moreover have "uint (of_nat (length data) :: u8) = int (length data)"
    using assms(3) by (simp add: uint_nat unat_of_nat take_bit_nat_eq_self)
  ultimately have "smi_direct_write_arr m fuel cxt (Some data) a (of_nat (length data)) inc w = Returns (1, w')"
    using regs by (simp add: smi_direct_write_arr_def smi_write_await_direct_def Let_def split_beta
        w2_def [symmetric] w1_def [symmetric] del: One_nat_def)
  with w' show ?thesis by (auto simp: sram_written_def)
qed

section \<open>Reading a block back\<close>

definition chip_words :: "int \<Rightarrow> u8 \<Rightarrow> (u32 \<Rightarrow> u8) \<Rightarrow> nat \<Rightarrow> u32 list" where
  "chip_words inc a c n = map (\<lambda>i. ucast (c (slot inc a i))) [0..<n]"

lemma low_byte: "(v :: u32) AND 0xFF = take_bit 8 v"
  by (simp add: take_bit_eq_mask mask_eq_exp_minus_1)

lemma byte_masked: "(ucast (x :: u8) :: u32) AND 0xFF = ucast x"
  unfolding low_byte by (intro bit_word_eqI) (auto simp: bit_simps dest: bit_imp_le_length)

definition sram_read ::
  "int \<Rightarrow> u8 \<Rightarrow> (u32 \<Rightarrow> u8) \<Rightarrow> u32 list \<Rightarrow> nat \<Rightarrow> nat \<Rightarrow> u8 \<Rightarrow> u32 list \<Rightarrow> sram \<Rightarrow> bool" where
  "sram_read inc a c buf0 len n addr buf s \<longleftrightarrow>
     n \<le> len \<and> addr = addr_after inc a n \<and> buf = overlay buf0 0 (chip_words inc a c n) \<and>
     \<not> writing s \<and> at_addr s = slot inc a n \<and> cell s = c"

lemma sram_read_iteration:
  assumes law: "sram_law m chip regs" and "0 < fuel" and fits: "len \<le> length buf0"
    and inv: "sram_read inc a c buf0 len n addr buf (chip (hw w))"
  shows "if n < len
    then \<exists>buf' w'. read_direct_body m fuel regs dl (int len) inc (n, k, addr, buf, w)
        = Again (Suc n, k, addr_after inc a (Suc n), buf', w') \<and>
      sram_read inc a c buf0 len (Suc n) (addr_after inc a (Suc n)) buf' (chip (hw w'))
    else read_direct_body m fuel regs dl (int len) inc (n, k, addr, buf, w)
        = Leave (Returns (int len, buf, w))"
proof (cases "n < len")
  case True
  note st = inv [unfolded sram_read_def]
  let ?dcs = "REG32 regs SMIO_DCS" and ?dd = "REG32 regs SMIO_DD"
  define w1 where "w1 = fset m ?dcs DCS_start 1 w"
  obtain w2 where w2: "loop fuel (poll_body m ?dcs DCS_done dl) (k, w1) = Returns (False, k, w2)"
      "chip (hw w2) = chip (hw w1)"
    using sram_done_at_once [OF law assms(2)] by metis
  define v w3 where "v = fst (ld32 m ?dd w2)" and "w3 = fset m ?dcs DCS_done 1 (snd (ld32 m ?dd w2))"
  have v: "v = ucast (c (slot inc a n))"
    using st by (simp add: v_def w2(2) w1_def sram_fset [OF law] sram_accesses [OF law]
        sram_transfer_def del: One_nat_def)
  have chip3: "\<not> writing (chip (hw w3))" "at_addr (chip (hw w3)) = slot inc a n" "cell (chip (hw w3)) = c"
    using st by (simp_all add: w3_def w2(2) w1_def sram_fset [OF law] sram_accesses [OF law]
        sram_transfer_def del: One_nat_def)
  from sram_next_addr [OF law chip3(2)] obtain w4 where
    w4: "next_addr m (REG32 regs SMIO_DA) inc (addr_after inc a n) w3 = (addr_after inc a (Suc n), w4)"
      "chip (hw w4) = (chip (hw w3))\<lparr>at_addr := slot inc a (Suc n)\<rparr>" by blast
  have "chip_words inc a c n @ [v] = chip_words inc a c (Suc n)" by (simp add: chip_words_def v)
  then have sto: "store buf n [v AND 0xFF] = Returns (overlay buf0 0 (chip_words inc a c (Suc n)))"
    using st True fits overlay_overlay [of 0 "chip_words inc a c n" "[v]" buf0]
    by (simp add: store_def v byte_masked chip_words_def)
  have "sram_read inc a c buf0 len (Suc n) (addr_after inc a (Suc n))
      (overlay buf0 0 (chip_words inc a c (Suc n))) (chip (hw w4))"
    using chip3 True by (simp add: sram_read_def w4(2))
  then show ?thesis
    using True w2(1) w4(1) sto st
    by (simp add: read_direct_body_def Let_def split_beta flip: w1_def v_def w3_def del: One_nat_def)
qed (use inv in \<open>simp add: read_direct_body_def sram_read_def\<close>)

lemma sram_read_loop:
  assumes law: "sram_law m chip regs" and "len \<le> length buf0" and "len < fuel"
    and "sram_read inc a c buf0 len 0 a buf0 (chip (hw w))"
  shows "\<exists>w'. loop fuel (read_direct_body m fuel regs dl (int len) inc) (0, 0, a, buf0, w)
      = Returns (int len, overlay buf0 0 (chip_words inc a c len), w') \<and> cell (chip (hw w')) = c"
proof (rule loop_total [where M = "\<lambda>s. len - fst s" and
      I = "\<lambda>(n, k, addr, buf, w). sram_read inc a c buf0 len n addr buf (chip (hw w))"], goal_cases)
  case (1 s s')
  obtain n k addr buf w where "s = (n, k, addr, buf, w)" by (metis prod_cases5)
  with 1 show ?case
    using sram_read_iteration [OF law _ assms(2), of fuel inc a c n addr buf w dl k] assms(3)
    by (auto split: if_splits)
next
  case (2 s r)
  obtain n k addr buf w where "s = (n, k, addr, buf, w)" by (metis prod_cases5)
  with 2 show ?case
    using sram_read_iteration [OF law _ assms(2), of fuel inc a c n addr buf w dl k] assms(3)
    by (auto simp: sram_read_def split: if_splits)
qed (use assms in auto)

lemma sram_read_arr:
  assumes law: "sram_law m chip regs" and regs: "smi_regs cxt = Some regs"
    and cfg: "config0 cxt = Returns (rc, wc)" and "len \<le> length buf" and "len < fuel"
  shows "\<exists>w'. smi_direct_read_arr m fuel cxt (Some buf) a (int len) inc w =
      Returns (int len, Some (overlay buf 0 (chip_words inc a (cell (chip (hw w))) len)), w') \<and>
    cell (chip (hw w')) = cell (chip (hw w))"
proof -
  let ?da = "REG32 regs SMIO_DA" and ?dcs = "REG32 regs SMIO_DCS" and ?dd = "REG32 regs SMIO_DD"
    and ?dsr = "REG32 regs SMIO_DSR0"
  define w1 where "w1 = fset m ?da DA_addr (byte32 a) (fset m ?dcs DCS_write 0
    (fset m ?dcs DCS_start 1 (st32 m ?dd 0 (fset m ?da DA_addr (byte32 a)
    (fset m ?dcs DCS_write 0 (fset m ?dcs DCS_done 1 (st32 m ?dcs 0
      (fset m ?dsr DSR_rwidth (byte32 (rwidth rc)) w))))))))"
  define w2 where "w2 = snd (start_timeout m DIRECT_READ_TIMEOUT_S w1)"
  have "sram_read inc a (cell (chip (hw w))) buf len 0 a buf (chip (hw w2))"
    by (simp add: w2_def w1_def start_timeout_world sram_fset [OF law] sram_accesses [OF law]
        sram_fset_other [OF law] sram_store_def sram_transfer_def sram_read_def chip_words_def
        slot_def addr_after_def bf_get_def del: One_nat_def)
  from sram_read_loop [OF law assms(4,5) this] obtain w' where
    "loop fuel (read_direct_body m fuel regs (fst (start_timeout m DIRECT_READ_TIMEOUT_S w1)) (int len) inc)
        (0, 0, a, buf, w2) = Returns (int len, overlay buf 0 (chip_words inc a (cell (chip (hw w))) len), w')"
    and "cell (chip (hw w')) = cell (chip (hw w))" by blast
  then show ?thesis
    using regs cfg by (simp add: smi_direct_read_arr_def smi_read_await_direct_def Let_def split_beta
        w2_def [symmetric] w1_def [symmetric] del: One_nat_def)
qed

section \<open>The addresses of a block\<close>

lemma uint_slot: "uint (slot inc a n) = (uint a + sgn inc * int n) mod 64"
proof -
  have cancel: "(x mod 256) mod 64 = x mod 64" for x :: int by (rule mod_mod_cancel) simp
  have "uint (take_bit 6 (byte32 x)) = uint x mod 64" for x
    unfolding unsigned_take_bit_eq unsigned_ucast_eq by (simp add: take_bit_eq_mod mod_mod_cancel)
  moreover have "uint (a + of_nat n) = (uint a + int n) mod 256" "uint (a - of_nat n) = (uint a - int n) mod 256"
    by (simp_all add: uint_word_ariths unsigned_of_nat take_bit_eq_mod of_nat_mod mod_simps)
  ultimately show ?thesis by (simp add: slot_def addr_after_def sgn_if cancel)
qed

lemma slot_inj:
  assumes "slot inc a i = slot inc a j" and "inc \<noteq> 0" and "i < 64" and "j < 64"
  shows "i = j"
proof -
  have "(uint a + sgn inc * int i) mod 64 = (uint a + sgn inc * int j) mod 64"
    using assms(1) uint_slot [of inc a] by metis
  then have "64 dvd sgn inc * (int i - int j)" by (simp add: mod_eq_dvd_iff algebra_simps)
  then have "64 dvd int i - int j"
    using assms(2) by (cases "0 < inc") (simp_all add: sgn_if dvd_diff_commute [of 64 "int j"])
  then show ?thesis using assms(3,4) dvd_imp_le_int [of "int i - int j" 64] by fastforce
qed

lemma put_block_outside:
  "(\<And>i. i < length vs \<Longrightarrow> b \<noteq> slot inc a (n + i)) \<Longrightarrow> put_block inc a n vs c b = c b"
proof (induction vs arbitrary: n c)
  case Nil
  then show ?case by simp
next
  case (Cons v vs)
  have "b \<noteq> slot inc a (Suc n + i)" if "i < length vs" for i using Cons.prems [of "Suc i"] that by simp
  with Cons.IH Cons.prems [of 0] show ?case by simp
qed

lemma put_block_inside:
  assumes "i < length vs" and "inc \<noteq> 0 \<or> length vs \<le> 1" and "n + length vs \<le> 64"
  shows "put_block inc a n vs c (slot inc a (n + i)) = ucast (vs ! i)"
  using assms
proof (induction vs arbitrary: n c i)
  case Nil
  then show ?case by simp
next
  case (Cons v vs)
  show ?case
  proof (cases i)
    case 0
    have "slot inc a n \<noteq> slot inc a (Suc n + j)" if "j < length vs" for j
      using slot_inj [of inc a n "Suc n + j"] Cons.prems that by auto
    then show ?thesis using put_block_outside [of vs "slot inc a n" inc a "Suc n"] 0 by simp
  next
    case (Suc j)
    with Cons.prems have "put_block inc a (Suc n) vs (c(slot inc a n := ucast v)) (slot inc a (Suc n + j))
        = ucast (vs ! j)"
      by (intro Cons.IH) simp_all
    with Suc show ?thesis by simp
  qed
qed

lemma chip_words_put_block:
  assumes "inc \<noteq> 0 \<or> length vs \<le> 1" and "length vs \<le> 64"
  shows "chip_words inc a (put_block inc a 0 vs c) (length vs) = map (\<lambda>v. v AND 0xFF) vs"
proof -
  have "(ucast (ucast v :: u8) :: u32) = v AND 0xFF" for v :: u32
    unfolding low_byte by (auto intro!: bit_word_eqI simp: bit_simps)
  then show ?thesis
    using put_block_inside [of _ vs inc 0 a c] assms by (intro nth_equalityI) (simp_all add: chip_words_def)
qed

section \<open>The store a client sees\<close>

text \<open>
  What a client of the direct transfers relies on. In an environment that is \<open>lawful\<close> for blocks of
  \<open>n\<close> values, \<open>put\<close> stores a block, of which the store shows what a value \<open>keeps\<close>, and \<open>get\<close>
  copies what the store shows into a buffer and leaves the store alone.
\<close>

locale block_store =
  fixes lawful :: "'e \<Rightarrow> nat \<Rightarrow> bool"
    and put :: "'e \<Rightarrow> 'v list \<Rightarrow> 'w \<Rightarrow> (int \<times> 'w) outcome"
    and get :: "'e \<Rightarrow> nat \<Rightarrow> 'v list \<Rightarrow> 'w \<Rightarrow> (int \<times> 'v list option \<times> 'w) outcome"
    and shown :: "'e \<Rightarrow> nat \<Rightarrow> 'w \<Rightarrow> 'v list"
    and content :: "'e \<Rightarrow> 'w \<Rightarrow> 'c"
    and keeps :: "'v \<Rightarrow> 'v"
  assumes put_shown: "lawful e (length xs) \<Longrightarrow>
      \<exists>w'. put e xs w = Returns (1, w') \<and> shown e (length xs) w' = map keeps xs"
    and get_shown: "lawful e n \<Longrightarrow> n \<le> length buf \<Longrightarrow>
      \<exists>w'. get e n buf w = Returns (int n, Some (overlay buf 0 (shown e n w)), w') \<and> content e w' = content e w"
    and shown_content: "content e w' = content e w \<Longrightarrow> shown e n w' = shown e n w"
    and shown_length: "length (shown e n w) = n"
begin

lemma put_get:
  assumes "lawful e (length xs)" and "length xs \<le> length buf"
  shows "\<exists>w1. put e xs w = Returns (1, w1) \<and> (\<forall>v. content e v = content e w1 \<longrightarrow>
    (\<exists>w2. get e (length xs) buf v = Returns (int (length xs), Some (overlay buf 0 (map keeps xs)), w2) \<and> content e w2 = content e w1))"
proof -
  from put_shown [OF assms(1), of w] obtain w1 where
    w1: "put e xs w = Returns (1, w1)" "shown e (length xs) w1 = map keeps xs" by blast
  have "\<exists>w2. get e (length xs) buf v = Returns (int (length xs), Some (overlay buf 0 (map keeps xs)), w2) \<and> content e w2 = content e w1"
    if "content e v = content e w1" for v
    using get_shown [OF assms, of v] shown_content [OF that, of "length xs"] w1(2) that by simp
  with w1(1) show ?thesis by blast
qed

text \<open>Reading twice gives the same values, and the second of two blocks is the one read.\<close>

lemma get_get:
  assumes "lawful e n" and "n \<le> length buf" and "n \<le> length buf'"
  shows "\<exists>w1 w2. get e n buf w = Returns (int n, Some (overlay buf 0 (shown e n w)), w1) \<and>
    get e n buf' w1 = Returns (int n, Some (overlay buf' 0 (shown e n w)), w2) \<and> content e w2 = content e w"
proof -
  from get_shown [OF assms(1,2), of w] obtain w1 where
    w1: "get e n buf w = Returns (int n, Some (overlay buf 0 (shown e n w)), w1)" "content e w1 = content e w" by blast
  with get_shown [OF assms(1,3), of w1] shown_content [OF w1(2), of n] show ?thesis by auto
qed

lemma put_put_get:
  assumes "lawful e (length xs)" and "length ys = length xs" and "length ys \<le> length buf"
  shows "\<exists>w1 w2 w3. put e xs w = Returns (1, w1) \<and> put e ys w1 = Returns (1, w2) \<and>
    get e (length ys) buf w2 = Returns (int (length ys), Some (overlay buf 0 (map keeps ys)), w3)"
proof -
  obtain w1 where "put e xs w = Returns (1, w1)" using put_shown [OF assms(1), of w] by blast
  moreover from assms(1,2) have "lawful e (length ys)" by simp
  note put_get [OF this assms(3), of w1]
  ultimately show ?thesis by blast
qed

end

text \<open>
  The block transfers of \<^verbatim>\<open>smi.c\<close>, at an address and in a direction, are such a store on any machine
  that shows a chip; so are the transfers of a single value.
\<close>

type_synonym 'h chip_env = "'h machine \<times> ('h \<Rightarrow> sram) \<times> MEM_MAP \<times> nat \<times> SMI_CXT \<times> u8 \<times> int"

definition chip_lawful :: "'h chip_env \<Rightarrow> nat \<Rightarrow> bool" where
  "chip_lawful = (\<lambda>(m, chip, regs, fuel, cxt, a, inc) n. sram_law m chip regs \<and> smi_regs cxt = Some regs \<and>
     (\<exists>rc wc. config0 cxt = Returns (rc, wc)) \<and> n \<le> 64 \<and> (inc \<noteq> 0 \<or> n \<le> 1) \<and> n < fuel)"

definition direct_put :: "'h chip_env \<Rightarrow> u32 list \<Rightarrow> 'h world \<Rightarrow> (int \<times> 'h world) outcome" where
  "direct_put = (\<lambda>(m, chip, regs, fuel, cxt, a, inc) xs w.
     smi_direct_write_arr m fuel cxt (Some xs) a (of_nat (length xs)) inc w)"

definition direct_get :: "'h chip_env \<Rightarrow> nat \<Rightarrow> u32 list \<Rightarrow> 'h world
     \<Rightarrow> (int \<times> u32 list option \<times> 'h world) outcome" where
  "direct_get = (\<lambda>(m, chip, regs, fuel, cxt, a, inc) n buf w.
     smi_direct_read_arr m fuel cxt (Some buf) a (int n) inc w)"

definition chip_shown :: "'h chip_env \<Rightarrow> nat \<Rightarrow> 'h world \<Rightarrow> u32 list" where
  "chip_shown = (\<lambda>(m, chip, regs, fuel, cxt, a, inc) n w. chip_words inc a (cell (chip (hw w))) n)"

definition chip_content :: "'h chip_env \<Rightarrow> 'h world \<Rightarrow> u32 \<Rightarrow> u8" where
  "chip_content = (\<lambda>(m, chip, regs, fuel, cxt, a, inc) w. cell (chip (hw w)))"

lemmas chip_defs = chip_lawful_def chip_shown_def chip_content_def

interpretation blocks: block_store chip_lawful direct_put direct_get chip_shown chip_content "\<lambda>v. v AND 0xFF"
proof (unfold_locales, goal_cases)
  case (1 e xs w)
  obtain m chip regs fuel cxt a inc where e: "e = (m, chip, regs, fuel, cxt, a, inc)" by (cases e) auto
  from 1 have ok: "sram_law m chip regs" "smi_regs cxt = Some regs" "length xs < 256" "length xs < fuel"
      "length xs \<le> 64" "inc \<noteq> 0 \<or> length xs \<le> 1"
    by (auto simp: e chip_defs)
  from sram_write_arr [OF ok(1-4), of a inc w] chip_words_put_block [OF ok(6,5)] show ?case
    by (auto simp: e direct_put_def chip_defs)
next
  case (2 e n buf w)
  obtain m chip regs fuel cxt a inc where e: "e = (m, chip, regs, fuel, cxt, a, inc)" by (cases e) auto
  from 2 obtain rc wc where ok: "sram_law m chip regs" "smi_regs cxt = Some regs"
      "config0 cxt = Returns (rc, wc)" "n \<le> length buf" "n < fuel"
    by (auto simp: e chip_defs)
  from sram_read_arr [OF ok, of a inc w] show ?case by (auto simp: e direct_get_def chip_defs)
qed (auto simp: chip_defs chip_words_def)

text \<open>\<^verbatim>\<open>smi_direct_read\<close> of one value on a chip.\<close>

lemma sram_read_one:
  assumes law: "sram_law m chip regs" and regs: "smi_regs cxt = Some regs" and "1 \<le> length buf" and "1 < fuel"
  shows "\<exists>w'. smi_direct_read m fuel cxt (Some buf) a w =
      Returns (1, Some (overlay buf 0 (chip_words 0 a (cell (chip (hw w))) 1)), w') \<and>
    cell (chip (hw w')) = cell (chip (hw w))"
proof -
  let ?da = "REG32 regs SMIO_DA" and ?dcs = "REG32 regs SMIO_DCS" and ?dd = "REG32 regs SMIO_DD"
    and ?cs = "REG32 regs SMIO_CS" and ?dsr = "REG32 regs SMIO_DSR0"
  define w1 where "w1 = fset m ?da DA_addr (byte32 a) (fset m ?dcs DCS_write 0
    (fset m ?dcs DCS_start 1 (st32 m ?dd 0 (fset m ?da DA_addr (byte32 a)
    (fset m ?dcs DCS_write 0 (fset m ?dcs DCS_done 1 (fset m ?dsr DSR_rwidth 0
      (fsets m ?cs direct_setup (st32 m ?cs 0 w)))))))))"
  define w2 where "w2 = snd (start_timeout m DIRECT_READ_TIMEOUT_S w1)"
  have "sram_read 0 a (cell (chip (hw w))) buf 1 0 a buf (chip (hw w2))"
    by (simp add: w2_def w1_def start_timeout_world sram_fset [OF law] sram_accesses [OF law]
        sram_fset_other [OF law] sram_store_def sram_transfer_def sram_read_def chip_words_def
        slot_def addr_after_def bf_get_def del: One_nat_def)
  from sram_read_loop [OF law assms(3,4) this] obtain w' where
    "loop fuel (read_direct_body m fuel regs (fst (start_timeout m DIRECT_READ_TIMEOUT_S w1)) 1 0)
        (0, 0, a, buf, w2) = Returns (1, overlay buf 0 (chip_words 0 a (cell (chip (hw w))) 1), w')"
    and "cell (chip (hw w')) = cell (chip (hw w))" by (auto simp del: One_nat_def)
  then show ?thesis
    using regs by (simp add: smi_direct_read_def smi_read_await_direct_def Let_def split_beta
        w2_def [symmetric] w1_def [symmetric] del: One_nat_def)
qed

definition single_lawful :: "'h chip_env \<Rightarrow> nat \<Rightarrow> bool" where
  "single_lawful = (\<lambda>(m, chip, regs, fuel, cxt, a, inc) n.
     sram_law m chip regs \<and> smi_regs cxt = Some regs \<and> n = 1 \<and> inc = 0 \<and> 1 < fuel)"

definition single_put :: "'h chip_env \<Rightarrow> u32 list \<Rightarrow> 'h world \<Rightarrow> (int \<times> 'h world) outcome" where
  "single_put = (\<lambda>(m, chip, regs, fuel, cxt, a, inc) xs w.
     obind (fetch xs 0) (\<lambda>x. smi_direct_write m fuel cxt x a w))"

definition single_get :: "'h chip_env \<Rightarrow> nat \<Rightarrow> u32 list \<Rightarrow> 'h world
     \<Rightarrow> (int \<times> u32 list option \<times> 'h world) outcome" where
  "single_get = (\<lambda>(m, chip, regs, fuel, cxt, a, inc) n buf w.
     smi_direct_read m fuel cxt (Some buf) a w)"

interpretation singles: block_store single_lawful single_put single_get chip_shown chip_content "\<lambda>v. v AND 0xFF"
proof (unfold_locales, goal_cases)
  case (1 e xs w)
  obtain m chip regs fuel cxt a inc where e: "e = (m, chip, regs, fuel, cxt, a, inc)" by (cases e) auto
  from 1 obtain x where xs: "xs = [x]" by (cases xs) (auto simp: e single_lawful_def)
  from 1 have ok: "sram_law m chip regs" "smi_regs cxt = Some regs" "inc = 0" "1 < fuel"
    by (auto simp: e single_lawful_def)
  from sram_write_arr [OF ok(1,2), of xs fuel a 0 w] chip_words_put_block [of 0 xs] ok xs show ?case
    by (auto simp: e single_put_def smi_direct_write_def fetch_def chip_defs)
next
  case (2 e n buf w)
  obtain m chip regs fuel cxt a inc where e: "e = (m, chip, regs, fuel, cxt, a, inc)" by (cases e) auto
  from 2 have ok: "sram_law m chip regs" "smi_regs cxt = Some regs" "1 \<le> length buf" "1 < fuel"
      "inc = 0" "n = 1"
    by (auto simp: e single_lawful_def)
  from sram_read_one [OF ok(1-4), of a w] ok(5,6) show ?case by (auto simp: e single_get_def chip_defs)
qed (auto simp: chip_defs chip_words_def)

section \<open>What the programs do\<close>

lemma set_config0_result:
  assumes "rw_config cxt = Some rw" and "wf_rw rw"
  shows "set_config0 f g cxt = Returns (cxt\<lparr>rw_config := Some (rw\<lparr>
      rconfig := (rconfig rw)[0 := f (rconfig rw ! 0)], wconfig := (wconfig rw)[0 := g (wconfig rw ! 0)]\<rparr>)\<rparr>)"
  using assms by (auto simp: set_config0_def fetch_def wf_rw_def)

lemma print_loop:
  "n \<le> length ret \<Longrightarrow>
   c_for 0 n (\<lambda>i out. obind (fetch ret i) (\<lambda>v. Returns (out @ [(i, i mod 64, v)]))) [] =
   Returns (map (\<lambda>i. (i, i mod 64, ret ! i)) [0..<n])"
  by (induction n) (simp_all add: c_for_snoc fetch_def)

text \<open>A machine that shows a chip, for evaluating: transfers are done at once and time stands still.\<close>

definition chip_machine :: "MEM_MAP \<Rightarrow> sram machine" where
  "chip_machine regs =
     \<lparr>m_ld = \<lambda>a s.
        (if a = REG32 regs SMIO_DD then latch_out s
         else if a = REG32 regs SMIO_DCS then (if writing s then 12 else 4) else 0, s),
      m_st = sram_store regs,
      m_clock = \<lambda>s. (\<lparr>tv_sec = 0, tv_nsec = 0\<rparr>, s),
      m_yield = \<lambda>s. s, m_sched = \<lambda>s. s, m_nanosleep = \<lambda>ts s. s, m_sleep = \<lambda>n s. s,
      m_realloc = \<lambda>n buf s. (None, s), m_sys = \<lambda>c s. (0, s)\<rparr>"

lemma chip_machine_law: "sram_law (chip_machine regs) (\<lambda>s. s) regs"
  by (simp add: sram_law_def chip_machine_def bf_get_def take_bit_eq_mod drop_bit_eq_div)

definition blank_chip :: "sram world" where
  "blank_chip = \<lparr>hw = \<lparr>cell = \<lambda>_. 0x55, at_addr = 9, latch_in = 1, latch_out = 2, writing = False\<rparr>, log = []\<rparr>"

text \<open>
  On a chip, \<^verbatim>\<open>smi_direct_write_arr\<close> refines a block write: it returns 1 and the cells are
  those of before with a zero and then the low bytes of the data stored at the addresses the
  block visits, upwards, downwards or all at one address, wrapping after 64 cells.
\<close>
theorem block_write_refines:
  assumes "sram_law m chip regs" and "smi_regs cxt = Some regs"
    and "length data < 256" and "length data < fuel"
  shows "\<exists>w'. smi_direct_write_arr m fuel cxt (Some data) a (of_nat (length data)) inc w = Returns (1, w') \<and>
    cell (chip (hw w')) = put_block inc a 0 data ((cell (chip (hw w)))(slot inc a 0 := 0))"
  using sram_write_arr [OF assms] by blast

theorem block_write_refines_witness:
  "\<exists>w'. smi_direct_write_arr (chip_machine (sample_map 0x1000)) 9 (sample_cxt 0 False False True)
     (Some [0x141, 0x42]) 63 2 1 blank_chip = Returns (1, w') \<and> cell (hw w') 0 = 0x42 \<and> cell (hw w') 1 = 0x55"
  using block_write_refines [OF chip_machine_law, of "sample_cxt 0 False False True" "sample_map 0x1000"
      "[0x141, 0x42]" 9 63 1 blank_chip]
  by (auto simp: slot_def addr_after_def blank_chip_def take_bit_eq_mod)

text \<open>
  C6: What is written is read back: on a chip, a direct write of a block of up to 64 values, upwards
  or downwards, followed by a direct read of as many from the same address, fills the buffer with
  the low bytes of the values and leaves the chip as the write left it.
\<close>
theorem block_roundtrip:
  assumes "sram_law m chip regs" and "smi_regs cxt = Some regs" and "config0 cxt = Returns (rc, wc)"
    and "length data \<le> 64" and "inc \<noteq> 0" and "length data \<le> length buf" and "length data < fuel"
  shows "\<exists>w1 w2. smi_direct_write_arr m fuel cxt (Some data) a (of_nat (length data)) inc w = Returns (1, w1) \<and>
    smi_direct_read_arr m fuel cxt (Some buf) a (int (length data)) inc w1 =
      Returns (int (length data), Some (overlay buf 0 (map (\<lambda>v. v AND 0xFF) data)), w2) \<and>
    cell (chip (hw w2)) = cell (chip (hw w1))"
proof -
  let ?e = "(m, chip, regs, fuel, cxt, a, inc)"
  have "chip_lawful ?e (length data)" using assms by (simp add: chip_lawful_def)
  from blocks.put_get [OF this assms(6), of w] show ?thesis
    by (auto simp: direct_put_def direct_get_def chip_content_def)
qed

theorem block_roundtrip_witness:
  "\<exists>w1 w2. smi_direct_write_arr (chip_machine (sample_map 0x1000)) 9 (sample_cxt 0 False False True)
     (Some [0x141, 0x42, 0x43]) 1 3 (- 1) blank_chip = Returns (1, w1) \<and>
   smi_direct_read_arr (chip_machine (sample_map 0x1000)) 9 (sample_cxt 0 False False True)
     (Some [7, 7, 7, 7]) 1 3 (- 1) w1 = Returns (3, Some [0x41, 0x42, 0x43, 7], w2)"
  using block_roundtrip [OF chip_machine_law, of "sample_cxt 0 False False True" "sample_map 0x1000"
      "sample_read 0" "sample_write False False" "[0x141, 0x42, 0x43]" "- 1" "[7, 7, 7, 7]" 9 1 blank_chip]
  by (auto simp: sample_config0 overlay_def)

text \<open>
  The demonstration works: on a chip \<^verbatim>\<open>sram_helloworld\<close> returns and prints the twelve bytes it
  wrote, 255 at the even addresses and 0 at the odd ones, whatever its array held before.
\<close>
theorem sram_helloworld_prints:
  assumes "sram_law m chip regs" and "smi_regs cxt = Some regs" and "wf_cxt cxt"
    and "length ret = 12" and "12 < fuel"
  shows "\<exists>cxt' w'. sram_helloworld m fuel ret cxt w =
      Returns (map (\<lambda>i. (i, i, if even i then 0xFF else 0)) [0..<12], cxt', w') \<and> wf_cxt cxt'"
proof -
  obtain rw where rw: "rw_config cxt = Some rw" "wf_rw rw" using assms(3) by (auto simp: wf_cxt_def)
  let ?data = "[0xFF, 0x00, 0xFF, 0x00, 0xFF, 0x00, 0xFF, 0x00, 0xFF, 0x00, 0xFF, 0 :: u32]"
  define c1 where "c1 = cxt\<lparr>rw_config := Some (rw\<lparr>
      rconfig := (rconfig rw)[0 := (rconfig rw ! 0)\<lparr>rwidth := SMI_8_BITS\<rparr>],
      wconfig := (wconfig rw)[0 := (wconfig rw ! 0)\<lparr>wformat := SMI_RGB565, wswap := False\<rparr>]\<rparr>),
      pxldata := True, pad := False, intd := False, intr := False, intt := False\<rparr>"
  have c1: "smi_regs c1 = Some regs" "wf_cxt c1"
    using assms(2,3) rw by (auto simp: c1_def wf_cxt_def wf_rw_def)
  then obtain rc wc where cfg: "config0 c1 = Returns (rc, wc)" by (metis config0_wf wf_cxt_def)
  let ?e = "(m, chip, regs, fuel, c1, 0, 1)"
  have "chip_lawful ?e (length ?data)" and "length ?data \<le> length ret"
    using assms(1,4,5) c1(1) cfg by (simp_all add: chip_lawful_def)
  from blocks.put_get [OF this, of w] obtain w1 where
    w1: "smi_direct_write_arr m fuel c1 (Some ?data) 0 12 1 w = Returns (1, w1)"
    and read: "\<forall>v. chip_content ?e v = chip_content ?e w1 \<longrightarrow>
      (\<exists>w2. smi_direct_read_arr m fuel c1 (Some ret) 0 12 1 v = Returns (12, Some (overlay ret 0 ?data), w2))"
    by (fastforce simp: direct_put_def direct_get_def)
  have "chip_content ?e (sleep m 0 w1) = chip_content ?e w1"
    by (simp add: chip_content_def sram_accesses [OF assms(1)])
  with read assms(4) obtain w2 where
    w2: "smi_direct_read_arr m fuel c1 (Some ret) 0 12 1 (sleep m 0 w1) = Returns (12, Some ?data, w2)"
    by (auto simp: overlay_def)
  have "sram_helloworld m fuel ret cxt w = Returns (map (\<lambda>i. (i, i mod 64, ?data ! i)) [0..<12], c1, w2)"
    using w1 w2 print_loop [of 12 ?data]
    by (simp add: sram_helloworld_def set_config0_result [OF rw] Let_def flip: c1_def)
  moreover have "map (\<lambda>i. (i, i mod 64, ?data ! i)) [0..<12] = map (\<lambda>i. (i, i, if even i then 0xFF else 0)) [0..<12]"
    by (simp add: upt_rec)
  ultimately show ?thesis using c1(2) by auto
qed

theorem sram_helloworld_prints_witness:
  "\<exists>cxt' w'. sram_helloworld (chip_machine (sample_map 0x1000)) 20 (replicate 12 7)
     (sample_cxt 0 False False True) blank_chip =
   Returns ([(0, 0, 255), (1, 1, 0), (2, 2, 255), (3, 3, 0), (4, 4, 255), (5, 5, 0), (6, 6, 255),
     (7, 7, 0), (8, 8, 255), (9, 9, 0), (10, 10, 255), (11, 11, 0)], cxt', w')"
  using sram_helloworld_prints [OF chip_machine_law, of "sample_cxt 0 False False True" "sample_map 0x1000"
      "replicate 12 7" 20 blank_chip]
  by (auto simp: sample_cxt_wf upt_rec)

section \<open>The bench loops\<close>

lemma bench_write_loop:
  assumes law: "sram_law m chip regs" and "smi_regs cxt = Some regs" and "1 < fuel"
  shows "\<exists>w'. c_for 0 n
      (\<lambda>i (count, w). obind (smi_direct_write m fuel cxt 0xA 0 w) (\<lambda>(r, w). Returns (count + r, w))) (0, w)
      = Returns (int n, w') \<and>
    cell (chip (hw w')) = (if n = 0 then cell (chip (hw w)) else (cell (chip (hw w)))(0 := 0xA))"
proof (induction n)
  case 0
  then show ?case by simp
next
  case (Suc n)
  then obtain w1 where IH: "c_for 0 n (\<lambda>i (count, w). obind (smi_direct_write m fuel cxt 0xA 0 w)
      (\<lambda>(r, w). Returns (count + r, w))) (0, w) = Returns (int n, w1)"
    "cell (chip (hw w1)) = (if n = 0 then cell (chip (hw w)) else (cell (chip (hw w)))(0 := 0xA))" by blast
  from sram_write_arr [OF law assms(2), of "[0xA]" fuel 0 0 w1] assms(3) obtain w2 where
    "smi_direct_write m fuel cxt 0xA 0 w1 = Returns (1, w2)"
    "cell (chip (hw w2)) = (cell (chip (hw w1)))(0 := 0xA)"
    by (auto simp: smi_direct_write_def slot_def addr_after_def)
  with IH show ?case by (auto simp: c_for_snoc fun_eq_iff)
qed

text \<open>
  On a chip \<^verbatim>\<open>testbench_write\<close> returns the number of writes it was asked for, after which cell 0
  holds 10 and every other cell what it held.
\<close>
theorem testbench_write_fills:
  assumes "sram_law m chip regs" and "smi_regs cxt = Some regs" and "1 < fuel"
  shows "\<exists>w'. testbench_write m fuel cxt len w = Returns (uint len, w') \<and>
    (\<forall>b. cell (chip (hw w')) b = (if len \<noteq> 0 \<and> b = 0 then 0xA else cell (chip (hw w)) b))"
  using bench_write_loop [OF assms, of "unat len" w]
  by (auto simp: testbench_write_def unat_eq_0)

theorem testbench_write_fills_witness:
  "\<exists>w'. testbench_write (chip_machine (sample_map 0x1000)) 9 (sample_cxt 0 False False True) 1000 blank_chip
     = Returns (1000, w') \<and> cell (hw w') 0 = 0xA"
  using testbench_write_fills [OF chip_machine_law, of "sample_cxt 0 False False True" "sample_map 0x1000" 9
      1000 blank_chip] by auto

text \<open>A context set up for packed 8-bit reads, and what the bench keeps of it.\<close>

definition bench_ready :: "MEM_MAP \<Rightarrow> int \<Rightarrow> SMI_CXT \<Rightarrow> u8 list \<Rightarrow> bool" where
  "bench_ready regs block_len cxt ret \<longleftrightarrow>
     smi_regs cxt = Some regs \<and> wf_cxt cxt \<and> pxldata cxt \<and> format_of_cxt cxt = Some fmt_rgb565_8 \<and>
     length ret = 4 * nat block_len"

lemma bench_reads_ready:
  assumes law: "clock_law m now" "alloc_law m" and len: "0 < block_len" "block_len < 2 ^ 30 - 1"
    and fuel: "nat block_len * 513 + 500512 < fuel" and ready: "bench_ready regs block_len cxt ret"
  obtains cnt' cxt' ret' w' xs where
    "bench_reads m fuel block_len i (cnt, cxt, ret, w) = Returns (cnt', cxt', ret', w')"
    and "bench_ready regs block_len cxt' ret'" and "length xs \<le> (nat block_len + 3) div 4"
    and "loads_from (REG32 regs SMIO_D) (log w') = loads_from (REG32 regs SMIO_D) (log w) @ xs"
proof -
  have fmt: "fmt_words fmt_rgb565_8 = 1" "fmt_bytes fmt_rgb565_8 = 4" "length (fmt_pixels fmt_rgb565_8) = 4"
    by (simp_all add: fmt_bytes_def fmt_defs)
  have words: "packed_words fmt_rgb565_8 (nat block_len) = (nat block_len + 3) div 4"
    by (simp add: packed_words_def fmt)
  have few: "(nat block_len + 3) div 4 \<le> nat block_len" using len(1) by linarith
  have room: "fmt_bytes fmt_rgb565_8 * packed_groups fmt_rgb565_8 (nat block_len) \<le> length ret"
    using ready few by (simp add: bench_ready_def packed_groups_def words fmt)
  have "packed_words fmt_rgb565_8 (nat block_len) * 513 + 500512 < fuel"
    using fuel few unfolding words by linarith
  moreover have "smi_regs cxt = Some regs" "wf_cxt cxt" "pxldata cxt" "format_of_cxt cxt = Some fmt_rgb565_8"
      "0 \<le> block_len"
    using ready len(1) by (simp_all add: bench_ready_def)
  ultimately obtain r cxt' ret' w' rb xs where
    run: "smi_programmed_read_arr m fuel cxt ret 1 block_len w = Returns (r, cxt', ret', w')"
    and kept: "wf_cxt cxt'" "cxt' = cxt\<lparr>raw_buffer := rb\<rparr>" "length ret' = length ret"
    and loads: "loads_from (REG32 regs SMIO_D) (log w') = loads_from (REG32 regs SMIO_D) (log w) @ xs"
    and xs: "xs = [] \<or> length xs = packed_words fmt_rgb565_8 (nat block_len) \<or>
        length xs < packed_words fmt_rgb565_8 (nat block_len)"
    using programmed_read_packed [OF law, of cxt regs fmt_rgb565_8 block_len ret fuel 1 w] room len(2) by blast
  have few_loads: "length xs \<le> (nat block_len + 3) div 4" using xs unfolding words by auto
  have "config0 cxt' = config0 cxt" by (rule config0_cong) (simp add: kept(2))
  then have "bench_ready regs block_len cxt' ret'"
    using ready kept by (simp add: bench_ready_def format_of_cxt_def)
  with run loads few_loads show ?thesis by (intro that) (simp_all add: bench_reads_def)
qed

lemma bench_read_loop:
  assumes "clock_law m now" "alloc_law m" and "0 < block_len" "block_len < 2 ^ 30 - 1"
    and "nat block_len * 513 + 500512 < fuel" and "bench_ready regs block_len cxt ret"
  shows "\<exists>cnt cxt' ret' w' xs. c_for 0 n (bench_reads m fuel block_len) (0, cxt, ret, w) =
      Returns (cnt, cxt', ret', w') \<and> bench_ready regs block_len cxt' ret' \<and>
    length xs \<le> n * ((nat block_len + 3) div 4) \<and>
    loads_from (REG32 regs SMIO_D) (log w') = loads_from (REG32 regs SMIO_D) (log w) @ xs"
proof (induction n)
  case 0
  with assms(6) show ?case by simp
next
  case (Suc n)
  then obtain count1 cxt1 ret1 w1 xs1 where IH:
      "c_for 0 n (bench_reads m fuel block_len) (0, cxt, ret, w) = Returns (count1, cxt1, ret1, w1)"
      "bench_ready regs block_len cxt1 ret1" "length xs1 \<le> n * ((nat block_len + 3) div 4)"
      "loads_from (REG32 regs SMIO_D) (log w1) = loads_from (REG32 regs SMIO_D) (log w) @ xs1"
    by blast
  from bench_reads_ready [OF assms(1-5) IH(2), of n count1 w1] obtain count2 cxt2 ret2 w2 xs2 where
      "bench_reads m fuel block_len n (count1, cxt1, ret1, w1) = Returns (count2, cxt2, ret2, w2)"
      "bench_ready regs block_len cxt2 ret2" "length xs2 \<le> (nat block_len + 3) div 4"
      "loads_from (REG32 regs SMIO_D) (log w2) = loads_from (REG32 regs SMIO_D) (log w1) @ xs2" by metis
  with IH show ?case by (auto simp: c_for_snoc intro!: exI [of _ "xs1 @ xs2"])
qed

lemma testbench_read_total:
  assumes "clock_law m now" and "alloc_law m" and "smi_regs cxt = Some regs" and "wf_cxt cxt"
    and "0 < block_len" and "block_len < 2 ^ 30 - 1" and "length ret = 4 * nat block_len"
    and "nat block_len * 513 + 500512 < fuel"
  shows "\<exists>t cxt' w' xs. testbench_read m fuel ret cxt len block_len w = Returns (t, cxt', w') \<and> wf_cxt cxt' \<and> smi_regs cxt' = Some regs \<and>
    loads_from (REG32 regs SMIO_D) (log w') = loads_from (REG32 regs SMIO_D) (log w) @ xs \<and>
    length xs \<le> unat len div nat block_len * ((nat block_len + 3) div 4)"
proof -
  obtain rw where rw: "rw_config cxt = Some rw" "wf_rw rw" using assms(4) by (auto simp: wf_cxt_def)
  define c1 where "c1 = cxt\<lparr>rw_config := Some (rw\<lparr>
      rconfig := (rconfig rw)[0 := (rconfig rw ! 0)\<lparr>rwidth := SMI_8_BITS\<rparr>],
      wconfig := (wconfig rw)[0 := (wconfig rw ! 0)\<lparr>wformat := SMI_RGB565, wswap := False\<rparr>]\<rparr>),
      pxldata := True, pixel_value_mode := 0, pad := False, intd := False, intr := False, intt := False\<rparr>"
  have "bench_ready regs block_len c1 ret"
    using assms(3,4,7) rw by (auto simp: c1_def bench_ready_def wf_cxt_def wf_rw_def format_of_cxt_def
        config0_def fetch_def unpack_format_of_def)
  from bench_read_loop [OF assms(1,2,5,6,8) this, of "unat (len div word_of_int block_len)"
      "snd (clock_gettime m w)"] obtain cnt cxt' ret' w' xs where
    run: "c_for 0 (unat (len div word_of_int block_len)) (bench_reads m fuel block_len)
        (0, c1, ret, snd (clock_gettime m w)) = Returns (cnt, cxt', ret', w')"
    and "bench_ready regs block_len cxt' ret'"
    and "length xs \<le> unat (len div word_of_int block_len) * ((nat block_len + 3) div 4)"
    and "loads_from (REG32 regs SMIO_D) (log w') = loads_from (REG32 regs SMIO_D) (log w) @ xs"
    by auto
  moreover have "unat (len div word_of_int block_len) = unat len div nat block_len"
    using size_t_of_int [of block_len] assms(5,6) by (simp add: unat_div)
  moreover have "\<exists>t. testbench_read m fuel ret cxt len block_len w = Returns (t, cxt', snd (clock_gettime m w'))"
    using run assms(5) by (simp add: testbench_read_def set_config0_result [OF rw] Let_def split_beta flip: c1_def)
  ultimately show ?thesis by (fastforce simp: bench_ready_def)
qed

lemma timed_reads_total:
  assumes law: "clock_law m now" "alloc_law m" and "smi_regs cxt = Some regs" "wf_cxt cxt"
    and len: "0 < block" "block < 2 ^ 30 - 1" and "length (junk (nat block)) = 4 * nat block"
    and fuel: "nat block * 513 + 500512 < fuel"
  shows "\<exists>ts cxt' w'. timed_reads m fuel junk block (t0, [], cxt, w) =
      Returns (t0 + sum_list ts, ts, cxt', w') \<and>
    length ts = TEST_ITERATIONS \<and> wf_cxt cxt' \<and> smi_regs cxt' = Some regs"
proof -
  note once = testbench_read_total [OF law _ _ len assms(7) fuel]
  define body where "body = (\<lambda>(i :: nat) (total, times, cxt, w).
    obind (testbench_read m fuel (junk (nat block)) cxt ITERATIONS block w) (\<lambda>(t, cxt, w).
    Returns (total + t, times @ [t], cxt, w)))"
  have "\<exists>ts c' w'. c_for 0 n body (t0, [], c, v) = Returns (t0 + sum_list ts, ts, c', w') \<and>
      length ts = n \<and> wf_cxt c' \<and> smi_regs c' = Some regs"
    if "smi_regs c = Some regs" "wf_cxt c" for n c v
  proof (induction n)
    case 0
    with that show ?case by simp
  next
    case (Suc n)
    then obtain ts c1 w1 where IH: "c_for 0 n body (t0, [], c, v) = Returns (t0 + sum_list ts, ts, c1, w1)"
      and c1: "length ts = n" "wf_cxt c1" "smi_regs c1 = Some regs" by blast
    from once [OF c1(3,2)] obtain t c2 w2 where
      "testbench_read m fuel (junk (nat block)) c1 ITERATIONS block w1 = Returns (t, c2, w2)"
      and c2: "wf_cxt c2" "smi_regs c2 = Some regs" by blast
    then have "body n (t0 + sum_list ts, ts, c1, w1) = Returns (t0 + sum_list (ts @ [t]), ts @ [t], c2, w2)"
      by (simp add: body_def)
    then have "c_for 0 (Suc n) body (t0, [], c, v) = Returns (t0 + sum_list (ts @ [t]), ts @ [t], c2, w2)"
      by (simp add: c_for_snoc IH)
    with c1(1) c2 show ?case by (intro exI [of _ "ts @ [t]"]) simp
  qed
  with once [of cxt regs ITERATIONS w] assms(3,4) show ?thesis
    by (fastforce simp: timed_reads_def simp flip: body_def)
qed

text \<open>
  \<^verbatim>\<open>megbyte_load_block_test\<close> returns; unless its file cannot be opened it has measured the eighteen
  block lengths from 8 to 1048576, five times each, and its total is the sum of the times.
\<close>
theorem block_test_measures:
  assumes "clock_law m now" and "alloc_law m" and "smi_regs cxt = Some regs" and "wf_cxt cxt"
    and "\<And>n. length (junk n) = 4 * n" and "538420000 < fuel"
  shows "\<exists>rows cxt' w'. megbyte_load_block_test m fuel junk cxt w = Returns (rows, cxt', w') \<and> wf_cxt cxt' \<and>
    (fst (sys m (Fopen ''read.csv'') w) \<noteq> 0 \<longrightarrow>
       map fst rows = map (\<lambda>k. 8 * 2 ^ k) [0..<18] \<and>
       (\<forall>(block, total, times)\<in>set rows. length times = 5 \<and> total = sum_list times))"
proof -
  let ?P = "\<lambda>xs (rows, c, w). wf_cxt c \<and> smi_regs c = Some regs \<and> map fst rows = xs \<and>
    (\<forall>(block, total, times)\<in>set rows. length times = 5 \<and> total = sum_list times)"
  have round: "\<exists>s'. block_round m fuel junk i s = Returns s' \<and> ?P (xs @ [i]) s'"
    if "?P xs s" "0 < i" "i \<le> 1048576" for xs i s
  proof -
    obtain rows c v where s: "s = (rows, c, v)" by (metis prod_cases3)
    have "nat i * 513 + 500512 < fuel" and "i < 2 ^ 30 - 1" using that(3) assms(6) by simp_all
    with timed_reads_total [OF assms(1,2) _ _ that(2), of c regs junk fuel 0 v] that(1) assms(5)
    show ?thesis by (fastforce simp: s block_round_def TEST_ITERATIONS_def)
  qed
  have "doubles 8 1048576 = map (\<lambda>k. 8 * 2 ^ k) [0..<18]"
    by (simp add: doubles.simps upt_rec)
  with c_double_doubles [where P = ?P and n = 1048576 and xs = "[]" and i = 8 and
      f = "block_round m fuel junk" and s = "([], cxt, snd (sys m (Fopen ''read.csv'') w))", OF round] assms(3,4)
  show ?thesis by (fastforce simp: megbyte_load_block_test_def split_beta Let_def)
qed

text \<open>
  \<^verbatim>\<open>testbench_read\<close> returns, on any machine with a clock, with enough fuel for one block, for every
  block length from 1 to \<^verbatim>\<open>2^30 - 2\<close>: the context stays well formed and the data register is read at most
  once for every four bytes of the \<^verbatim>\<open>len / block_len\<close> blocks, rounded up for each block.
\<close>
theorem testbench_read_returns:
  assumes "clock_law m now" and "alloc_law m" and "smi_regs cxt = Some regs" and "wf_cxt cxt"
    and "0 < block_len" and "block_len < 2 ^ 30 - 1" and "length ret = 4 * nat block_len"
    and "nat block_len * 513 + 500512 < fuel"
  shows "\<exists>t cxt' w' xs. testbench_read m fuel ret cxt len block_len w = Returns (t, cxt', w') \<and> wf_cxt cxt' \<and>
    loads_from (REG32 regs SMIO_D) (log w') = loads_from (REG32 regs SMIO_D) (log w) @ xs \<and>
    length xs \<le> unat len div nat block_len * ((nat block_len + 3) div 4)"
  using testbench_read_total [OF assms, of len w] by blast

theorem testbench_read_returns_witness:
  "\<exists>t cxt' w'. testbench_read ram0 600000 (replicate 32 0) (sample_cxt 1 True False False) 20 8
     (ram_world (\<lambda>_. 0x08000000)) = Returns (t, cxt', w') \<and>
     length (loads_from (0x1000 + SMIO_D) (log w')) \<le> 4"
proof -
  have "clock_law ram0 snd" by (rule ram_clock_law)
  then show ?thesis
    using testbench_read_returns [of ram0 snd "sample_cxt 1 True False False" "sample_map 0x1000" 8
        "replicate 32 0" 600000 20 "ram_world (\<lambda>_. 0x08000000)"]
    by (auto simp: ram_alloc_law sample_cxt_wf ram_world_def)
qed

text \<open>
  \<^verbatim>\<open>megbyte_load_thread_test\<close> returns, having measured blocks of 2048 words five times after
  each of nine rounds of thread creation, which double from 1 to 256.
\<close>
theorem thread_test_measures:
  assumes "clock_law m now" and "alloc_law m" and "smi_regs cxt = Some regs" and "wf_cxt cxt"
    and "\<And>n. length (junk n) = 4 * n" and "1551136 < fuel"
  shows "\<exists>rows cxt' w'. megbyte_load_thread_test m fuel junk cxt w = Returns (rows, cxt', w') \<and> wf_cxt cxt' \<and>
    map fst rows = map (\<lambda>k. 2 ^ k) [0..<9] \<and>
    (\<forall>(threads, total, times)\<in>set rows. length times = 5 \<and> total = sum_list times)"
proof -
  let ?P = "\<lambda>xs (t, rows, c, w). t = 0 \<and> wf_cxt c \<and> smi_regs c = Some regs \<and> map fst rows = xs \<and>
    (\<forall>(threads, total, times)\<in>set rows. length times = 5 \<and> total = sum_list times)"
  have create: "\<exists>w'. c_for 0 n (\<lambda>i w. Returns (snd (sys m PthreadCreate w))) v = Returns w'" for n v
    by (induction n) (auto simp: c_for_snoc)
  have round: "\<exists>s'. thread_round m fuel junk i s = Returns s' \<and> ?P (xs @ [i]) s'"
    if P: "?P xs s" for xs i s
  proof -
    obtain rows c v where s: "s = (0, rows, c, v)" using P by (cases s) auto
    obtain v' where v': "c_for 0 (nat i) (\<lambda>i w. Returns (snd (sys m PthreadCreate w))) v = Returns v'"
      using create by blast
    have "smi_regs c = Some regs" "wf_cxt c" using P by (simp_all add: s)
    from timed_reads_total [OF assms(1,2) this, of 2048 junk fuel 0 v'] assms(5,6) obtain ts c' w' where
      "timed_reads m fuel junk 2048 (0, [], c, v') = Returns (sum_list ts, ts, c', w')"
      "length ts = TEST_ITERATIONS" "wf_cxt c'" "smi_regs c' = Some regs" by auto
    with P v' show ?thesis by (simp add: s thread_round_def TEST_ITERATIONS_def)
  qed
  have "doubles 1 256 = map (\<lambda>k. 2 ^ k) [0..<9]"
    by (simp add: doubles.simps upt_rec)
  with c_double_doubles [where P = ?P and n = 256 and xs = "[]" and i = 1 and
      f = "thread_round m fuel junk" and s = "(0, [], cxt, w)", OF round] assms(3,4)
  show ?thesis by (fastforce simp: megbyte_load_thread_test_def)
qed

end
