(* ===== verification/Smi_Irq.thy ===== *)
theory Smi_Irq
  imports Smi_Machine
begin

unbundle bit_operations_syntax

text \<open>
  The kernel module \<^verbatim>\<open>smi-irq/smi_irq.c\<close>: the interrupt handler, \<^verbatim>\<open>poll\<close> and \<^verbatim>\<open>read\<close> of
  \<^verbatim>\<open>/dev/smi_irq\<close>, and the set-up and removal of the module.

  The handler and any number of readers run interleaved. A step of the relation \<open>irq_step\<close> is
  one access of the code to the registers, the counter or the wait queue; the counter is a
  32-bit \<^verbatim>\<open>atomic_t\<close>. The kernel services are as documented: \<^verbatim>\<open>wait_event_interruptible\<close>
  evaluates its condition before it sleeps and after every wake-up, goes on only if it saw the
  condition hold, or gives up because of a signal; \<^verbatim>\<open>wake_up_interruptible\<close> wakes every reader
  that sleeps on the queue.
\<close>

section \<open>State\<close>

type_synonym atomic_t = "32 word"

definition atomic_read :: "atomic_t \<Rightarrow> int" where "atomic_read c = sint c"
definition atomic_inc :: "atomic_t \<Rightarrow> atomic_t" where "atomic_inc c = c + 1"
definition atomic_dec :: "atomic_t \<Rightarrow> atomic_t" where "atomic_dec c = c - 1"

definition IRQ_NO :: int where "IRQ_NO = 90"
definition PI_23_REG_BASE :: uintptr where "PI_23_REG_BASE = 0x3F000000"
definition SMI_BASE_REG_OFFSET :: uintptr where "SMI_BASE_REG_OFFSET = 0x600000"
definition SMI_SIZE :: size_t where "SMI_SIZE = 0x100"
definition SMIO_CS_DONE :: u32 where "SMIO_CS_DONE = push_bit 1 1"

text \<open>Where the handler is between two accesses, and where a call of \<^verbatim>\<open>read\<close> is.\<close>

datatype handler_pc = Entry | Loaded u32 | Cleared | Counted

datatype reader_pc = Out | Testing | Asleep | Past

record 'h irq_state =
  irq_count :: atomic_t
  handler :: "handler_pc option"
  readers :: "reader_pc list"
  dev :: "'h world"

text \<open>The static initialisers: no interrupt counted, nobody waiting.\<close>

definition irq_init :: "nat \<Rightarrow> 'h world \<Rightarrow> 'h irq_state" where
  "irq_init n w = \<lparr>irq_count = 0, handler = None, readers = replicate n Out, dev = w\<rparr>"

section \<open>The handler\<close>

definition wake_up_interruptible :: "reader_pc list \<Rightarrow> reader_pc list" where
  "wake_up_interruptible rs = map (\<lambda>r. if r = Asleep then Testing else r) rs"

text \<open>One access of \<^verbatim>\<open>smi_handler\<close>; \<open>None\<close> is its return with \<^verbatim>\<open>IRQ_HANDLED\<close>.\<close>

definition smi_handler :: "'h machine \<Rightarrow> uintptr \<Rightarrow> handler_pc \<Rightarrow> 'h irq_state \<Rightarrow> 'h irq_state" where
  "smi_handler m smi_base pc s =
     (case pc of
        Entry \<Rightarrow>
          (let (cs_reg, w) = ld32 m (smi_base + 0) (dev s) in
           s\<lparr>dev := w,
             handler := (if cs_reg AND SMIO_CS_DONE \<noteq> 0 then Some (Loaded cs_reg) else None)\<rparr>)
      | Loaded cs_reg \<Rightarrow>
          s\<lparr>dev := st32 m (smi_base + 0) (cs_reg AND SMIO_CS_DONE) (dev s), handler := Some Cleared\<rparr>
      | Cleared \<Rightarrow> s\<lparr>irq_count := atomic_inc (irq_count s), handler := Some Counted\<rparr>
      | Counted \<Rightarrow> s\<lparr>readers := wake_up_interruptible (readers s), handler := None\<rparr>)"

section \<open>Poll and read\<close>

definition POLLIN :: u32 where "POLLIN = 0x001"
definition POLLRDNORM :: u32 where "POLLRDNORM = 0x040"
definition ERESTARTSYS :: int where "ERESTARTSYS = 512"

definition smi_poll :: "'h irq_state \<Rightarrow> u32" where
  "smi_poll s = (if atomic_read (irq_count s) > 0 then 0 OR (POLLIN OR POLLRDNORM) else 0)"

text \<open>
  One move of a call of \<^verbatim>\<open>smi_read\<close>: the next place, the counter, and the result once it
  returns. A signal is seen only while the call sleeps.
\<close>

definition smi_read :: "bool \<Rightarrow> reader_pc \<Rightarrow> atomic_t \<Rightarrow> (reader_pc \<times> atomic_t \<times> int option) option" where
  "smi_read signal pc c =
     (case pc of
        Out \<Rightarrow> None
      | Testing \<Rightarrow> Some (if atomic_read c > 0 then Past else Asleep, c, None)
      | Asleep \<Rightarrow> if signal then Some (Out, c, Some (- ERESTARTSYS)) else None
      | Past \<Rightarrow> Some (Out, atomic_dec c, Some 0))"

section \<open>The step relation\<close>

datatype label = Raised | Handler handler_pc | Call nat | Read nat bool "int option"

inductive irq_step ::
  "'h machine \<Rightarrow> uintptr \<Rightarrow> 'h irq_state \<Rightarrow> label \<Rightarrow> 'h irq_state \<Rightarrow> bool"
  for m :: "'h machine" and smi_base :: uintptr where
  raise: "handler s = None \<Longrightarrow> irq_step m smi_base s Raised (s\<lparr>handler := Some Entry\<rparr>)"
| handle: "handler s = Some pc \<Longrightarrow> irq_step m smi_base s (Handler pc) (smi_handler m smi_base pc s)"
| call: "\<lbrakk>i < length (readers s); readers s ! i = Out\<rbrakk>
    \<Longrightarrow> irq_step m smi_base s (Call i) (s\<lparr>readers := (readers s)[i := Testing]\<rparr>)"
| read: "\<lbrakk>i < length (readers s); smi_read sig (readers s ! i) (irq_count s) = Some (pc, c, r)\<rbrakk>
    \<Longrightarrow> irq_step m smi_base s (Read i sig r) (s\<lparr>readers := (readers s)[i := pc], irq_count := c\<rparr>)"

inductive_cases irq_stepE:
  "irq_step m smi_base s Raised s'"
  "irq_step m smi_base s (Handler pc) s'"
  "irq_step m smi_base s (Call i) s'"
  "irq_step m smi_base s (Read i sig r) s'"

inductive_simps irq_step_simps:
  "irq_step m smi_base s Raised s'"
  "irq_step m smi_base s (Handler pc) s'"
  "irq_step m smi_base s (Call i) s'"
  "irq_step m smi_base s (Read i sig r) s'"

inductive irq_run ::
  "'h machine \<Rightarrow> uintptr \<Rightarrow> 'h irq_state \<Rightarrow> label list \<Rightarrow> 'h irq_state \<Rightarrow> bool"
  for m :: "'h machine" and smi_base :: uintptr and s0 :: "'h irq_state" where
  start: "irq_run m smi_base s0 [] s0"
| step: "irq_run m smi_base s0 tr s \<Longrightarrow> irq_step m smi_base s l s'
    \<Longrightarrow> irq_run m smi_base s0 (tr @ [l]) s'"

text \<open>The events of a run: interrupts counted, and reads that returned one.\<close>

definition fired :: "label list \<Rightarrow> nat" where
  "fired tr = length (filter (\<lambda>l. l = Handler Cleared) tr)"

fun returned :: "label \<Rightarrow> bool" where
  "returned (Read i sig r) = (r = Some 0)"
| "returned l = False"

definition taken :: "label list \<Rightarrow> nat" where
  "taken tr = length (filter returned tr)"

lemma fired_simps [simp]:
  "fired [] = 0" "fired (tr @ [l]) = fired tr + (if l = Handler Cleared then 1 else 0)"
  by (simp_all add: fired_def)

lemma taken_simps [simp]:
  "taken [] = 0" "taken (tr @ [l]) = taken tr + (if returned l then 1 else 0)"
  by (auto simp: taken_def)

definition past :: "'h irq_state \<Rightarrow> nat" where
  "past s = length (filter (\<lambda>r. r = Past) (readers s))"

section \<open>Counting\<close>

lemma wake_up_simps [simp]:
  "length (wake_up_interruptible rs) = length rs"
  "length (filter (\<lambda>r. r = Past) (wake_up_interruptible rs)) = length (filter (\<lambda>r. r = Past) rs)"
  "Asleep \<notin> set (wake_up_interruptible rs)"
  by (induction rs) (auto simp: wake_up_interruptible_def)

lemma past_le: "past s \<le> length (readers s)"
  by (simp add: past_def)

text \<open>A reader's move seen in the number of readers past the condition.\<close>

lemma past_update:
  assumes "i < length rs"
  shows "length (filter (\<lambda>r. r = Past) (rs[i := pc])) + (if rs ! i = Past then 1 else 0)
    = length (filter (\<lambda>r. r = Past) rs) + (if pc = Past then 1 else 0)"
proof -
  have "length (filter P (rs[i := x])) + (if P (rs ! i) then 1 else 0)
      = length (filter P rs) + (if P x then 1 else 0)" for P x
    using assms
  proof (induction rs arbitrary: i)
    case (Cons r rs)
    then show ?case by (cases i) (simp_all split: if_splits)
  qed simp
  from this [of "\<lambda>r. r = Past" pc] show ?thesis .
qed

lemma atomic_inc_value: "sint c < 2 ^ 31 - 1 \<Longrightarrow> atomic_read (atomic_inc c) = atomic_read c + 1"
  using sint_ge [of c] by (simp add: atomic_read_def atomic_inc_def sint_word_ariths signed_take_bit_int_eq_self)

lemma atomic_dec_value: "- (2 ^ 31) < sint c \<Longrightarrow> atomic_read (atomic_dec c) = atomic_read c - 1"
  using sint_less [of c] by (simp add: atomic_read_def atomic_dec_def sint_word_ariths signed_take_bit_int_eq_self)

text \<open>
  What holds of every run of \<open>n\<close> readers: the counter is the interrupts less the reads, it has
  not fallen further below the readers past the condition than all but one of them can bring it,
  and nobody sleeps while it is positive unless the handler is about to wake them.
\<close>

definition irq_inv :: "nat \<Rightarrow> label list \<Rightarrow> 'h irq_state \<Rightarrow> bool" where
  "irq_inv n tr s \<longleftrightarrow> length (readers s) = n \<and>
     atomic_read (irq_count s) = int (fired tr) - int (taken tr) \<and>
     int (past s) \<le> atomic_read (irq_count s) + int (n - 1) \<and>
     (Asleep \<in> set (readers s) \<longrightarrow> 0 < atomic_read (irq_count s) \<longrightarrow> handler s = Some Counted)"

lemma irq_inv_handler:
  assumes "irq_inv n tr s" and "handler s = Some pc" and "fired (tr @ [Handler pc]) < 2 ^ 31"
  shows "irq_inv n (tr @ [Handler pc]) (smi_handler m smi_base pc s)"
proof (cases "pc = Cleared")
  case True
  have "sint (irq_count s) < 2 ^ 31 - 1"
    using assms(1,3) True by (simp add: irq_inv_def atomic_read_def)
  from atomic_inc_value [OF this] show ?thesis
    using assms True by (simp add: irq_inv_def smi_handler_def past_def)
next
  case False
  with assms show ?thesis
    by (cases pc) (auto simp: irq_inv_def smi_handler_def past_def split_beta Let_def)
qed

lemma asleep_update: "i < length rs \<Longrightarrow> Asleep \<in> set (rs[i := pc]) \<Longrightarrow> Asleep \<in> set rs \<or> pc = Asleep"
  using set_update_subset_insert by fastforce

lemma irq_inv_read:
  assumes inv: "irq_inv n tr s" and "n < 2 ^ 31" and i: "i < length (readers s)"
    and step: "smi_read sig (readers s ! i) (irq_count s) = Some (pc, c, r)"
  shows "irq_inv n (tr @ [Read i sig r]) (s\<lparr>readers := (readers s)[i := pc], irq_count := c\<rparr>)"
proof -
  note upd = past_update [OF i, of pc]
  show ?thesis
  proof (cases "readers s ! i")
    case Past
    then have "0 < past s" using i nth_mem [OF i] by (auto simp: past_def filter_empty_conv)
    moreover have "int (n - 1) < 2 ^ 31" using assms(2) by simp
    moreover have "int (past s) \<le> sint (irq_count s) + int (n - 1)"
      using inv by (simp add: irq_inv_def atomic_read_def)
    ultimately have "- (2 ^ 31) < sint (irq_count s)" by linarith
    from atomic_dec_value [OF this] show ?thesis
      using inv i step Past upd asleep_update [OF i, of pc]
      by (auto simp: irq_inv_def smi_read_def past_def)
  next
    case Testing
    then have "past s < length (readers s)"
      using length_filter_less [OF nth_mem [OF i], of "\<lambda>r. r = Past"] by (simp add: past_def)
    then show ?thesis
      using inv i step Testing upd asleep_update [OF i, of pc]
      by (auto simp: irq_inv_def smi_read_def past_def split: if_splits)
  qed (use inv i step upd asleep_update [OF i, of pc] in
      \<open>auto simp: irq_inv_def smi_read_def past_def ERESTARTSYS_def split: if_splits\<close>)
qed

lemma irq_run_inv:
  assumes "irq_run m smi_base (irq_init n w) tr s" and "n < 2 ^ 31" and "fired tr < 2 ^ 31"
  shows "irq_inv n tr s"
  using assms(1,3)
proof (induction rule: irq_run.induct)
  case start
  show ?case by (simp add: irq_inv_def irq_init_def past_def atomic_read_def)
next
  case (step tr s l s')
  then have inv: "irq_inv n tr s" by (simp split: if_splits)
  from step(2) show ?case
  proof cases
    case raise
    with inv show ?thesis by (auto simp: irq_inv_def past_def)
  next
    case (handle pc)
    with inv step.prems show ?thesis using irq_inv_handler by blast
  next
    case (call i)
    with inv show ?thesis
      using past_update [OF call(3), of Testing] asleep_update [OF call(3), of Testing]
      by (auto simp: irq_inv_def past_def)
  next
    case (read i sig pc c r)
    with inv assms(2) show ?thesis using irq_inv_read by blast
  qed
qed
section \<open>Executing a run\<close>

definition irq_next :: "'h machine \<Rightarrow> uintptr \<Rightarrow> label \<Rightarrow> 'h irq_state \<Rightarrow> 'h irq_state option" where
  "irq_next m smi_base l s =
     (case l of
        Raised \<Rightarrow> if handler s = None then Some (s\<lparr>handler := Some Entry\<rparr>) else None
      | Handler pc \<Rightarrow> if handler s = Some pc then Some (smi_handler m smi_base pc s) else None
      | Call i \<Rightarrow>
          if i < length (readers s) \<and> readers s ! i = Out
          then Some (s\<lparr>readers := (readers s)[i := Testing]\<rparr>) else None
      | Read i sig r \<Rightarrow>
          if i < length (readers s) then
            (case smi_read sig (readers s ! i) (irq_count s) of
               None \<Rightarrow> None
             | Some (pc, c, r') \<Rightarrow>
                 if r' = r then Some (s\<lparr>readers := (readers s)[i := pc], irq_count := c\<rparr>) else None)
          else None)"

lemma irq_step_iff: "irq_step m smi_base s l s' \<longleftrightarrow> irq_next m smi_base l s = Some s'"
  by (cases l) (auto simp: irq_step_simps irq_next_def split: option.splits)

definition irq_exec :: "'h machine \<Rightarrow> uintptr \<Rightarrow> label list \<Rightarrow> 'h irq_state \<Rightarrow> 'h irq_state option" where
  "irq_exec m smi_base tr s = fold (\<lambda>l r. Option.bind r (irq_next m smi_base l)) tr (Some s)"

lemma irq_exec_run: "irq_exec m smi_base tr s0 = Some s \<Longrightarrow> irq_run m smi_base s0 tr s"
proof (induction tr arbitrary: s rule: rev_induct)
  case Nil
  then show ?case by (simp add: irq_exec_def irq_run.start)
next
  case (snoc l tr)
  then show ?case
    by (auto simp: irq_exec_def irq_step_iff [symmetric] bind_eq_Some_conv intro: irq_run.step)
qed

text \<open>The run is determined by its labels.\<close>

lemma irq_run_exec: "irq_run m smi_base s0 tr s \<Longrightarrow> irq_exec m smi_base tr s0 = Some s"
  by (induction rule: irq_run.induct) (auto simp: irq_exec_def irq_step_iff)

section \<open>What the device file promises\<close>

text \<open>
  The abstract device: a number of interrupts not yet delivered. A read that returns delivers one,
  and may not if there is none.
\<close>

definition deliver :: "label \<Rightarrow> nat option \<Rightarrow> nat option" where
  "deliver l p = (case p of None \<Rightarrow> None
     | Some k \<Rightarrow> if l = Handler Cleared then Some (Suc k)
                else if returned l then (if k = 0 then None else Some (k - 1)) else Some k)"

lemma single_reader_run:
  assumes "irq_run m smi_base (irq_init 1 w) tr s" and "fired tr < 2 ^ 31"
  shows "fold deliver tr (Some 0) = Some (nat (atomic_read (irq_count s)))"
  using assms
proof (induction rule: irq_run.induct)
  case start
  then show ?case by (simp add: irq_init_def atomic_read_def)
next
  case (step tr s l s')
  have run: "irq_run m smi_base (irq_init 1 w) (tr @ [l]) s'" using step.hyps by (rule irq_run.step)
  have "fired tr < 2 ^ 31" using step.prems by (simp split: if_splits)
  with step.hyps(1) step.prems run have "irq_inv 1 tr s" and "irq_inv 1 (tr @ [l]) s'"
    by (auto intro: irq_run_inv)
  with step \<open>fired tr < 2 ^ 31\<close> show ?case
    by (auto simp: deliver_def irq_inv_def nat_diff_distrib split: if_splits)
qed

section \<open>Acknowledgement\<close>

lemma done_bit: "(cs :: u32) AND SMIO_CS_DONE = (if bit cs 1 then SMIO_CS_DONE else 0)"
  by (rule bit_word_eqI) (auto simp: SMIO_CS_DONE_def bit_simps)

lemma SMIO_CS_DONE_nonzero [simp]: "SMIO_CS_DONE \<noteq> 0"
  by (simp add: SMIO_CS_DONE_def)

definition ack_inv :: "uintptr \<Rightarrow> 'h world \<Rightarrow> label list \<Rightarrow> 'h irq_state \<Rightarrow> bool" where
  "ack_inv smi_base w tr s \<longleftrightarrow>
     (\<forall>cs. handler s = Some (Loaded cs) \<longrightarrow> cs AND SMIO_CS_DONE = SMIO_CS_DONE) \<and>
     stores (log (dev s)) = stores (log w)
       @ replicate (fired tr + (if handler s = Some Cleared then 1 else 0)) (smi_base, SMIO_CS_DONE)"

lemma irq_run_ack: "irq_run m smi_base (irq_init n w) tr s \<Longrightarrow> ack_inv smi_base w tr s"
proof (induction rule: irq_run.induct)
  case start
  show ?case by (simp add: ack_inv_def irq_init_def)
next
  case (step tr s l s')
  from step(2) show ?case
  proof cases
    case (handle pc)
    with step(3) show ?thesis
      by (cases pc) (auto simp: ack_inv_def smi_handler_def split_beta Let_def done_bit replicate_append_same)
  qed (use step(3) in \<open>auto simp: ack_inv_def\<close>)
qed

section \<open>Loading and unloading the module\<close>

text \<open>
  The kernel services the module obtains and gives back, with the result of each: a pointer as
  its address, an error pointer as the negative error number.
\<close>

datatype kcall =
    Ioremap uintptr size_t | InitWaitqueue | AllocChrdev | UnregisterChrdev | CdevInit | CdevAdd | CdevDel
  | ClassCreate | ClassDestroy | DeviceCreate | DeviceDestroy | RequestIrq int | SynchronizeIrq int
  | FreeIrq int

record 'k kernel =
  kstate :: 'k
  klog :: "(kcall \<times> int) list"

definition kdo :: "(kcall \<Rightarrow> 'k \<Rightarrow> int \<times> 'k) \<Rightarrow> kcall \<Rightarrow> 'k kernel \<Rightarrow> int \<times> 'k kernel" where
  "kdo K c k = (let (r, x) = K c (kstate k) in (r, \<lparr>kstate = x, klog = klog k @ [(c, r)]\<rparr>))"

definition IS_ERR :: "int \<Rightarrow> bool" where "IS_ERR p \<longleftrightarrow> - 4095 \<le> p \<and> p < 0"
definition ENOMEM :: int where "ENOMEM = 12"

definition destroy_device :: "(kcall \<Rightarrow> 'k \<Rightarrow> int \<times> 'k) \<Rightarrow> 'k kernel \<Rightarrow> 'k kernel" where
  "destroy_device K k = snd (kdo K ClassDestroy (snd (kdo K DeviceDestroy k)))"

definition del_cdev :: "(kcall \<Rightarrow> 'k \<Rightarrow> int \<times> 'k) \<Rightarrow> 'k kernel \<Rightarrow> 'k kernel" where
  "del_cdev K k = snd (kdo K CdevDel k)"

definition unregister_chrdevregion :: "(kcall \<Rightarrow> 'k \<Rightarrow> int \<times> 'k) \<Rightarrow> 'k kernel \<Rightarrow> 'k kernel" where
  "unregister_chrdevregion K k = snd (kdo K UnregisterChrdev k)"

definition smi_interrupt_init :: "(kcall \<Rightarrow> 'k \<Rightarrow> int \<times> 'k) \<Rightarrow> 'k kernel \<Rightarrow> int \<times> 'k kernel" where
  "smi_interrupt_init K k =
     (let (smi_base, k) = kdo K (Ioremap (PI_23_REG_BASE + SMI_BASE_REG_OFFSET) SMI_SIZE) k in
      if smi_base = 0 then (- ENOMEM, k) else
      let (_, k) = kdo K InitWaitqueue k;
          (ret, k) = kdo K AllocChrdev k in
      if ret \<noteq> 0 then (ret, k) else
      let (_, k) = kdo K CdevInit k;
          (ret, k) = kdo K CdevAdd k in
      if ret \<noteq> 0 then (ret, unregister_chrdevregion K k) else
      let (smi_class, k) = kdo K ClassCreate k in
      if IS_ERR smi_class then (smi_class, unregister_chrdevregion K (del_cdev K k)) else
      let (dev_ptr, k) = kdo K DeviceCreate k in
      if IS_ERR dev_ptr then
        (dev_ptr, unregister_chrdevregion K (del_cdev K (snd (kdo K ClassDestroy k)))) else
      let (ret, k) = kdo K (RequestIrq IRQ_NO) k in
      (0, k))"

definition smi_interrupt_exit :: "(kcall \<Rightarrow> 'k \<Rightarrow> int \<times> 'k) \<Rightarrow> 'k kernel \<Rightarrow> 'k kernel" where
  "smi_interrupt_exit K k =
     (let (_, k) = kdo K (SynchronizeIrq IRQ_NO) k;
          (_, k) = kdo K (FreeIrq IRQ_NO) k;
          (_, k) = kdo K DeviceDestroy k;
          (_, k) = kdo K ClassDestroy k;
          (_, k) = kdo K CdevDel k;
          (_, k) = kdo K UnregisterChrdev k in
      k)"

text \<open>What the module holds after a sequence of calls, as the kernel documents them.\<close>

datatype resource = Mapping | Region | Cdev | Class | Device | Irq

fun ledger_step :: "kcall \<times> int \<Rightarrow> resource multiset \<Rightarrow> resource multiset" where
  "ledger_step (Ioremap a n, r) H = (if r \<noteq> 0 then add_mset Mapping H else H)"
| "ledger_step (AllocChrdev, r) H = (if r = 0 then add_mset Region H else H)"
| "ledger_step (CdevAdd, r) H = (if r = 0 then add_mset Cdev H else H)"
| "ledger_step (ClassCreate, r) H = (if \<not> IS_ERR r then add_mset Class H else H)"
| "ledger_step (DeviceCreate, r) H = (if \<not> IS_ERR r then add_mset Device H else H)"
| "ledger_step (RequestIrq n, r) H = (if r = 0 then add_mset Irq H else H)"
| "ledger_step (UnregisterChrdev, r) H = H - {#Region#}"
| "ledger_step (CdevDel, r) H = H - {#Cdev#}"
| "ledger_step (ClassDestroy, r) H = H - {#Class#}"
| "ledger_step (DeviceDestroy, r) H = H - {#Device#}"
| "ledger_step (FreeIrq n, r) H = H - {#Irq#}"
| "ledger_step (c, r) H = H"

definition held :: "'k kernel \<Rightarrow> resource multiset" where
  "held k = fold ledger_step (klog k) {#}"

lemma held_kdo [simp]: "held (snd (kdo K c k)) = ledger_step (c, fst (kdo K c k)) (held k)"
  by (simp add: held_def kdo_def split_beta Let_def)

lemma kdo_ledger: "kdo K c k = (r, k') \<Longrightarrow> held k' = ledger_step (c, r) (held k)"
  using held_kdo [of K c k] by simp

lemma kdo_last: "kdo K c k = (r, k') \<Longrightarrow> last (klog k') = (c, r)"
  by (auto simp: kdo_def split_beta Let_def)

lemmas module_defs =
  smi_interrupt_init_def smi_interrupt_exit_def destroy_device_def del_cdev_def
  unregister_chrdevregion_def

definition all_made :: "resource multiset" where
  "all_made = {#Mapping, Region, Cdev, Class, Device#}"

lemma smi_interrupt_init_ledger:
  assumes "smi_interrupt_init K k = (r, k')"
  shows "r = 0 \<and> (\<exists>q. last (klog k') = (RequestIrq IRQ_NO, q) \<and>
           held k' = held k + all_made + (if q = 0 then {#Irq#} else {#}))
       \<or> r = - ENOMEM \<and> held k' = held k \<or> r \<noteq> 0 \<and> held k' = add_mset Mapping (held k)"
proof -
  obtain p k1 where 1: "kdo K (Ioremap (PI_23_REG_BASE + SMI_BASE_REG_OFFSET) SMI_SIZE) k = (p, k1)" by fastforce
  obtain p2 k2 where 2: "kdo K InitWaitqueue k1 = (p2, k2)" by fastforce
  obtain p3 k3 where 3: "kdo K AllocChrdev k2 = (p3, k3)" by fastforce
  obtain p4 k4 where 4: "kdo K CdevInit k3 = (p4, k4)" by fastforce
  obtain p5 k5 where 5: "kdo K CdevAdd k4 = (p5, k5)" by fastforce
  obtain p6 k6 where 6: "kdo K ClassCreate k5 = (p6, k6)" by fastforce
  obtain p7 k7 where 7: "kdo K DeviceCreate k6 = (p7, k7)" by fastforce
  obtain p8 k8 where 8: "kdo K (RequestIrq IRQ_NO) k7 = (p8, k8)" by fastforce
  note made = 1 2 3 4 5 6 7 8
  note ledger = made [THEN kdo_ledger, unfolded ledger_step.simps]
  have last: "last (klog k8) = (RequestIrq IRQ_NO, p8)" using kdo_last [OF 8] .
  have err: "IS_ERR p6 \<Longrightarrow> p6 \<noteq> 0" "IS_ERR p7 \<Longrightarrow> p7 \<noteq> 0" by (auto simp: IS_ERR_def)
  note [simp] = made ledger last
  consider "p = 0" | "p \<noteq> 0" "p3 \<noteq> 0" | "p \<noteq> 0" "p3 = 0" "p5 \<noteq> 0" | "p \<noteq> 0" "p3 = 0" "p5 = 0" "IS_ERR p6"
    | "p \<noteq> 0" "p3 = 0" "p5 = 0" "\<not> IS_ERR p6" "IS_ERR p7"
    | "p \<noteq> 0" "p3 = 0" "p5 = 0" "\<not> IS_ERR p6" "\<not> IS_ERR p7"
    by blast
  then show ?thesis
  proof cases
    case 1
    then have "r = - ENOMEM" "k' = k1" using assms by (simp_all add: module_defs)
    with 1 show ?thesis by simp
  next
    case 2
    then have "r = p3" "k' = k3" using assms by (simp_all add: module_defs)
    with 2 show ?thesis by simp
  next
    case 3
    then have "r = p5" "k' = unregister_chrdevregion K k5" using assms by (simp_all add: module_defs)
    with 3 show ?thesis by (simp add: module_defs)
  next
    case 4
    then have "r = p6" "k' = unregister_chrdevregion K (del_cdev K k6)"
      using assms by (simp_all add: module_defs)
    with 4 err show ?thesis by (simp add: module_defs)
  next
    case 5
    then have "r = p7" "k' = unregister_chrdevregion K (del_cdev K (snd (kdo K ClassDestroy k7)))"
      using assms by (simp_all add: module_defs)
    with 5 err show ?thesis by (simp add: module_defs)
  next
    case 6
    then have "r = 0" "k' = k8" using assms by (simp_all add: module_defs)
    with 6 show ?thesis by (simp add: all_made_def add_mset_commute)
  qed
qed

lemma smi_interrupt_exit_ledger:
  "held (smi_interrupt_exit K k) = held k - {#Irq#} - {#Device#} - {#Class#} - {#Cdev#} - {#Region#}"
proof -
  obtain p1 k1 where 1: "kdo K (SynchronizeIrq IRQ_NO) k = (p1, k1)" by fastforce
  obtain p2 k2 where 2: "kdo K (FreeIrq IRQ_NO) k1 = (p2, k2)" by fastforce
  obtain p3 k3 where 3: "kdo K DeviceDestroy k2 = (p3, k3)" by fastforce
  obtain p4 k4 where 4: "kdo K ClassDestroy k3 = (p4, k4)" by fastforce
  obtain p5 k5 where 5: "kdo K CdevDel k4 = (p5, k5)" by fastforce
  obtain p6 k6 where 6: "kdo K UnregisterChrdev k5 = (p6, k6)" by fastforce
  note made = 1 2 3 4 5 6
  show ?thesis
    by (simp add: smi_interrupt_exit_def made made [THEN kdo_ledger, unfolded ledger_step.simps])
qed

lemma module_cycle_ledger:
  assumes "smi_interrupt_init K k = (0, k')" and "held k = {#}"
  shows "held (smi_interrupt_exit K k') = {#Mapping#}"
proof -
  have "held k' = all_made \<or> held k' = all_made + {#Irq#}"
    using smi_interrupt_init_ledger [OF assms(1)] assms(2) by (auto simp: ENOMEM_def split: if_splits)
  then show ?thesis unfolding smi_interrupt_exit_ledger by (auto simp: all_made_def)
qed


section \<open>The test program\<close>

text \<open>
  \<^verbatim>\<open>test_poll.c\<close>: wait for the device file to be readable, read it, and count, for ever.
\<close>

definition test_poll_body :: "'h machine \<Rightarrow> int \<Rightarrow> nat \<times> 'h world \<Rightarrow> (nat \<times> 'h world, nat \<times> 'h world) iter" where
  "test_poll_body m fd = (\<lambda>(cnt, w).
     let (ret, w) = sys m (PollFd fd) w in
     if ret > 0 then Again (cnt + 1, snd (sys m (ReadFd fd 0) w)) else Again (cnt, w))"

definition test_poll :: "'h machine \<Rightarrow> nat \<Rightarrow> 'h world \<Rightarrow> (int \<times> 'h world) outcome" where
  "test_poll m fuel w =
     (let (fd, w) = sys m (Open ''/dev/smi_irq'' ''O_RDONLY'') w in
      if fd < 0 then Returns (1, perr ''Couldn't open /dev/smi_irq'' w)
      else
        obind (loop fuel (test_poll_body m fd) (0, w)) (\<lambda>(cnt, w).
        Returns (0, snd (sys m (Close fd) w))))"

lemma test_poll_diverges:
  "0 \<le> fst (sys m (Open ''/dev/smi_irq'' ''O_RDONLY'') w) \<Longrightarrow> test_poll m fuel w = OutOfFuel"
  using loop_diverges [of "\<lambda>_. True" "test_poll_body m fd" for fd]
  by (simp add: test_poll_def test_poll_body_def split_beta Let_def)

section \<open>Properties\<close>

text \<open>
  C7: In every run of the interrupt module with \<open>n\<close> readers (and fewer than \<open>2 ^ 31\<close>
  interrupts), the counter is the interrupts counted less the reads that returned one, and it is
  never further below the number of readers past the condition than \<open>n - 1\<close>: with one reader it
  never goes negative.
\<close>
theorem irq_counter_invariant:
  assumes "irq_run m smi_base (irq_init n w) tr s" and "n < 2 ^ 31" and "fired tr < 2 ^ 31"
  shows "atomic_read (irq_count s) = int (fired tr) - int (taken tr) \<and>
    int (past s) \<le> atomic_read (irq_count s) + int (n - 1)"
  using irq_run_inv [OF assms] by (simp_all add: irq_inv_def)

definition one_interrupt :: "label list" where
  "one_interrupt = [Raised, Handler Entry, Handler (Loaded 2), Handler Cleared, Handler Counted]"

definition two_reads :: "label list" where
  "two_reads = [Call 0, Call 1, Read 0 False None, Read 1 False None,
     Read 0 False (Some 0), Read 1 False (Some 0)]"

definition irq_sample :: "nat \<Rightarrow> label list \<Rightarrow> ram irq_state" where
  "irq_sample n tr = the (irq_exec ram0 0 tr (irq_init n (ram_world (\<lambda>_. 2))))"

lemma irq_sample_run:
  "irq_exec ram0 0 tr (irq_init n (ram_world (\<lambda>_. 2))) \<noteq> None \<Longrightarrow>
   irq_run ram0 0 (irq_init n (ram_world (\<lambda>_. 2))) tr (irq_sample n tr)"
  by (rule irq_exec_run) (simp add: irq_sample_def)

lemma two_reads_run:
  "irq_run ram0 0 (irq_init 2 (ram_world (\<lambda>_. 2))) (one_interrupt @ two_reads)
     (irq_sample 2 (one_interrupt @ two_reads))"
  by (rule irq_sample_run) code_simp

theorem irq_counter_invariant_witness:
  "atomic_read (irq_count (irq_sample 2 (one_interrupt @ two_reads))) = 1 - 2"
  using irq_counter_invariant [OF two_reads_run] by (simp add: fired_def taken_def one_interrupt_def two_reads_def)

text \<open>
  C8: No wake-up is lost: whenever a reader sleeps while the counter is positive, the handler has
  counted an interrupt and is about to wake it.
\<close>
theorem no_lost_wakeup:
  assumes "irq_run m smi_base (irq_init n w) tr s" and "n < 2 ^ 31" and "fired tr < 2 ^ 31"
    and "Asleep \<in> set (readers s)" and "0 < atomic_read (irq_count s)"
  shows "handler s = Some Counted"
  using irq_run_inv [OF assms(1-3)] assms(4,5) by (simp add: irq_inv_def)

definition waiting_reader :: "label list" where
  "waiting_reader = [Call 0, Read 0 False None, Raised, Handler Entry, Handler (Loaded 2), Handler Cleared]"

lemma waiting_reader_run:
  "irq_run ram0 0 (irq_init 1 (ram_world (\<lambda>_. 2))) waiting_reader (irq_sample 1 waiting_reader)"
  by (rule irq_sample_run) code_simp

lemma waiting_reader_fired: "fired waiting_reader = 1"
  by (simp add: fired_def waiting_reader_def)

lemma waiting_reader_state:
  "readers (irq_sample 1 waiting_reader) = [Asleep]" "atomic_read (irq_count (irq_sample 1 waiting_reader)) = 1"
  by code_simp+

theorem no_lost_wakeup_witness: "handler (irq_sample 1 waiting_reader) = Some Counted"
  by (rule no_lost_wakeup [OF waiting_reader_run])
    (simp_all add: waiting_reader_state [unfolded One_nat_def] waiting_reader_fired)

text \<open>
  C9: With a single reader the module is a counter of undelivered interrupts: every run, seen as
  interrupts counted and reads returned, is one of the abstract device, whose number of
  undelivered interrupts the module's counter is, and \<^verbatim>\<open>poll\<close> reports the file readable exactly
  when there is one.
\<close>
theorem single_reader_refines:
  assumes "irq_run m smi_base (irq_init 1 w) tr s" and "fired tr < 2 ^ 31"
  shows "\<exists>k. fold deliver tr (Some 0) = Some k \<and> atomic_read (irq_count s) = int k \<and>
    smi_poll s = (if 0 < k then POLLIN OR POLLRDNORM else 0)"
proof -
  have "irq_inv 1 tr s" using assms by (auto intro: irq_run_inv)
  then have "0 \<le> atomic_read (irq_count s)" by (simp add: irq_inv_def)
  with single_reader_run [OF assms] show ?thesis by (auto simp: smi_poll_def)
qed

theorem single_reader_refines_witness:
  "\<exists>k. fold deliver waiting_reader (Some 0) = Some k \<and> k = 1
     \<and> smi_poll (irq_sample 1 waiting_reader) = 0x41"
  using single_reader_refines [OF waiting_reader_run] waiting_reader_state(2)
  by (auto simp: waiting_reader_fired POLLIN_def POLLRDNORM_def)

text \<open>
  C35: With two readers the counter can run ahead of the interrupts: both see the one interrupt
  and both return, since the test and the decrement are separate. The counter is then \<open>-1\<close>, so
  the next interrupt is counted but neither reported by \<^verbatim>\<open>poll\<close> nor enough for a read to return.
\<close>
theorem two_readers_overtake:
  "\<exists>tr s. irq_run ram0 0 (irq_init 2 (ram_world (\<lambda>_. 2))) tr s \<and> fired tr = 2 \<and>
     fold deliver tr (Some 0) = None \<and> handler s = None \<and>
     smi_poll s = 0 \<and> smi_read False Testing (irq_count s) = Some (Asleep, irq_count s, None)"
proof -
  let ?tr = "one_interrupt @ two_reads @ one_interrupt"
  have "irq_run ram0 0 (irq_init 2 (ram_world (\<lambda>_. 2))) ?tr (irq_sample 2 ?tr)"
    by (rule irq_sample_run) code_simp
  moreover have "fired ?tr = 2" by (simp add: fired_def one_interrupt_def two_reads_def)
  moreover have "fold deliver ?tr (Some 0) = None" by code_simp
  moreover have "handler (irq_sample 2 ?tr) = None" by code_simp
  moreover have "irq_count (irq_sample 2 ?tr) = 0" by code_simp
  ultimately show ?thesis
    by (intro exI [of _ ?tr] exI [of _ "irq_sample 2 ?tr"])
      (simp add: smi_poll_def smi_read_def atomic_read_def)
qed

text \<open>
  C23: The handler acknowledges before it counts, and touches nothing else: in every run the stores
  are one of exactly the done bit to the control register for each interrupt counted, and one more
  while the handler is between the two.
\<close>
theorem interrupts_acknowledged:
  assumes "irq_run m smi_base (irq_init n w) tr s"
  shows "stores (log (dev s)) = stores (log w)
    @ replicate (fired tr + (if handler s = Some Cleared then 1 else 0)) (smi_base, 2)"
  using irq_run_ack [OF assms] by (simp add: ack_inv_def SMIO_CS_DONE_def)

theorem interrupts_acknowledged_witness:
  "stores (log (dev (irq_sample 2 (one_interrupt @ two_reads)))) = [(0, 2)]"
proof -
  have "handler (irq_sample 2 (one_interrupt @ two_reads)) = None" by code_simp
  then show ?thesis
    using interrupts_acknowledged [OF two_reads_run]
    by (simp add: fired_def one_interrupt_def two_reads_def ram_world_def)
qed

text \<open>
  C24: Loading the module either returns 0, holding everything it asked for but possibly the
  interrupt, whose request may have failed; or the mapping failed and nothing is held; or a later
  request failed, everything obtained after the mapping has been given back, and the mapping is
  left behind.
\<close>
theorem module_init_ledger:
  assumes "smi_interrupt_init K k = (r, k')"
  shows "r = 0 \<and> (\<exists>q. last (klog k') = (RequestIrq IRQ_NO, q) \<and>
           held k' = held k + all_made + (if q = 0 then {#Irq#} else {#}))
       \<or> r = - ENOMEM \<and> held k' = held k \<or> r \<noteq> 0 \<and> held k' = add_mset Mapping (held k)"
  using assms by (rule smi_interrupt_init_ledger)

definition busy_kernel :: "kcall \<Rightarrow> unit \<Rightarrow> int \<times> unit" where
  "busy_kernel c u =
     (case c of Ioremap a n \<Rightarrow> (4096, u) | ClassCreate \<Rightarrow> (1, u) | DeviceCreate \<Rightarrow> (1, u)
      | RequestIrq n \<Rightarrow> (- 16, u) | _ \<Rightarrow> (0, u))"

abbreviation (input) fresh_kernel :: "unit kernel" where
  "fresh_kernel \<equiv> \<lparr>kstate = (), klog = []\<rparr>"

lemma busy_kernel_init:
  "smi_interrupt_init busy_kernel fresh_kernel = (0, snd (smi_interrupt_init busy_kernel fresh_kernel))"
  by (simp add: smi_interrupt_init_def busy_kernel_def kdo_def IS_ERR_def)

theorem module_init_ledger_witness:
  "\<exists>q. last (klog (snd (smi_interrupt_init busy_kernel fresh_kernel))) = (RequestIrq IRQ_NO, q) \<and>
     held (snd (smi_interrupt_init busy_kernel fresh_kernel)) = all_made + (if q = 0 then {#Irq#} else {#})"
  using module_init_ledger [OF busy_kernel_init] by (simp add: held_def ENOMEM_def)

text \<open>
  Loading the module and unloading it again leaves exactly one mapping behind: nothing undoes
  \<^verbatim>\<open>ioremap\<close>.
\<close>
theorem module_cycle_leaks:
  assumes "smi_interrupt_init K k = (0, k')" and "held k = {#}"
  shows "held (smi_interrupt_exit K k') = {#Mapping#}"
  using assms by (rule module_cycle_ledger)

theorem module_cycle_leaks_witness:
  "held (smi_interrupt_exit busy_kernel (snd (smi_interrupt_init busy_kernel fresh_kernel))) = {#Mapping#}"
  by (rule module_cycle_leaks [OF busy_kernel_init]) (simp add: held_def)

end
