(* ===== verification/Smi_Fuel.thy ===== *)
theory Smi_Fuel
  imports Smi_Lite Smi_Sram Smi_Irq
begin

text \<open>
  Fuel is a device of the model, not of the code. Outcomes are ordered by how much of the run has been
  seen (\<open>OutOfFuel\<close> below everything, nothing else comparable), and every operation is monotone
  in its fuel: a result, a value or undefined behaviour, is the same with any greater fuel. So
  a theorem that states a result for one amount of fuel states the result of the code.
\<close>

named_theorems fuel_mono \<open>monotonicity in the fuel\<close>

section \<open>The order of outcomes\<close>

instantiation outcome :: (type) order_bot
begin

definition bot_outcome :: "'a outcome" where "bot = OutOfFuel"

definition less_eq_outcome :: "'a outcome \<Rightarrow> 'a outcome \<Rightarrow> bool" where
  "r \<le> s \<longleftrightarrow> r = OutOfFuel \<or> r = s"

definition less_outcome :: "'a outcome \<Rightarrow> 'a outcome \<Rightarrow> bool" where
  "r < s \<longleftrightarrow> r = OutOfFuel \<and> s \<noteq> OutOfFuel"

instance
  by standard (auto simp: bot_outcome_def less_eq_outcome_def less_outcome_def)

end

text \<open>An iteration is below another if it is the same or has run out of fuel.\<close>

instantiation iter :: (type, type) order_bot
begin

definition bot_iter :: "('a, 'b) iter" where "bot = Leave OutOfFuel"

definition less_eq_iter :: "('a, 'b) iter \<Rightarrow> ('a, 'b) iter \<Rightarrow> bool" where
  "i \<le> j \<longleftrightarrow> i = Leave OutOfFuel \<or> i = j"

definition less_iter :: "('a, 'b) iter \<Rightarrow> ('a, 'b) iter \<Rightarrow> bool" where
  "i < j \<longleftrightarrow> i = Leave OutOfFuel \<and> j \<noteq> Leave OutOfFuel"

instance
  by standard (auto simp: bot_iter_def less_eq_iter_def less_iter_def)

end

lemma outcome_le_Returns: "r \<le> s \<Longrightarrow> r = Returns x \<Longrightarrow> s = Returns x"
  by (auto simp: less_eq_outcome_def)

lemma outcome_le_iff: "r \<le> s \<longleftrightarrow> (r \<noteq> OutOfFuel \<longrightarrow> s = r)"
  by (auto simp: less_eq_outcome_def)

section \<open>The combinators are monotone\<close>

lemma obind_fuel [fuel_mono]:
  "r \<le> r' \<Longrightarrow> (\<And>x. f x \<le> f' x) \<Longrightarrow> obind r f \<le> obind r' f'"
proof (cases r)
  case (Returns x)
  assume "r \<le> r'" and "\<And>x. f x \<le> f' x"
  from this(2) [of x] this(1) Returns show ?thesis by (auto simp: less_eq_outcome_def)
qed (auto simp: less_eq_outcome_def)

lemma ibind_fuel [fuel_mono]:
  "r \<le> r' \<Longrightarrow> (\<And>x. f x \<le> f' x) \<Longrightarrow> ibind r f \<le> ibind r' f'"
proof (cases r)
  case (Returns x)
  assume "r \<le> r'" and "\<And>x. f x \<le> f' x"
  from this(2) [of x] this(1) Returns show ?thesis
    by (auto simp: less_eq_outcome_def less_eq_iter_def)
qed (auto simp: less_eq_outcome_def less_eq_iter_def)

lemma Leave_fuel [fuel_mono]: "r \<le> r' \<Longrightarrow> Leave r \<le> Leave r'"
  by (auto simp: less_eq_outcome_def less_eq_iter_def)

lemma Let_fuel [fuel_mono]: "(\<And>x. f x \<le> f' x) \<Longrightarrow> Let a f \<le> Let a (f' :: 'a \<Rightarrow> 'b :: order)"
  by simp

lemma case_prod_fuel [fuel_mono]:
  "(\<And>x y. f x y \<le> f' x y) \<Longrightarrow> case_prod f p \<le> case_prod (f' :: 'a \<Rightarrow> 'b \<Rightarrow> 'c :: order) p"
  by (cases p) simp

lemma case_option_fuel [fuel_mono]:
  "n \<le> n' \<Longrightarrow> (\<And>x. f x \<le> f' x) \<Longrightarrow> case_option n f v \<le> case_option n' (f' :: 'a \<Rightarrow> 'b :: order) v"
  by (cases v) simp_all

lemma if_fuel [fuel_mono]:
  "r \<le> r' \<Longrightarrow> s \<le> s' \<Longrightarrow> (if b then r else s) \<le> (if b then r' else s' :: 'a :: order)"
  by simp

lemma loop_fuel [fuel_mono]:
  "fuel \<le> fuel' \<Longrightarrow> (\<And>s. body s \<le> body' s) \<Longrightarrow> loop fuel body s \<le> loop fuel' body' s"
proof (induction fuel arbitrary: fuel' s)
  case 0
  then show ?case by (simp add: less_eq_outcome_def)
next
  case (Suc fuel)
  then obtain more where more: "fuel' = Suc more" "fuel \<le> more" by (cases fuel') auto
  show ?case
  proof (cases "body s = Leave OutOfFuel")
    case True
    then show ?thesis by (simp add: less_eq_outcome_def)
  next
    case False
    with Suc.prems(2) [of s] have "body' s = body s" by (simp add: less_eq_iter_def)
    with Suc.IH [OF more(2) Suc.prems(2)] show ?thesis
      by (cases "body s") (simp_all add: more)
  qed
qed

lemma c_for_fuel [fuel_mono]: "(\<And>i s. f i s \<le> f' i s) \<Longrightarrow> c_for i n f s \<le> c_for i n f' s"
proof (induction "n - i" arbitrary: i s)
  case 0
  then show ?case by simp
next
  case (Suc k)
  then have "i < n" and "\<And>s. c_for (Suc i) n f s \<le> c_for (Suc i) n f' s" by simp_all
  with Suc.prems show ?case by (simp add: c_for_step obind_fuel)
qed

lemma c_double_fuel [fuel_mono]: "(\<And>i s. f i s \<le> f' i s) \<Longrightarrow> c_double i n f s \<le> c_double i n f' s"
proof (induction "nat (n + 1 - i)" arbitrary: i s rule: less_induct)
  case less
  have "c_double (2 * i) n f x \<le> c_double (2 * i) n f' x" if "0 < i" and "i \<le> n" for x
    using less that by simp
  with less.prems show ?case
    by (subst (1 2) c_double.simps) (simp add: obind_fuel)
qed

section \<open>Set-up and await loops of \<^verbatim>\<open>smi.c\<close>\<close>

text \<open>
  Each proof follows the text of the definition: where the fuel does not occur both sides are
  the same, where a combinator occurs its lemma applies.
\<close>

lemma init_smi_clk_fuel [fuel_mono]:
  "fuel \<le> fuel' \<Longrightarrow>
   init_smi_clk m fuel regs ns w \<le> init_smi_clk m fuel' regs ns w"
  unfolding init_smi_clk_def by (assumption | rule order_refl fuel_mono)+

lemma smi_read_await_fuel [fuel_mono]:
  "fuel \<le> fuel' \<Longrightarrow>
   smi_read_await m fuel cxt buf len w \<le> smi_read_await m fuel' cxt buf len w"
  unfolding smi_read_await_def by (assumption | rule order_refl fuel_mono)+

lemma write_await_body_fuel [fuel_mono]:
  "fuel \<le> fuel' \<Longrightarrow>
   write_await_body m fuel cs d data deadline len s \<le> write_await_body m fuel' cs d data deadline len s"
  unfolding write_await_body_def by (assumption | rule order_refl fuel_mono)+

lemma smi_write_await_fuel [fuel_mono]:
  "fuel \<le> fuel' \<Longrightarrow>
   smi_write_await m fuel cxt data len w \<le> smi_write_await m fuel' cxt data len w"
  unfolding smi_write_await_def by (assumption | rule order_refl fuel_mono)+

lemma read_direct_body_fuel [fuel_mono]:
  "fuel \<le> fuel' \<Longrightarrow>
   read_direct_body m fuel regs deadline len inc s \<le> read_direct_body m fuel' regs deadline len inc s"
  unfolding read_direct_body_def by (assumption | rule order_refl fuel_mono)+

lemma smi_read_await_direct_fuel [fuel_mono]:
  "fuel \<le> fuel' \<Longrightarrow>
   smi_read_await_direct m fuel cxt buf a len inc w \<le> smi_read_await_direct m fuel' cxt buf a len inc w"
  unfolding smi_read_await_direct_def by (assumption | rule order_refl fuel_mono)+

lemma write_direct_body_fuel [fuel_mono]:
  "fuel \<le> fuel' \<Longrightarrow>
   write_direct_body m fuel regs data deadline len inc s \<le> write_direct_body m fuel' regs data deadline len inc s"
  unfolding write_direct_body_def by (assumption | rule order_refl fuel_mono)+

lemma smi_write_await_direct_fuel [fuel_mono]:
  "fuel \<le> fuel' \<Longrightarrow>
   smi_write_await_direct m fuel cxt data a len inc w \<le> smi_write_await_direct m fuel' cxt data a len inc w"
  unfolding smi_write_await_direct_def by (assumption | rule order_refl fuel_mono)+

lemma smi_dma_await_fuel [fuel_mono]:
  "fuel \<le> fuel' \<Longrightarrow>
   smi_dma_await m fuel cxt w \<le> smi_dma_await m fuel' cxt w"
  unfolding smi_dma_await_def by (assumption | rule order_refl fuel_mono)+

section \<open>Transfers\<close>

lemma smi_direct_read_fuel [fuel_mono]:
  "fuel \<le> fuel' \<Longrightarrow>
   smi_direct_read m fuel cxt buf a w \<le> smi_direct_read m fuel' cxt buf a w"
  unfolding smi_direct_read_def by (assumption | rule order_refl fuel_mono)+

lemma smi_direct_read_arr_fuel [fuel_mono]:
  "fuel \<le> fuel' \<Longrightarrow>
   smi_direct_read_arr m fuel cxt buf a len inc w \<le> smi_direct_read_arr m fuel' cxt buf a len inc w"
  unfolding smi_direct_read_arr_def by (assumption | rule order_refl fuel_mono)+

lemma smi_direct_write_arr_fuel [fuel_mono]:
  "fuel \<le> fuel' \<Longrightarrow>
   smi_direct_write_arr m fuel cxt data a len inc w \<le> smi_direct_write_arr m fuel' cxt data a len inc w"
  unfolding smi_direct_write_arr_def by (assumption | rule order_refl fuel_mono)+

lemma smi_direct_write_fuel [fuel_mono]:
  "fuel \<le> fuel' \<Longrightarrow>
   smi_direct_write m fuel cxt x a w \<le> smi_direct_write m fuel' cxt x a w"
  unfolding smi_direct_write_def by (assumption | rule order_refl fuel_mono)+

lemma smi_programmed_read_arr_fuel [fuel_mono]:
  "fuel \<le> fuel' \<Longrightarrow>
   smi_programmed_read_arr m fuel cxt ret a len w \<le> smi_programmed_read_arr m fuel' cxt ret a len w"
  unfolding smi_programmed_read_arr_def by (assumption | rule order_refl fuel_mono)+

lemma smi_programmed_read_fuel [fuel_mono]:
  "fuel \<le> fuel' \<Longrightarrow>
   smi_programmed_read m fuel cxt ret a w \<le> smi_programmed_read m fuel' cxt ret a w"
  unfolding smi_programmed_read_def by (assumption | rule order_refl fuel_mono)+

lemma smi_programmed_write_arr_fuel [fuel_mono]:
  "fuel \<le> fuel' \<Longrightarrow>
   smi_programmed_write_arr m fuel cxt data a len w \<le> smi_programmed_write_arr m fuel' cxt data a len w"
  unfolding smi_programmed_write_arr_def by (assumption | rule order_refl fuel_mono)+

lemma smi_programmed_write_fuel [fuel_mono]:
  "fuel \<le> fuel' \<Longrightarrow>
   smi_programmed_write m fuel cxt x a w \<le> smi_programmed_write m fuel' cxt x a w"
  unfolding smi_programmed_write_def by (assumption | rule order_refl fuel_mono)+

lemma smi_programmed_write_dma_fuel [fuel_mono]:
  "fuel \<le> fuel' \<Longrightarrow>
   smi_programmed_write_dma m fuel cxt cb a len ch w \<le> smi_programmed_write_dma m fuel' cxt cb a len ch w"
  unfolding smi_programmed_write_dma_def by (assumption | rule order_refl fuel_mono)+

lemma smi_programmed_read_dma_fuel [fuel_mono]:
  "fuel \<le> fuel' \<Longrightarrow>
   smi_programmed_read_dma m fuel cxt cb a len ch w \<le> smi_programmed_read_dma m fuel' cxt cb a len ch w"
  unfolding smi_programmed_read_dma_def by (assumption | rule order_refl fuel_mono)+

section \<open>The demonstration and the benchmarks\<close>

lemma sram_helloworld_fuel [fuel_mono]:
  "fuel \<le> fuel' \<Longrightarrow>
   sram_helloworld m fuel ret cxt w \<le> sram_helloworld m fuel' ret cxt w"
  unfolding sram_helloworld_def by (assumption | rule order_refl fuel_mono)+

lemma testbench_write_fuel [fuel_mono]:
  "fuel \<le> fuel' \<Longrightarrow>
   testbench_write m fuel cxt n w \<le> testbench_write m fuel' cxt n w"
  unfolding testbench_write_def by (assumption | rule order_refl fuel_mono)+

lemma bench_reads_fuel [fuel_mono]:
  "fuel \<le> fuel' \<Longrightarrow>
   bench_reads m fuel block_len i s \<le> bench_reads m fuel' block_len i s"
  unfolding bench_reads_def by (assumption | rule order_refl fuel_mono)+

lemma testbench_read_fuel [fuel_mono]:
  "fuel \<le> fuel' \<Longrightarrow>
   testbench_read m fuel ret cxt n block_len w \<le> testbench_read m fuel' ret cxt n block_len w"
  unfolding testbench_read_def by (assumption | rule order_refl fuel_mono)+

lemma timed_reads_fuel [fuel_mono]:
  "fuel \<le> fuel' \<Longrightarrow>
   timed_reads m fuel junk block s \<le> timed_reads m fuel' junk block s"
  unfolding timed_reads_def by (assumption | rule order_refl fuel_mono)+

lemma block_round_fuel [fuel_mono]:
  "fuel \<le> fuel' \<Longrightarrow>
   block_round m fuel junk block s \<le> block_round m fuel' junk block s"
  unfolding block_round_def by (assumption | rule order_refl fuel_mono)+

lemma megbyte_load_block_test_fuel [fuel_mono]:
  "fuel \<le> fuel' \<Longrightarrow>
   megbyte_load_block_test m fuel junk cxt w \<le> megbyte_load_block_test m fuel' junk cxt w"
  unfolding megbyte_load_block_test_def by (assumption | rule order_refl fuel_mono)+

lemma thread_round_fuel [fuel_mono]:
  "fuel \<le> fuel' \<Longrightarrow>
   thread_round m fuel junk threads s \<le> thread_round m fuel' junk threads s"
  unfolding thread_round_def by (assumption | rule order_refl fuel_mono)+

lemma megbyte_load_thread_test_fuel [fuel_mono]:
  "fuel \<le> fuel' \<Longrightarrow>
   megbyte_load_thread_test m fuel junk cxt w \<le> megbyte_load_thread_test m fuel' junk cxt w"
  unfolding megbyte_load_thread_test_def by (assumption | rule order_refl fuel_mono)+

section \<open>The waits of \<^verbatim>\<open>smilite.h\<close>\<close>

lemma lite_read_await_fuel [fuel_mono]:
  "fuel \<le> fuel' \<Longrightarrow>
   lite_read_await m fuel cxt buf len w \<le> lite_read_await m fuel' cxt buf len w"
  unfolding lite_read_await_def by (assumption | rule order_refl fuel_mono)+

lemma lite_read_direct_body_fuel [fuel_mono]:
  "fuel \<le> fuel' \<Longrightarrow>
   lite_read_direct_body m fuel regs deadline len inc s \<le> lite_read_direct_body m fuel' regs deadline len inc s"
  unfolding lite_read_direct_body_def by (assumption | rule order_refl fuel_mono)+

lemma lite_read_await_direct_fuel [fuel_mono]:
  "fuel \<le> fuel' \<Longrightarrow>
   lite_read_await_direct m fuel cxt buf a len inc w \<le> lite_read_await_direct m fuel' cxt buf a len inc w"
  unfolding lite_read_await_direct_def by (assumption | rule order_refl fuel_mono)+

lemma lite_write_body_fuel [fuel_mono]:
  "fuel \<le> fuel' \<Longrightarrow>
   lite_write_body m fuel cs d data deadline len s \<le> lite_write_body m fuel' cs d data deadline len s"
  unfolding lite_write_body_def by (assumption | rule order_refl fuel_mono)+

lemma lite_write_await_fuel [fuel_mono]:
  "fuel \<le> fuel' \<Longrightarrow>
   lite_write_await m fuel cxt data len w \<le> lite_write_await m fuel' cxt data len w"
  unfolding lite_write_await_def by (assumption | rule order_refl fuel_mono)+

lemma lite_write_direct_body_fuel [fuel_mono]:
  "fuel \<le> fuel' \<Longrightarrow>
   lite_write_direct_body m fuel regs data deadline len inc s \<le> lite_write_direct_body m fuel' regs data deadline len inc s"
  unfolding lite_write_direct_body_def by (assumption | rule order_refl fuel_mono)+

lemma lite_write_await_direct_fuel [fuel_mono]:
  "fuel \<le> fuel' \<Longrightarrow>
   lite_write_await_direct m fuel cxt data a len inc w \<le> lite_write_await_direct m fuel' cxt data a len inc w"
  unfolding lite_write_await_direct_def by (assumption | rule order_refl fuel_mono)+

lemma lite_dma_await_fuel [fuel_mono]:
  "fuel \<le> fuel' \<Longrightarrow>
   lite_dma_await m fuel cxt w \<le> lite_dma_await m fuel' cxt w"
  unfolding lite_dma_await_def by (assumption | rule order_refl fuel_mono)+

lemma test_poll_fuel [fuel_mono]:
  "fuel \<le> fuel' \<Longrightarrow> test_poll m fuel w \<le> test_poll m fuel' w"
  unfolding test_poll_def by (assumption | rule order_refl fuel_mono)+

end
