(* ===== verification/Smi_Lifecycle.thy ===== *)
theory Smi_Lifecycle
  imports Smi_Fuel Smi_Dma_Transfer
begin

text \<open>
  The life of a context. A context comes from \<^verbatim>\<open>smi_init_cxt_map\<close> and
  \<^verbatim>\<open>smi_init_rw_config\<close> (\<open>opened\<close>); \<open>cxt_step\<close> has a rule for every way the library and its
  clients change one afterwards, and \<open>cxt_run\<close> is a run of such steps. The invariant,
  by rule induction, is that the context stays well formed and keeps its register maps; it is what
  the transfers need, so in a reachable context no transfer is undefined on buffers that are large
  enough.

  Three rules have a side condition: the configuration handed to \<^verbatim>\<open>smi_init_rw_config\<close>
  has four entries of each kind, the raw buffer is resized to less than \<open>2 ^ 62\<close> words, and
  a programmed read asks for fewer than \<open>2 ^ 30\<close> values.
\<close>

section \<open>Steps\<close>

text \<open>Assignments to members that are no pointers, as the clients make them.\<close>

definition same_pointers :: "SMI_CXT \<Rightarrow> SMI_CXT \<Rightarrow> bool" where
  "same_pointers cxt cxt' \<longleftrightarrow>
     raw_buffer cxt' = raw_buffer cxt \<and> rw_config cxt' = rw_config cxt \<and>
     smi_regs cxt' = smi_regs cxt \<and> clk_regs cxt' = clk_regs cxt \<and> gpio_regs cxt' = gpio_regs cxt \<and>
     dma_regs cxt' = dma_regs cxt \<and> dma_buffer cxt' = dma_buffer cxt"

inductive cxt_step :: "'h machine \<Rightarrow> SMI_CXT \<Rightarrow> SMI_CXT \<Rightarrow> bool" for m :: "'h machine" where
  Members: "same_pointers cxt cxt' \<Longrightarrow> cxt_step m cxt cxt'"
| Settings: "set_config0 f g cxt = Returns cxt' \<Longrightarrow> cxt_step m cxt cxt'"
| Device_nums: "rw_config cxt = Some rw \<Longrightarrow>
    cxt_step m cxt (cxt\<lparr>rw_config := Some (rw\<lparr>read_device_num := rd, write_device_num := wd\<rparr>)\<rparr>)"
| Configure: "smi_init_rw_config cxt rw ck rc wc rd wd = Returns cxt' \<Longrightarrow> wf_rw rw \<Longrightarrow> cxt_step m cxt cxt'"
| Resize: "smi_resize_raw_buffer m cxt len w = (r, cxt', w') \<Longrightarrow> unat len < 2 ^ 62 \<Longrightarrow> cxt_step m cxt cxt'"
| Udmabuf: "smi_init_udmabuf m cxt buff mem w = Returns (r, cxt', buff', mem', w') \<Longrightarrow> cxt_step m cxt cxt'"
| Programmed_read: "smi_programmed_read_arr m fuel cxt ret a len w = Returns (r, cxt', ret', w') \<Longrightarrow>
    0 \<le> len \<Longrightarrow> len < 2 ^ 30 \<Longrightarrow> cxt_step m cxt cxt'"

text \<open>The start: both functions succeeded. The maps are those of SMI, clock, GPIO and DMA.\<close>

type_synonym maps = "MEM_MAP \<times> MEM_MAP \<times> MEM_MAP \<times> MEM_MAP"

definition opened :: "'h machine \<Rightarrow> maps \<Rightarrow> SMI_CXT \<Rightarrow> bool" where
  "opened m = (\<lambda>(smi, ck, gpio, dm) cxt.
     \<exists>cxt0 smi0 ck0 gpio0 dm0 w0 cxt1 w1 rw clkp rc wc rd wd. 
       smi_init_cxt_map m cxt0 smi0 ck0 gpio0 dm0 w0 = (Some (SMI_OK, cxt1, smi, ck, gpio, dm), w1) \<and>
       wf_rw rw \<and> smi_init_rw_config cxt1 rw clkp rc wc rd wd = Returns cxt)"

lemma openedI:
  assumes "smi_init_cxt_map m cxt0 smi0 ck0 gpio0 dm0 w0 = (Some (SMI_OK, cxt1, smi, ck, gpio, dm), w1)"
    and "wf_rw rw" and "smi_init_rw_config cxt1 rw clkp rc wc rd wd = Returns cxt"
  shows "opened m (smi, ck, gpio, dm) cxt"
  by (simp only: opened_def prod.case, intro exI conjI, rule assms(1), rule assms(2), rule assms(3))

inductive cxt_run :: "'h machine \<Rightarrow> maps \<Rightarrow> SMI_CXT \<Rightarrow> bool" for m :: "'h machine" and mp :: maps where
  Opened: "opened m mp cxt \<Longrightarrow> cxt_run m mp cxt"
| Step: "cxt_run m mp cxt \<Longrightarrow> cxt_step m cxt cxt' \<Longrightarrow> cxt_run m mp cxt'"

text \<open>The invariant.\<close>

definition ready :: "maps \<Rightarrow> SMI_CXT \<Rightarrow> bool" where
  "ready = (\<lambda>(smi, ck, gpio, dm) cxt. wf_cxt cxt \<and> 0 < rb_size (raw_buffer cxt) \<and>
     smi_regs cxt = Some smi \<and> clk_regs cxt = Some ck \<and> gpio_regs cxt = Some gpio \<and> dma_regs cxt = Some dm)"

section \<open>What each operation does to the context\<close>

lemma init_rw_config_ready:
  assumes "smi_init_rw_config cxt rw ck rc wc rd wd = Returns cxt'" and "wf_rw rw"
  shows "\<exists>rw'. cxt' = cxt\<lparr>rw_config := Some rw'\<rparr> \<and> wf_rw rw'"
  using assms by (auto simp: smi_init_rw_config_def wf_rw_def Let_def split: if_splits)

lemma set_config0_ready:
  assumes "set_config0 f g cxt = Returns cxt'" and "rw_config cxt = Some rw" and "wf_rw rw"
  shows "\<exists>rw'. cxt' = cxt\<lparr>rw_config := Some rw'\<rparr> \<and> wf_rw rw'"
  using assms set_config0_result [OF assms(2,3), of f g] by (auto simp: wf_rw_def)

lemma resize_ready:
  assumes "alloc_law m" and "smi_resize_raw_buffer m cxt len w = (r, cxt', w')" and "unat len < 2 ^ 62"
  shows "cxt' = cxt \<or> (\<exists>rb. cxt' = cxt\<lparr>raw_buffer := rb\<rparr> \<and> wf_raw rb \<and> 0 < rb_size rb)"
proof -
  obtain nb v where re: "realloc32 m (len * 4) (old_words (raw_buffer cxt)) w = (nb, v)" by fastforce
  have "unat (len * 4) = unat len * 4"
    using assms(3) unat_mult_lem [of len 4] by simp
  then have "unat (len * 4) div 4 = unat len" by simp
  then have "length xs = unat len" if "nb = Some xs" for xs
    using alloc_lawD(1) [OF assms(1)] re that by simp
  moreover have "cxt' = cxt \<or> len \<noteq> 0 \<and> (\<exists>xs. nb = Some xs \<and>
      cxt' = cxt\<lparr>raw_buffer := \<lparr>rb_buf = Some xs, rb_size = len\<rparr>\<rparr>)"
  proof (cases "len = 0")
    case True
    then show ?thesis using assms(2) by (simp add: smi_resize_raw_buffer_def)
  next
    case False
    then show ?thesis using assms(2) by (cases nb) (simp_all add: smi_resize_raw_buffer_def re)
  qed
  moreover have "0 < len" if "len \<noteq> 0" using that by (simp add: word_gt_0)
  ultimately show ?thesis by (auto simp: wf_raw_def)
qed

text \<open>\<^verbatim>\<open>smi_read_await\<close> never changes the length of its buffer, on any machine and with any fuel.\<close>

lemma store_length: "store buf d xs = Returns buf' \<Longrightarrow> length buf' = length buf"
  by (auto simp: store_def split: if_splits)

lemma read_await_body_length:
  "(\<exists>cnt' spin' buf' w'. read_await_body m cs d deadline len (cnt, spin, buf, w) =
      Again (cnt', spin', buf', w') \<and> length buf' = length buf) \<or>
    read_await_body m cs d deadline len (cnt, spin, buf, w) = Leave Undefined \<or>
    (\<exists>r w'. read_await_body m cs d deadline len (cnt, spin, buf, w) = Leave (Returns (r, buf, w')))"
proof -
  obtain v w1 where rxd: "fget m cs CS_rxd w = (v, w1)" by fastforce
  obtain x w2 where x: "ld32 m d w1 = (x, w2)" by fastforce
  obtain e w3 where e: "spin_wait m deadline spin w1 = (e, w3)" by fastforce
  show ?thesis
  proof (cases "int cnt < len")
    case False
    then show ?thesis by (simp add: read_await_body_def rxd split_beta Let_def)
  next
    case True
    show ?thesis
    proof (cases "v = 0")
      case zero: True
      show ?thesis
        by (cases e) (simp_all add: read_await_body_def True rxd zero e Let_def del: One_nat_def)
    next
      case False
      then show ?thesis
        by (simp add: read_await_body_def True rxd x Let_def store_def del: One_nat_def)
    qed
  qed
qed

lemma read_await_length:
  assumes "smi_read_await m fuel cxt (Some buf) len w = Returns (r, raw, w')"
  shows "\<exists>buf'. raw = Some buf' \<and> length buf' = length buf"
proof -
  have "\<forall>r b w. loop fuel (read_await_body m cs d deadline len) (0, 0, buf, v) = Returns (r, b, w) \<longrightarrow>
      length b = length buf" for cs d deadline v
  proof (rule loop_partial [where I = "\<lambda>(cnt, spin, b, w). length b = length buf"])
    fix s :: "'a read_state"
    assume inv: "case s of (cnt, spin, b, w) \<Rightarrow> length b = length buf"
    obtain cnt spin b w where s: "s = (cnt, spin, b, w)" by (metis prod_cases4)
    note body = inv read_await_body_length [of m cs d deadline len cnt spin b w]
    show "case s' of (cnt, spin, b, w) \<Rightarrow> length b = length buf"
      if "read_await_body m cs d deadline len s = Again s'" for s'
      using body that by (auto simp: s)
    show "\<forall>r' b w. r = Returns (r', b, w) \<longrightarrow> length b = length buf"
      if "read_await_body m cs d deadline len s = Leave r" for r
      using body that by (auto simp: s)
  qed simp_all
  then show ?thesis
    using assms by (fastforce simp: smi_read_await_def split_beta Let_def)
qed

text \<open>Whatever the ratio, a word count that comes out at all lies between 0 and twice the length.\<close>

lemma if_in: "x \<in> S \<Longrightarrow> y \<in> S \<Longrightarrow> (if b then x else y) \<in> S"
  by simp

lemma packed_ratios:
  assumes "smi_packed_ratio cxt = Returns ratio"
  shows "(uint (ratio_read ratio), uint (ratio_out_pixels ratio)) \<in> {(1, 1), (1, 2), (1, 3), (1, 4), (2, 3)}"
proof -
  obtain rc wc where "config0 cxt = Returns (rc, wc)"
    using assms by (auto simp: smi_packed_ratio_def)
  with assms have "ratio \<in> {mk_ratio 1 1, mk_ratio 1 2, mk_ratio 1 3, mk_ratio 1 4, mk_ratio 2 3}"
    unfolding smi_packed_ratio_def
    by (simp only: obind.simps prod.case Let_def outcome.inject) (hypsubst, intro if_in; simp)
  then show ?thesis by (auto simp: mk_ratio_def)
qed

lemma packed_ratio_bounds:
  assumes "smi_packed_ratio cxt = Returns ratio" and "0 \<le> len" and "word_reads_of ratio len = Returns k"
  shows "0 \<le> k \<and> k \<le> 2 * len"
proof -
  define a b where "a = uint (ratio_read ratio)" and "b = uint (ratio_out_pixels ratio)"
  have ab: "(a, b) \<in> {(1, 1), (1, 2), (1, 3), (1, 4), (2, 3)}"
    unfolding a_def b_def by (rule packed_ratios [OF assms(1)])
  from assms(3) have "k = (len * a + b - 1) sdiv b"
    by (auto simp: word_reads_of_def SMI_DIV_CEIL_def c_int_eq_Returns a_def b_def)
  also have "\<dots> = (len * a + b - 1) div b" using ab assms(2) by (intro sdiv_pos) auto
  finally show ?thesis using ab assms(2) by auto
qed

lemma packed_ratio_fits:
  assumes "smi_packed_ratio cxt = Returns ratio" and "0 \<le> len" and "len < 2 ^ 29"
  shows "\<exists>k. word_reads_of ratio len = Returns k"
  using packed_ratios [OF assms(1)] assms(2,3)
  by (auto simp: word_reads_of_def SMI_DIV_CEIL_pos c_int_fits)

lemma grow_ready:
  assumes "alloc_law m" and "wf_raw (raw_buffer cxt)" and "0 < rb_size (raw_buffer cxt)"
    and "0 \<le> k" and "k < 2 ^ 62" and "grow_raw_buffer m cxt k w = (Some cxt', w')"
  shows "\<exists>rb. cxt' = cxt\<lparr>raw_buffer := rb\<rparr> \<and> wf_raw rb \<and> 0 < rb_size rb \<and> rb_buf rb = Some (old_words rb)"
proof -
  obtain rb where rb: "cxt' = cxt\<lparr>raw_buffer := rb\<rparr>" "wf_raw rb" "rb_buf rb = Some (old_words rb)"
    using grow_raw_buffer_result [OF assms(1,2,4,5), of w] assms(6) by auto
  moreover have "0 < rb_size (raw_buffer cxt')"
    using assms(3,6) by (auto simp: grow_raw_buffer_def split_beta Let_def word_neq_0_conv split: if_splits)
  ultimately show ?thesis by auto
qed

lemma programmed_read_ready:
  assumes "alloc_law m" and "wf_cxt cxt" and "0 < rb_size (raw_buffer cxt)"
    and run: "smi_programmed_read_arr m fuel cxt ret a len w = Returns (r, cxt', ret', w')"
    and "0 \<le> len" and "len < 2 ^ 30"
  shows "cxt' = cxt \<or> (\<exists>rb. cxt' = cxt\<lparr>raw_buffer := rb\<rparr> \<and> wf_raw rb \<and> 0 < rb_size rb)"
proof -
  obtain regs ratio where regs: "smi_regs cxt = Some regs" "smi_packed_ratio cxt = Returns ratio"
  proof -
    obtain rw where "rw_config cxt = Some rw" "wf_rw rw" using assms(2) by (auto simp: wf_cxt_def)
    then have "\<exists>ratio. smi_packed_ratio cxt = Returns ratio"
      by (simp add: smi_packed_ratio_def config0_wf Let_def)
    moreover have "\<exists>regs. smi_regs cxt = Some regs"
      using run by (cases "smi_regs cxt") (simp_all add: smi_programmed_read_arr_def)
    ultimately show ?thesis using that by blast
  qed
  have "\<exists>k. word_reads_of ratio len = Returns k"
    using run regs by (cases "word_reads_of ratio len") (simp_all add: smi_programmed_read_arr_def Let_def)
  then obtain k where words: "word_reads_of ratio len = Returns k" ..
  have k: "0 \<le> k" "k < 2 ^ 62" using packed_ratio_bounds [OF regs(2) assms(5) words] assms(6) by auto
  obtain c w1 where grow: "grow_raw_buffer m cxt k w = (c, w1)" by fastforce
  show ?thesis
  proof (cases c)
    case None
    then show ?thesis using run regs grow words by (simp add: smi_programmed_read_arr_def)
  next
    case (Some cxt1)
    obtain rb where rb: "cxt1 = cxt\<lparr>raw_buffer := rb\<rparr>" "wf_raw rb" "0 < rb_size rb" "rb_buf rb = Some (old_words rb)"
      using grow_ready [OF assms(1) _ assms(3) k grow [unfolded Some]] assms(2) by (auto simp: wf_cxt_def)
    obtain cnt raw v v' where "smi_read_await m fuel cxt1 (Some (old_words rb)) k v = Returns (cnt, raw, v')"
      and cxt': "cxt' = cxt1\<lparr>raw_buffer := rb\<lparr>rb_buf := raw\<rparr>\<rparr>"
      using run regs grow rb words by (auto simp: smi_programmed_read_arr_def Some Let_def split_beta)
    then obtain buf' where "raw = Some buf'" and "length buf' = length (old_words rb)"
      using read_await_length by blast
    then show ?thesis using rb cxt' by (auto simp: wf_raw_def)
  qed
qed

section \<open>The invariant\<close>

lemma opened_ready:
  assumes "alloc_law m" and "opened m mp cxt"
  shows "ready mp cxt"
proof -
  obtain smi ck gpio dm where mp: "mp = (smi, ck, gpio, dm)" by (metis prod_cases4)
  obtain cxt0 smi0 ck0 gpio0 dm0 w0 cxt1 w1 rw clkp rc wc rd wd where
    map: "smi_init_cxt_map m cxt0 smi0 ck0 gpio0 dm0 w0 = (Some (SMI_OK, cxt1, smi, ck, gpio, dm), w1)"
    and wf: "wf_rw rw" and cfg: "smi_init_rw_config cxt1 rw clkp rc wc rd wd = Returns cxt"
    using assms(2) by (auto simp: opened_def mp)
  obtain rw' where "cxt = cxt1\<lparr>rw_config := Some rw'\<rparr>" and "wf_rw rw'"
    using init_rw_config_ready [OF cfg wf] by blast
  then show ?thesis
    using init_cxt_map_maps [OF assms(1) map] by (auto simp: ready_def mp wf_cxt_def wf_raw_def)
qed

lemma cxt_step_ready:
  assumes "alloc_law m" and "ready mp cxt" and "cxt_step m cxt cxt'"
  shows "ready mp cxt'"
proof -
  obtain smi ck gpio dm where mp: "mp = (smi, ck, gpio, dm)" by (metis prod_cases4)
  obtain rw where rw: "rw_config cxt = Some rw" "wf_rw rw"
    using assms(2) by (auto simp: ready_def wf_cxt_def mp)
  have raw: "ready mp (cxt\<lparr>raw_buffer := rb\<rparr>)" if "wf_raw rb" "0 < rb_size rb" for rb
    using assms(2) that by (simp add: ready_def wf_cxt_def mp)
  have config: "ready mp (cxt\<lparr>rw_config := Some rw'\<rparr>)" if "wf_rw rw'" for rw'
    using assms(2) that by (simp add: ready_def wf_cxt_def mp)
  show ?thesis
    using assms(3)
  proof cases
    case Members
    then show ?thesis using assms(2) by (simp add: ready_def wf_cxt_def mp same_pointers_def)
  next
    case (Settings f g)
    then show ?thesis using set_config0_ready [OF Settings rw] config by blast
  next
    case (Device_nums rw' rd wd)
    then show ?thesis using config rw by (simp add: wf_rw_def)
  next
    case Configure
    then show ?thesis using init_rw_config_ready config by blast
  next
    case Resize
    then show ?thesis using resize_ready [OF assms(1)] raw assms(2) by blast
  next
    case Udmabuf
    then show ?thesis
      using assms(2) by (auto simp: smi_init_udmabuf_def Let_def split_beta ready_def wf_cxt_def mp split: if_splits)
  next
    case Programmed_read
    have "wf_cxt cxt" and "0 < rb_size (raw_buffer cxt)" using assms(2) by (simp_all add: ready_def mp)
    from programmed_read_ready [OF assms(1) this Programmed_read] show ?thesis
      using raw assms(2) by blast
  qed
qed

lemma cxt_run_ready:
  assumes "alloc_law m" and "cxt_run m mp cxt"
  shows "ready mp cxt"
  using assms(2) by induction (auto intro: opened_ready cxt_step_ready assms(1))

section \<open>Transfers are defined\<close>

text \<open>
  What returns with enough fuel is never undefined: more fuel only turns an unfinished run into a
  result (\<open>fuel_mono\<close>).
\<close>

lemma total_never_undefined:
  fixes f :: "nat \<Rightarrow> 'a outcome" and N :: nat
  assumes "\<And>F F'. F \<le> F' \<Longrightarrow> f F \<le> f F'" and "\<And>F. N < F \<Longrightarrow> \<exists>x. f F = Returns x"
  shows "f fuel \<noteq> Undefined"
proof -
  have "N < max fuel (Suc N)" by (simp add: less_max_iff_disj)
  then obtain x where "f (max fuel (Suc N)) = Returns x" using assms(2) by blast
  moreover have "f fuel \<le> f (max fuel (Suc N))" by (rule assms(1)) simp
  ultimately show ?thesis by (auto simp: less_eq_outcome_def)
qed

lemma ready_wf:
  assumes "ready mp cxt"
  obtains rw where "rw_config cxt = Some rw" and "wf_rw rw"
    and "config0 cxt = Returns (rconfig rw ! 0, wconfig rw ! 0)"
  using assms by (auto simp: ready_def wf_cxt_def split_beta config0_wf)

lemma write_poll_defined: "loop fuel (write_done_body m dcs deadline spin) w \<noteq> Undefined"
  by (rule loop_partial [where I = "\<lambda>_. True"])
    (auto simp: write_done_body_def Let_def split_beta split: if_splits)

lemma write_direct_defined:
  assumes "nat len \<le> length data"
  shows "loop k (write_direct_body m fuel regs data deadline len inc) s \<noteq> Undefined"
proof (rule loop_partial [where I = "\<lambda>_. True"])
  show "r \<noteq> Undefined" if "write_direct_body m fuel regs data deadline len inc s = Leave r" for s r
  proof -
    obtain cnt spin addr w where s: "s = (cnt, spin, addr, w)" by (metis prod_cases4)
    show ?thesis
    proof (cases "int cnt < len")
      case True
      let ?w = "fset m (REG32 regs SMIO_DCS) DCS_start 1 (st32 m (REG32 regs SMIO_DD) (data ! cnt) w)"
      have "cnt < length data" using True assms by simp
      then show ?thesis
        using that True write_poll_defined [of fuel m "REG32 regs SMIO_DCS" deadline spin ?w]
        by (cases "loop fuel (write_done_body m (REG32 regs SMIO_DCS) deadline spin) ?w")
          (auto simp: s write_direct_body_def fetch_def Let_def split_beta simp del: One_nat_def split: if_splits)
    next
      case False
      then show ?thesis using that by (auto simp: s write_direct_body_def)
    qed
  qed
qed simp_all

lemma direct_read_defined:
  assumes "clock_law m now" and "ready mp cxt" and "nat len \<le> length buf"
  shows "smi_direct_read_arr m fuel cxt (Some buf) a len inc w \<noteq> Undefined"
proof (rule total_never_undefined [where N = "nat len + 20512"])
  fix F assume F: "nat len + 20512 < F"
  obtain smi where smi: "smi_regs cxt = Some smi" using assms(2) by (auto simp: ready_def split_beta)
  from ready_wf [OF assms(2)] obtain c where "config0 cxt = Returns c" by metis
  moreover have "\<exists>x. smi_read_await_direct m F (Some cxt) (Some buf) a len inc v = Returns x" for v
    using smi_read_await_direct_total [OF assms(1) smi assms(3) F, of a inc v] by metis
  ultimately show "\<exists>x. smi_direct_read_arr m F cxt (Some buf) a len inc w = Returns x"
    by (simp add: smi_direct_read_arr_def smi Let_def split_beta del: One_nat_def)
qed (intro fuel_mono)

lemma direct_write_defined:
  assumes "ready mp cxt" and "unat len \<le> length data"
  shows "smi_direct_write_arr m fuel cxt (Some data) a len inc w \<noteq> Undefined"
proof -
  obtain smi where smi: "smi_regs cxt = Some smi" using assms(1) by (auto simp: ready_def split_beta)
  have "smi_write_await_direct m fuel (Some cxt) (Some data) a (uint len) inc v \<noteq> Undefined" for v inc
    using write_direct_defined [of "uint len" data] assms(2)
    by (simp add: smi_write_await_direct_def smi Let_def split_beta)
  then show ?thesis
    by (simp add: smi_direct_write_arr_def smi Let_def split_beta del: One_nat_def)
qed

lemma programmed_read_defined:
  assumes "clock_law m now" and "alloc_law m" and "ready mp cxt" and "pxldata cxt"
    and "format_of_cxt cxt = Some fmt" and "0 \<le> len" and "len < 2 ^ 30 - 1"
    and "fmt_bytes fmt * packed_groups fmt (nat len) \<le> length ret"
  shows "smi_programmed_read_arr m fuel cxt ret a len w \<noteq> Undefined"
proof (rule total_never_undefined [where N = "packed_words fmt (nat len) * 513 + 500512"])
  fix F assume F: "packed_words fmt (nat len) * 513 + 500512 < F"
  obtain smi where smi: "smi_regs cxt = Some smi" and "wf_cxt cxt"
    using assms(3) by (auto simp: ready_def split_beta)
  with programmed_read_packed [OF assms(1,2) smi _ assms(4-8) F]
  show "\<exists>x. smi_programmed_read_arr m F cxt ret a len w = Returns x" by metis
qed (intro fuel_mono)

lemma programmed_write_defined:
  assumes "clock_law m now" and "ready mp cxt" and "nat (len + 1) \<le> length data"
  shows "smi_programmed_write_arr m fuel cxt (Some data) a len w \<noteq> Undefined"
proof (rule total_never_undefined [where N = 500512])
  fix F :: nat assume F: "500512 < F"
  obtain smi where smi: "smi_regs cxt = Some smi" using assms(2) by (auto simp: ready_def split_beta)
  have "\<exists>x. smi_write_await m F (Some cxt) (Some data) len v = Returns x" for v
    using smi_write_await_total [OF assms(1) smi assms(3) F, of v] by metis
  then show "\<exists>x. smi_programmed_write_arr m F cxt (Some data) a len w = Returns x"
    by (simp add: smi_programmed_write_arr_def smi smi_start_def Let_def del: One_nat_def)
qed (intro fuel_mono)

lemma dma_defined:
  assumes "clock_law m now" and "ready mp cxt" and "dma_buffer cxt = Some buff"
    and "0 \<le> len" and "len < 2 ^ 29"
  shows "smi_programmed_read_dma m fuel (Some cxt) (Some (at, cb)) a len ch w \<noteq> Undefined"
    and "smi_programmed_write_dma m fuel (Some cxt) (Some (at, cb)) a len ch w \<noteq> Undefined"
proof -
  obtain smi dm where smi: "smi_regs cxt = Some smi" "dma_regs cxt = Some dm"
    using assms(2) by (auto simp: ready_def split_beta)
  have "smi_dma_await m fuel cxt v \<noteq> Undefined" for v
  proof (rule total_never_undefined [where N = 50000001])
    show "\<exists>x. smi_dma_await m F cxt v = Returns x" if "50000001 < F" for F
      using smi_dma_await_total [OF assms(1) smi(2) that] by metis
  qed (intro fuel_mono)
  moreover from ready_wf [OF assms(2)] obtain c where "config0 cxt = Returns c" by metis
  moreover from this obtain r where r: "smi_packed_ratio cxt = Returns r"
    by (simp add: smi_packed_ratio_def split_beta Let_def)
  moreover from packed_ratio_fits [OF r assms(4,5)] obtain k where "word_reads_of r len = Returns k" by blast
  ultimately show "smi_programmed_read_dma m fuel (Some cxt) (Some (at, cb)) a len ch w \<noteq> Undefined"
    and "smi_programmed_write_dma m fuel (Some cxt) (Some (at, cb)) a len ch w \<noteq> Undefined"
    using smi assms(3)
    by (auto simp: smi_programmed_read_dma_def smi_programmed_write_dma_def smi_start_def Let_def split_beta
        simp del: One_nat_def)
qed

section \<open>Clients\<close>

text \<open>The demonstration and the benchmarks change the context only by steps.\<close>

lemma c_for_partial:
  assumes "c_for i n f s = Returns s'" and "I s"
    and "\<And>i s s'. I s \<Longrightarrow> f i s = Returns s' \<Longrightarrow> I s'"
  shows "I s'"
  using assms(1,2)
proof (induction "n - i" arbitrary: i s)
  case 0
  then show ?case by simp
next
  case (Suc k)
  then have "i < n" by simp
  with Suc.prems obtain s1 where "f i s = Returns s1" and "c_for (Suc i) n f s1 = Returns s'"
    by (auto simp: c_for_step)
  moreover from this have "I s1" using Suc.prems(2) assms(3) by blast
  moreover have "k = n - Suc i" using Suc.hyps(2) by simp
  ultimately show ?case using Suc.hyps(1) [of "Suc i" s1] by simp
qed

lemma c_double_partial:
  assumes "c_double i n f s = Returns s'" and "I s"
    and "\<And>i s s'. I s \<Longrightarrow> 0 < i \<Longrightarrow> i \<le> n \<Longrightarrow> f i s = Returns s' \<Longrightarrow> I s'"
  shows "I s'"
  using assms(1,2)
proof (induction "nat (n + 1 - i)" arbitrary: i s rule: less_induct)
  case less
  show ?case
  proof (cases "0 < i \<and> i \<le> n")
    case True
    from less.prems(1) True obtain s1 where s1: "f i s = Returns s1" and "c_double (2 * i) n f s1 = Returns s'"
      by (subst (asm) c_double.simps) auto
    then show ?thesis
      using less.hyps [of "2 * i" s1] less.prems(2) assms(3) [of s i s1] True by simp
  next
    case False
    then show ?thesis using less.prems by (subst (asm) c_double.simps) auto
  qed
qed

lemma sram_helloworld_steps:
  assumes "sram_helloworld m fuel ret cxt w = Returns (out, cxt', w')" and "cxt_run m mp cxt"
  shows "cxt_run m mp cxt'"
proof -
  obtain cxt1 where 1: "set_config0 (\<lambda>rc. rc\<lparr>rwidth := SMI_8_BITS\<rparr>)
      (\<lambda>wc. wc\<lparr>wformat := SMI_RGB565, wswap := False\<rparr>) cxt = Returns cxt1"
    and 2: "cxt' = cxt1\<lparr>pxldata := True, pad := False, intd := False, intr := False, intt := False\<rparr>"
    using assms(1) by (auto simp: sram_helloworld_def Let_def split_beta split: if_splits)
  have "same_pointers cxt1 cxt'" by (simp add: 2 same_pointers_def)
  with assms(2) 1 show ?thesis by (meson cxt_step.intros cxt_run.Step)
qed

lemma testbench_read_steps:
  assumes "testbench_read m fuel ret cxt n block w = Returns (t, cxt', w')" and "block < 2 ^ 30"
    and "cxt_run m mp cxt"
  shows "cxt_run m mp cxt'"
proof -
  obtain cxt1 s2 where 1: "set_config0 (\<lambda>rc. rc\<lparr>rwidth := SMI_8_BITS\<rparr>)
      (\<lambda>wc. wc\<lparr>wformat := SMI_RGB565, wswap := False\<rparr>) cxt = Returns cxt1"
    and 2: "c_for 0 (unat (n div word_of_int block)) (bench_reads m fuel block)
       (0, cxt1\<lparr>pxldata := True, pixel_value_mode := 0, pad := False, intd := False, intr := False, intt := False\<rparr>,
        ret, snd (clock_gettime m w)) = Returns s2"
    and cxt': "cxt' = fst (snd s2)" and pos: "0 < block"
    using assms(1) by (auto simp: testbench_read_def Let_def split_beta split: if_splits)
  let ?cxt = "cxt1\<lparr>pxldata := True, pixel_value_mode := 0, pad := False, intd := False, intr := False, intt := False\<rparr>"
  have "same_pointers cxt1 ?cxt" by (simp add: same_pointers_def)
  with assms(3) 1 have start: "cxt_run m mp ?cxt" by (meson cxt_step.intros cxt_run.Step)
  have step: "cxt_run m mp (fst (snd s'))"
    if "cxt_run m mp (fst (snd s))" and "bench_reads m fuel block i s = Returns s'" for i s s'
  proof -
    obtain c x r v where s: "s = (c, x, r, v)" by (metis prod_cases4)
    from that obtain k x' r' v' where read: "smi_programmed_read_arr m fuel x r 1 block v = Returns (k, x', r', v')"
      and s': "s' = (c + k, x', r', v')" by (auto simp: bench_reads_def s)
    have "0 \<le> block" using pos by simp
    from cxt_step.Programmed_read [OF read this assms(2)] that(1) show ?thesis
      by (simp add: s s' cxt_run.Step)
  qed
  show ?thesis
    unfolding cxt'
    by (rule c_for_partial [OF 2, where I = "\<lambda>s. cxt_run m mp (fst (snd s))"])
      (simp add: start, rule step)
qed

lemma timed_reads_steps:
  assumes "timed_reads m fuel junk block s = Returns s'"
    and "block < 2 ^ 30" and "cxt_run m mp (fst (snd (snd s)))"
  shows "cxt_run m mp (fst (snd (snd s')))"
proof -
  note steps = testbench_read_steps [OF _ assms(2)]
  obtain t0 ts cxt w where s: "s = (t0, ts, cxt, w)" by (metis prod_cases4)
  obtain t1 cxt1 w1 where 1: "testbench_read m fuel (junk (nat block)) cxt ITERATIONS block w = Returns (t1, cxt1, w1)"
    and 2: "c_for 0 TEST_ITERATIONS (\<lambda>i (total, times, cxt, w).
         obind (testbench_read m fuel (junk (nat block)) cxt ITERATIONS block w) (\<lambda>(t, cxt, w).
         Returns (total + t, times @ [t], cxt, w))) (t0, ts, cxt1, w1) = Returns s'"
    using assms(1) by (auto simp: timed_reads_def s)
  show ?thesis
    by (rule c_for_partial [OF 2, where I = "\<lambda>s. cxt_run m mp (fst (snd (snd s)))"])
      (use steps [OF 1] assms(3) in \<open>simp add: s\<close>, force dest: steps)
qed

lemma benchmark_steps:
  assumes "cxt_run m mp cxt"
  shows "megbyte_load_block_test m fuel junk cxt w = Returns (rows, cxt', w') \<Longrightarrow> cxt_run m mp cxt'"
    and "megbyte_load_thread_test m fuel junk cxt w = Returns (rows, cxt', w') \<Longrightarrow> cxt_run m mp cxt'"
proof -
  assume run: "megbyte_load_block_test m fuel junk cxt w = Returns (rows, cxt', w')"
  show "cxt_run m mp cxt'"
  proof (cases "fst (sys m (Fopen ''read.csv'') w) = 0")
    case True
    then show ?thesis using run assms by (auto simp: megbyte_load_block_test_def split_beta Let_def)
  next
    case False
    obtain s where 1: "c_double 8 1048576 (block_round m fuel junk) ([], cxt, snd (sys m (Fopen ''read.csv'') w)) = Returns s"
      and cxt': "cxt' = fst (snd s)"
      using run False by (auto simp: megbyte_load_block_test_def split_beta Let_def)
    have "cxt_run m mp (fst (snd s'))"
      if "cxt_run m mp (fst (snd s))" and "i \<le> 1048576" and "block_round m fuel junk i s = Returns s'"
      for i s and s' :: "(int \<times> int \<times> int list) list \<times> SMI_CXT \<times> 'a world"
      using that by (fastforce simp: block_round_def split_beta dest: timed_reads_steps)
    then show ?thesis
      unfolding cxt'
      by (intro c_double_partial [OF 1, where I = "\<lambda>s. cxt_run m mp (fst (snd s))"]) (simp_all add: assms)
  qed
next
  assume run: "megbyte_load_thread_test m fuel junk cxt w = Returns (rows, cxt', w')"
  obtain s where 1: "c_double 1 256 (thread_round m fuel junk) (0, [], cxt, w) = Returns s"
    and cxt': "cxt' = fst (snd (snd s))"
    using run by (auto simp: megbyte_load_thread_test_def)
  have "cxt_run m mp (fst (snd (snd s')))"
    if "cxt_run m mp (fst (snd (snd s)))" and "thread_round m fuel junk i s = Returns s'"
    for i s and s' :: "int \<times> (int \<times> int \<times> int list) list \<times> SMI_CXT \<times> 'a world"
    using that by (fastforce simp: thread_round_def split_beta dest: timed_reads_steps)
  then show "cxt_run m mp cxt'"
    unfolding cxt'
    by (intro c_double_partial [OF 1, where I = "\<lambda>s. cxt_run m mp (fst (snd (snd s)))"]) (simp_all add: assms)
qed

section \<open>An opened context\<close>

lemma replicate_update_same: "(replicate 4 x)[0 := x] = replicate 4 x"
  by (simp add: eval_nat_numeral)

lemma opened_example:
  "\<exists>mp cxt. opened (ram_machine (\<lambda>_. 7)) mp cxt \<and> pxldata cxt \<and> format_of_cxt cxt = Some fmt_rgb565_8"
proof -
  let ?m = "ram_machine (\<lambda>_. 7)" and ?w = "ram_world (\<lambda>_. 0)" and ?mp = "sample_map 0"
    and ?cxt = "sample_cxt 0 SMI_RGB565 False True"
  obtain cxt1 smi ck gpio dm w1 where
    1: "smi_init_cxt_map ?m ?cxt ?mp ?mp ?mp ?mp ?w = (Some (SMI_OK, cxt1, smi, ck, gpio, dm), w1)"
    and px: "pxldata cxt1"
    by (simp add: smi_init_cxt_map_def map_segment_def sys_def ram_machine_def realloc32_def
        unless_exit_def Let_def split_beta)
  let ?rw = "sample_rw 0 SMI_RGB565 False"
  obtain cxt where 2: "smi_init_rw_config cxt1 ?rw None (sample_read 0) (sample_write SMI_RGB565 False) 0 0 = Returns cxt"
    and "rw_config cxt = Some (?rw\<lparr>read_device_num := 0, write_device_num := 0\<rparr>)" and "pxldata cxt"
    using px by (simp add: smi_init_rw_config_def sample_rw_def replicate_update_same)
  moreover from this have "format_of_cxt cxt = Some fmt_rgb565_8"
    by (simp add: format_of_cxt_def config0_def fetch_def sample_read_def sample_write_def unpack_format_of_def)
  moreover have "opened ?m (smi, ck, gpio, dm) cxt"
    using openedI [OF 1 _ 2] by simp
  ultimately show ?thesis by blast
qed

section \<open>Properties\<close>

text \<open>
  C12: In every context the library and its clients can bring about after a successful
  \<^verbatim>\<open>smi_init_cxt_map\<close> and \<^verbatim>\<open>smi_init_rw_config\<close>, by assignments to members, by
  configuring, resizing (to a length whose bytes fit \<^verbatim>\<open>size_t\<close>), setting up the DMA buffer and
  programmed reads (of less than \<open>2 ^ 30\<close>), in any order and number, the
  four register maps are the ones mapped at the start, there are four configurations of each
  kind, and the raw buffer exists and has exactly its recorded, positive, size.
\<close>
theorem reachable_context_well_formed:
  assumes "alloc_law m" and "cxt_run m (smi, ck, gpio, dm) cxt"
  shows "wf_cxt cxt \<and> 0 < rb_size (raw_buffer cxt) \<and>
    smi_regs cxt = Some smi \<and> clk_regs cxt = Some ck \<and> gpio_regs cxt = Some gpio \<and> dma_regs cxt = Some dm"
  using cxt_run_ready [OF assms] by (simp add: ready_def)

theorem reachable_context_well_formed_witness:
  "\<exists>mp cxt r cxt' w'. cxt_run (ram_machine (\<lambda>_. 7)) mp cxt \<and>
     smi_resize_raw_buffer (ram_machine (\<lambda>_. 7)) cxt 5000 (ram_world (\<lambda>_. 0)) = (r, cxt', w') \<and> wf_cxt cxt'"
proof -
  let ?m = "ram_machine (\<lambda>_. 7)"
  obtain smi ck gpio dm cxt where run: "cxt_run ?m (smi, ck, gpio, dm) cxt"
    using opened_example by (metis prod_cases4 cxt_run.Opened)
  obtain r cxt' w' where res: "smi_resize_raw_buffer ?m cxt 5000 (ram_world (\<lambda>_. 0)) = (r, cxt', w')"
    by (metis prod_cases3)
  have "cxt_step ?m cxt cxt'" by (rule cxt_step.Resize [OF res]) simp
  with run have "cxt_run ?m (smi, ck, gpio, dm) cxt'" by (rule cxt_run.Step)
  from reachable_context_well_formed [OF ram_alloc_law this] run res show ?thesis by blast
qed

text \<open>
  C4: In every such context no transfer accesses memory outside its buffers or through a null pointer,
  uses the value of a call that returned none, or overflows the \<^verbatim>\<open>int\<close> it computes a length in,
  for any fuel and from any state of the hardware: a direct read into a buffer of \<^verbatim>\<open>len\<close> words, a
  direct write of data with \<^verbatim>\<open>len\<close> words, a packed read of fewer than \<open>2 ^ 30 - 1\<close> pixels into a
  buffer with room for every pixel of the words it takes, a programmed write of data with one word
  more than \<^verbatim>\<open>len\<close> (below the largest \<^verbatim>\<open>int\<close>), and, once the DMA buffer is there, both DMA
  transfers of fewer than \<open>2 ^ 29\<close> elements. The alignment of the register unions is a matter of
  their declaration and not part of this.
\<close>
theorem reachable_transfers_defined:
  assumes "clock_law m now" and "alloc_law m" and "cxt_run m mp cxt"
  shows "(nat len \<le> length buf \<longrightarrow> smi_direct_read_arr m fuel cxt (Some buf) a len inc w \<noteq> Undefined)
    \<and> (unat n \<le> length data \<longrightarrow> smi_direct_write_arr m fuel cxt (Some data) a n inc w \<noteq> Undefined)
    \<and> (pxldata cxt \<and> format_of_cxt cxt = Some fmt \<and> 0 \<le> len \<and> len < 2 ^ 30 - 1 \<and>
         fmt_bytes fmt * packed_groups fmt (nat len) \<le> length ret \<longrightarrow>
         smi_programmed_read_arr m fuel cxt ret a len w \<noteq> Undefined)
    \<and> (nat (len + 1) \<le> length data \<and> len < INT_MAX \<longrightarrow>
         smi_programmed_write_arr m fuel cxt (Some data) a len w \<noteq> Undefined)
    \<and> (dma_buffer cxt = Some buff \<and> 0 \<le> len \<and> len < 2 ^ 29 \<longrightarrow>
         smi_programmed_read_dma m fuel (Some cxt) (Some (at, cb)) a len ch w \<noteq> Undefined \<and>
         smi_programmed_write_dma m fuel (Some cxt) (Some (at, cb)) a len ch w \<noteq> Undefined)"
proof -
  have ready: "ready mp cxt" by (rule cxt_run_ready [OF assms(2,3)])
  note defined = direct_read_defined [OF assms(1) ready] direct_write_defined [OF ready]
    programmed_read_defined [OF assms(1,2) ready] programmed_write_defined [OF assms(1) ready]
    dma_defined [OF assms(1) ready]
  show ?thesis by (intro conjI impI; (elim conjE)?; rule defined; assumption)
qed

theorem reachable_transfers_defined_witness:
  "\<exists>cxt. pxldata cxt \<and> (\<forall>fuel w. smi_programmed_read_arr (ram_machine (\<lambda>_. 7)) fuel cxt (replicate 8 0) 1 4 w \<noteq> Undefined)"
proof -
  let ?m = "ram_machine (\<lambda>_. 7)"
  obtain mp cxt where run: "cxt_run ?m mp cxt" and px: "pxldata cxt" and fmt: "format_of_cxt cxt = Some fmt_rgb565_8"
    using opened_example by (metis cxt_run.Opened)
  have "fmt_bytes fmt_rgb565_8 * packed_groups fmt_rgb565_8 (nat 4) \<le> length (replicate 8 (0 :: u8))"
    by (simp add: packed_groups_def packed_words_def fmt_defs fmt_bytes_def)
  then have "smi_programmed_read_arr ?m fuel cxt (replicate 8 0) 1 4 w \<noteq> Undefined" for fuel w
    using reachable_transfers_defined [OF ram_clock_law ram_alloc_law run,
        THEN conjunct2, THEN conjunct2, THEN conjunct1, of fmt_rgb565_8 4 "replicate 8 0" fuel 1 w] px fmt
    by simp
  with px show ?thesis by blast
qed

text \<open>The benchmarks of \<^verbatim>\<open>sram.c\<close> are runs: whatever they measured, the context is as good as before.\<close>
theorem benchmarks_keep_context:
  assumes "alloc_law m" and "cxt_run m mp cxt"
    and "megbyte_load_block_test m fuel junk cxt w = Returns (rows, cxt', w')
      \<or> megbyte_load_thread_test m fuel junk cxt w = Returns (rows, cxt', w')"
  shows "cxt_run m mp cxt' \<and> wf_cxt cxt'"
proof -
  have run: "cxt_run m mp cxt'" using assms(3) benchmark_steps [OF assms(2)] by blast
  then show ?thesis using cxt_run_ready [OF assms(1) run] by (auto simp: ready_def split_beta)
qed

end
