(* ===== verification/Smi_Flags.thy ===== *)
theory Smi_Flags
  imports Smi_Dma
begin

unbundle bit_operations_syntax

text \<open>
  The offsets, flags and address macros the headers define a second time, beside the bit-field
  structs and the offset functions the code uses. They describe the same registers, so they must
  agree; two do not, and one cannot be used at all (\<^verbatim>\<open>DMA_DEBUG(cs)\<close>, whose body names another
  variable).
\<close>

section \<open>Offsets\<close>

definition SMIO_DSR1 :: uintptr where "SMIO_DSR1 = 0x18"
definition SMIO_DSW1 :: uintptr where "SMIO_DSW1 = 0x1c"
definition SMIO_DSR2 :: uintptr where "SMIO_DSR2 = 0x20"
definition SMIO_DSW2 :: uintptr where "SMIO_DSW2 = 0x24"
definition SMIO_DSR3 :: uintptr where "SMIO_DSR3 = 0x28"
definition SMIO_DSW3 :: uintptr where "SMIO_DSW3 = 0x2c"

definition DMAO_CONBLK_AD :: uintptr where "DMAO_CONBLK_AD = 0x4"
definition DMAO_TI :: uintptr where "DMAO_TI = 0x8"
definition DMAO_SOURCE_AD :: uintptr where "DMAO_SOURCE_AD = 0xC"
definition DMA0_DEST_AD :: uintptr where "DMA0_DEST_AD = 0x10"
definition DMAO_TXFR_LEN :: uintptr where "DMAO_TXFR_LEN = 0x14"
definition DMAO_STRIDE :: uintptr where "DMAO_STRIDE = 0x18"
definition DMAO_NEXTCONBK :: uintptr where "DMAO_NEXTCONBK = 0x1C"
definition DMAO_CHANNEL_MULTIPLIER :: uintptr where "DMAO_CHANNEL_MULTIPLIER = 0x100"

definition DMA_N_REG :: "uintptr \<Rightarrow> u8 \<Rightarrow> uintptr" where "DMA_N_REG base n = base + ucast n * 0x100"

text \<open>The channel offsets \<^verbatim>\<open>DMA_CHANNEL_0\<close> to \<^verbatim>\<open>DMA_CHANNEL_14\<close>, in order.\<close>

definition DMA_CHANNELS :: "uintptr list" where
  "DMA_CHANNELS = [0x000, 0x100, 0x200, 0x300, 0x400, 0x500, 0x600, 0x700, 0x800, 0x900, 0xa00,
     0xb00, 0xc00, 0xd00, 0xe00]"

definition SMI_DEVICES :: "u8 list" where "SMI_DEVICES = [0, 1, 2, 3]"

definition SMI_ADDR_INC :: int where "SMI_ADDR_INC = 1"
definition SMI_ADDR_NO_INC :: int where "SMI_ADDR_NO_INC = 0"
definition SMI_ADDR_DEC :: int where "SMI_ADDR_DEC = -1"

definition DIRECT_WRITE_TIMEOUT_S :: int where "DIRECT_WRITE_TIMEOUT_S = 15"
definition DMA_WRITE_TIMEOUT_S :: int where "DMA_WRITE_TIMEOUT_S = 2"

definition GPIO_GPPUD :: uintptr where "GPIO_GPPUD = 0x94"
definition GPIO_GPPUDCLK0 :: uintptr where "GPIO_GPPUDCLK0 = 0x98"

definition GPIO_IN :: u32 where "GPIO_IN = 0"
definition GPIO_ALT0 :: u32 where "GPIO_ALT0 = 4"
definition GPIO_ALT2 :: u32 where "GPIO_ALT2 = 6"
definition GPIO_ALT3 :: u32 where "GPIO_ALT3 = 7"
definition GPIO_ALT4 :: u32 where "GPIO_ALT4 = 3"
definition GPIO_ALT5 :: u32 where "GPIO_ALT5 = 2"

lemmas gpio_mode_defs =
  GPIO_IN_def GPIO_OUT_def GPIO_ALT0_def GPIO_ALT1_def GPIO_ALT2_def GPIO_ALT3_def GPIO_ALT4_def GPIO_ALT5_def

section \<open>Registers as unions\<close>

text \<open>
  Every register struct shares a union with a \<^verbatim>\<open>uint32_t\<close>. The union is a word: its \<^verbatim>\<open>value\<close> is
  the word, and its \<^verbatim>\<open>fields\<close> are read with \<open>bf_get\<close> and written with \<open>bf_set\<close>.
\<close>

type_synonym SMI_CS = u32
type_synonym SMI_L = u32
type_synonym SMI_A = u32
type_synonym SMI_D = u32
type_synonym SMI_DC = u32
type_synonym SMI_DSR = u32
type_synonym SMI_DSW = u32
type_synonym SMI_DCS = u32
type_synonym SMI_DA = u32
type_synonym SMI_DD = u32
type_synonym SMI_FD = u32
type_synonym DMA_CS = u32
type_synonym DMA_CONBLK_AD = u32
type_synonym DMA_DEBUG = u32

definition DMA_CONBLK_AD_BITFIELD :: bitfield_struct where
  "DMA_CONBLK_AD_BITFIELD = [(''scb_addr'', 32)]"

text \<open>The \<^verbatim>\<open>aligned\<close> attributes of the unions of \<^verbatim>\<open>smi.h\<close>, in bytes, with the offsets they are used at.\<close>

definition smi_unions :: "(nat \<times> uintptr) list" where
  "smi_unions = [(32, SMIO_CS), (4, SMIO_L), (4, SMIO_A), (4, SMIO_D), (4, SMIO_DC)]
     @ concat (map (\<lambda>d. [(32, SMIO_DSR d), (32, SMIO_DSW d)]) SMI_DEVICES)
     @ [(4, SMIO_DCS), (4, SMIO_DA), (4, SMIO_DD), (4, SMIO_FD)]"

section \<open>Flags of the DMA registers\<close>

definition CS_CR :: u32 where "CS_CR = push_bit 31 1"
definition CS_ABORT :: u32 where "CS_ABORT = push_bit 30 1"
definition CS_DISDEBUG :: u32 where "CS_DISDEBUG = push_bit 29 1"
definition CS_WFOW :: u32 where "CS_WFOW = push_bit 28 1"
definition CS_PANIC_PRIORITY :: u32 where "CS_PANIC_PRIORITY = push_bit 20 15"
definition CS_PRIORITY :: u32 where "CS_PRIORITY = push_bit 16 15"
definition CS_ERROR :: u32 where "CS_ERROR = push_bit 8 1"
definition CS_WGFOW :: u32 where "CS_WGFOW = push_bit 6 1"
definition CS_DREQ_STOP :: u32 where "CS_DREQ_STOP = push_bit 5 1"
definition CS_PAUSED :: u32 where "CS_PAUSED = push_bit 4 1"
definition CS_DREQ :: u32 where "CS_DREQ = push_bit 3 1"
definition CS_INT :: u32 where "CS_INT = push_bit 2 1"
definition CS_END :: u32 where "CS_END = push_bit 1 1"
definition CS_ACTIVE :: u32 where "CS_ACTIVE = push_bit 0 1"

definition DB_LITE :: u32 where "DB_LITE = push_bit 28 1"
definition DB_VERSION :: u32 where "DB_VERSION = push_bit 25 7"
definition DB_STATE :: u32 where "DB_STATE = push_bit 16 255"
definition DB_ID :: u32 where "DB_ID = push_bit 8 255"
definition DB_OUTSTANDING_WR :: u32 where "DB_OUTSTANDING_WR = push_bit 4 15"
definition DB_RD_ERR :: u32 where "DB_RD_ERR = push_bit 2 1"
definition DB_FIFO_ERR :: u32 where "DB_FIFO_ERR = push_bit 1 1"
definition DB_RLNSE :: u32 where "DB_RLNSE = push_bit 0 1"

lemmas dma_cs_flag_defs =
  CS_CR_def CS_ABORT_def CS_DISDEBUG_def CS_WFOW_def CS_PANIC_PRIORITY_def CS_PRIORITY_def CS_ERROR_def
  CS_WGFOW_def CS_DREQ_STOP_def CS_PAUSED_def CS_DREQ_def CS_INT_def CS_END_def CS_ACTIVE_def

lemmas dma_debug_flag_defs =
  DB_LITE_def DB_VERSION_def DB_STATE_def DB_ID_def DB_OUTSTANDING_WR_def DB_RD_ERR_def DB_FIFO_ERR_def
  DB_RLNSE_def

section \<open>Addresses\<close>

text \<open>\<^verbatim>\<open>REG32_BUS\<close> adds to a \<^verbatim>\<open>uint32_t*\<close>, so it counts words, not bytes.\<close>

definition REG32_BUS :: "MEM_MAP \<Rightarrow> uintptr \<Rightarrow> uintptr" where
  "REG32_BUS mp x = mm_bus mp + 4 * ucast (ucast x :: u32)"

definition BUS_PHYS_ADDR :: "uintptr \<Rightarrow> uintptr" where
  "BUS_PHYS_ADDR a = ucast ((ucast a :: u32) AND NOT 0xC0000000)"

definition REG_SETBIT :: "u32 \<Rightarrow> u32 \<Rightarrow> u32" where "REG_SETBIT reg n = reg OR n"

section \<open>Agreement\<close>

lemma ucast_add_32: "(ucast (a + b :: uintptr) :: u32) = ucast a + ucast b"
proof -
  have "take_bit 32 (take_bit 64 x + take_bit 64 y) = take_bit 32 (x + y)" for x y :: int
    using take_bit_add [of 32 "take_bit 64 x" "take_bit 64 y"] take_bit_add [of 32 x y] by simp
  then show ?thesis by transfer simp
qed

text \<open>The members of a struct determine the bits it covers, and no others.\<close>

lemma layout_from_bits:
  "(\<forall>f \<in> set (layout_from off ms). bf_get f v = bf_get f v') \<longleftrightarrow>
     (\<forall>n. off \<le> n \<and> n < off + struct_bits ms \<longrightarrow> bit v n = bit v' n)"
proof (induction off ms rule: layout_from.induct)
  case (2 off s k ms)
  have head: "bf_get (Field off k) v = bf_get (Field off k) v' \<longleftrightarrow> (\<forall>n. off \<le> n \<and> n < off + k \<longrightarrow> bit v n = bit v' n)"
  proof
    assume eq: "bf_get (Field off k) v = bf_get (Field off k) v'"
    show "\<forall>n. off \<le> n \<and> n < off + k \<longrightarrow> bit v n = bit v' n"
    proof (intro allI impI)
      show "bit v n = bit v' n" if "off \<le> n \<and> n < off + k" for n
        using arg_cong [OF eq, where f = "\<lambda>x. bit x (n - off)"] that by (simp add: bit_bf_get less_diff_conv2)
    qed
  qed (auto intro!: bit_word_eqI simp: bit_bf_get)
  show ?case
    using 2 by (auto simp: head struct_bits_def) (metis leI add.assoc)+
qed (auto simp: struct_bits_def)

lemma layout_bits:
  "(\<forall>f \<in> set (layout ms). bf_get f v = bf_get f v') \<longleftrightarrow> take_bit (struct_bits ms) v = take_bit (struct_bits ms) v'"
  proof -
  have "bit x n \<Longrightarrow> n < 32" for x :: u32 and n using bit_imp_le_length [of x n] by simp
  then show ?thesis unfolding layout_def layout_from_bits by (simp add: bit_eq_iff bit_take_bit_iff) blast
qed

text \<open>
  So a union is determined by its members exactly if they make 32 bits, as those of all but two
  structs do: \<^verbatim>\<open>SMI_CS\<close> and \<^verbatim>\<open>SMI_A\<close> leave bit 31 out.
\<close>
theorem union_members:
  "ms \<in> {SMI_L_BITFIELD, SMI_D_BITFIELD, SMI_DC_BITFIELD, SMI_DSR_BITFIELD, SMI_DSW_BITFIELD, SMI_DCS_BITFIELD,
      SMI_DA_BITFIELD, SMI_DD_BITFIELD, SMI_FD_BITFIELD, DMA_CS_BITFIELD, DMA_CONBLK_AD_BITFIELD, DMA_DEBUG_BITFIELD}
    \<longrightarrow> ((\<forall>f \<in> set (layout ms). bf_get f v = bf_get f v') \<longleftrightarrow> v = v')"
    (is "?full \<longrightarrow> (?all \<longleftrightarrow> _)")
  "ms \<in> {SMI_CS_BITFIELD, SMI_A_BITFIELD}
    \<longrightarrow> ((\<forall>f \<in> set (layout ms). bf_get f v = bf_get f v') \<longleftrightarrow> take_bit 31 v = take_bit 31 v')"
    (is "?part \<longrightarrow> _")
proof -
  have "take_bit 32 x = x" for x :: u32 by (simp add: take_bit_word_eq_self)
  then show "?full \<longrightarrow> (?all \<longleftrightarrow> v = v')" and "?part \<longrightarrow> (?all \<longleftrightarrow> take_bit 31 v = take_bit 31 v')"
    unfolding layout_bits by (auto simp: struct_bits_def bitfield_struct_defs DMA_CONBLK_AD_BITFIELD_def)
qed

text \<open>
  The unions aligned to 32 bytes, not bits, are the control register, which is, and the settings registers,
  of which only the read settings of the third device are: on a mapped page the others are used
  through a pointer that is not aligned as its type says.
\<close>
theorem settings_misaligned:
  "[x \<leftarrow> smi_unions. unat (snd x) mod fst x \<noteq> 0] =
   [(32, SMIO_DSR 0), (32, SMIO_DSW 0), (32, SMIO_DSR 1), (32, SMIO_DSW 1), (32, SMIO_DSW 2), (32, SMIO_DSR 3), (32, SMIO_DSW 3)]"
  by (simp add: smi_unions_def SMI_DEVICES_def offset_defs)

text \<open>The names \<^verbatim>\<open>gpio_test\<close> prints for the modes are theirs.\<close>
theorem mode_names:
  "map (\<lambda>x. GPIO_MODE_STRS ! unat x) [GPIO_IN, GPIO_OUT, GPIO_ALT0, GPIO_ALT1, GPIO_ALT2, GPIO_ALT3, GPIO_ALT4, GPIO_ALT5]
   = [''IN'', ''OUT'', ''ALT0'', ''ALT1'', ''ALT2'', ''ALT3'', ''ALT4'', ''ALT5'']"
  by (simp add: gpio_mode_defs GPIO_MODE_STRS_def)

text \<open>The mask of a field is what it reads of all ones, in its place.\<close>

definition field_mask :: "field \<Rightarrow> u32" where "field_mask f = push_bit (fld_off f) (mask (fld_width f))"

lemma field_mask_set: "bf_set f (- 1) 0 = field_mask f"
  by (rule bit_word_eqI) (auto simp: bit_bf_set field_mask_def bit_simps)

text \<open>
  Every flag of the DMA control and status register is the mask of the bit-field member of that
  name, and so is every flag of the debug register but one: the state has 9 bits in the struct,
  of which \<^verbatim>\<open>DB_STATE\<close> has the lower 8.
\<close>
theorem dma_flags_agree:
  "map field_mask [DMACS_reset, DMACS_abort, DMACS_disdebug, DMACS_wait_write, DMACS_panic_priority,
     DMACS_priority, DMACS_error, DMACS_waiting_write, DMACS_dreqstop, DMACS_pause, DMACS_dreq, DMACS_intr,
     DMACS_end, DMACS_active] =
   [CS_CR, CS_ABORT, CS_DISDEBUG, CS_WFOW, CS_PANIC_PRIORITY, CS_PRIORITY, CS_ERROR, CS_WGFOW, CS_DREQ_STOP,
     CS_PAUSED, CS_DREQ, CS_INT, CS_END, CS_ACTIVE] \<and>
   map field_mask [DMADBG_lite, DMADBG_version, DMADBG_dma_id, DMADBG_outstanding_wr, DMADBG_read_error,
     DMADBG_fifo_error, DMADBG_rlnse] =
   [DB_LITE, DB_VERSION, DB_ID, DB_OUTSTANDING_WR, DB_RD_ERR, DB_FIFO_ERR, DB_RLNSE] \<and>
   field_mask DMADBG_dma_state = DB_STATE OR push_bit 24 1 \<and> DB_STATE AND push_bit 24 1 = 0"
  by (simp add: field_mask_def dma_cs_flag_defs dma_debug_flag_defs mask_eq_exp_minus_1)

lemma bit_bus_alias: "bit (0xC0000000 :: 'a :: len word) n \<longleftrightarrow> (n = 30 \<or> n = 31) \<and> n < LENGTH('a)"
proof -
  have three: "bit (3 :: 'a word) k \<longleftrightarrow> k < LENGTH('a) \<and> (k = 0 \<or> k = 1)" for k
    by (auto simp: bit_numeral_rec(2) bit_1_iff bit_double_iff bit_Suc_0_iff split: nat.splits)
  have eq: "(0xC0000000 :: 'a word) = push_bit 30 3" by (simp add: push_bit_eq_mult)
  have "n - 30 = 0 \<or> n - 30 = 1 \<longleftrightarrow> n = 30 \<or> n = 31" if "30 \<le> n" using that by auto
  then show ?thesis unfolding eq bit_push_bit_iff three by auto
qed

text \<open>
  The named offsets are those the code computes: the settings registers of the four devices, the
  channels, and the control block register of a channel; and a bus address is converted to the
  physical address it is an alias of.
\<close>
theorem offsets_agree:
  "map SMIO_DSR SMI_DEVICES = [SMIO_DSR0, SMIO_DSR1, SMIO_DSR2, SMIO_DSR3] \<and>
   map SMIO_DSW SMI_DEVICES = [SMIO_DSW0, SMIO_DSW1, SMIO_DSW2, SMIO_DSW3] \<and>
   map (\<lambda>c. DMA_CS_OFFSET (of_nat c)) [0..<15] = DMA_CHANNELS \<and>
   DMA_CTRL_BLK c = DMA_CS_OFFSET c + DMAO_CONBLK_AD \<and> DMA_N_REG base c = base + DMA_CS_OFFSET c \<and>
   (unat v < 2 ^ 30 \<longrightarrow> BUS_PHYS_ADDR (v + 0xC0000000) = v)"
proof -
  have "BUS_PHYS_ADDR (v + 0xC0000000) = v" if "unat v < 2 ^ 30"
  proof -
    have low: "v = take_bit 30 v"
      using that by (simp add: word_unat_eq_iff unsigned_take_bit_eq take_bit_nat_eq_self)
    have vb: "bit v n \<Longrightarrow> n < 30" for n by (subst (asm) low) (simp add: bit_simps)
    define c64 :: uintptr where "c64 = 0xC0000000"
    define c32 :: u32 where "c32 = 0xC0000000"
    have c: "bit c64 n \<longleftrightarrow> n = 30 \<or> n = 31" "bit c32 n \<longleftrightarrow> n = 30 \<or> n = 31" for n
      unfolding c64_def c32_def bit_bus_alias by auto
    have "v AND c64 = 0" by (rule bit_word_eqI) (auto simp: bit_and_iff c dest: vb)
    then have sum: "v + c64 = v OR c64" by (rule disjunctive_add_eq_or)
    have "BUS_PHYS_ADDR (v + c64) = v"
    proof (rule bit_word_eqI)
      show "bit (BUS_PHYS_ADDR (v + c64)) n = bit v n" if "n < LENGTH(64)" for n
        using vb [of n] that unfolding BUS_PHYS_ADDR_def c32_def [symmetric] sum
        by (cases "bit v n") (auto simp: bit_ucast_iff bit_and_iff bit_or_iff bit_not_iff c)
    qed
    then show ?thesis by (simp add: c64_def)
  qed
  then show ?thesis
    by (simp add: SMI_DEVICES_def SMIO_DSR_def SMIO_DSW_def SMIO_DSR0_def SMIO_DSR1_def SMIO_DSR2_def SMIO_DSR3_def
        SMIO_DSW0_def SMIO_DSW1_def SMIO_DSW2_def SMIO_DSW3_def DMA_CS_OFFSET_def DMA_CHANNELS_def
        DMA_CTRL_BLK_def DMAO_CONBLK_AD_def DMA_N_REG_def upt_rec)
qed

text \<open>
  \<^verbatim>\<open>REG32_BUS\<close> and \<^verbatim>\<open>REG_BUS_ADDR\<close>, which both mean the bus address of a register, differ for every
  register of the interface but the first: the former is four times as far from the base.
\<close>
theorem reg32_bus_scaled:
  assumes "0 < x" and "x \<le> SMIO_FD"
  shows "REG32_BUS mp x = mm_bus mp + 4 * x \<and> ucast (REG32_BUS mp x) \<noteq> REG_BUS_ADDR mp x"
proof -
  have x: "0 < unat x" "unat x \<le> 64"
    using assms by (simp_all add: word_less_nat_alt word_le_nat_alt SMIO_FD_def)
  then have same: "ucast (ucast x :: u32) = x"
    by (simp add: word_unat_eq_iff unsigned_ucast_eq unsigned_take_bit_eq take_bit_nat_eq_self)
  have small: "unat (ucast x :: u32) = unat x" "unat (4 * x) = 4 * unat x"
    using x unat_mult_lem [of 4 x] by (simp_all add: unsigned_ucast_eq unsigned_take_bit_eq take_bit_nat_eq_self)
  then have "unat (ucast (4 * x) :: u32) = 4 * unat x"
    using x by (simp add: unsigned_ucast_eq unsigned_take_bit_eq take_bit_nat_eq_self)
  then have "(ucast (4 * x) :: u32) \<noteq> ucast x" using small(1) x by auto
  then show ?thesis by (simp add: REG32_BUS_def REG_BUS_ADDR_def same ucast_add_32)
qed

theorem reg32_bus_scaled_witness:
  "REG32_BUS (sample_map 0x1000) SMIO_D = mm_bus (sample_map 0x1000) + 0x30"
  using reg32_bus_scaled [of SMIO_D] by (simp add: SMIO_D_def SMIO_FD_def)

end
