(* ===== verification/Smi_Main.thy ===== *)
theory Smi_Main
  imports Smi_Lifecycle Smi_Flags
begin

unbundle bit_operations_syntax

text \<open>
  The demo program \<^verbatim>\<open>main.c\<close> and the two examples of \<^verbatim>\<open>smi_examples.c\<close>: the calls they make
  and the control blocks they build in the DMA buffer. Locals that are not initialised, and the
  addresses of locals, are members of \<open>main_locals\<close>: their values are arbitrary. The DMA buffer is
  a list of bytes, whose first 32 are the control block: a member of it that is assigned is stored
  there, and a transfer is given the block loaded from there and leaves it there. What the DMA
  controller makes of the buffer during a transfer is the parameter \<open>moved\<close>. What \<^verbatim>\<open>main\<close> prints is left out, but for the count it
  computes.

  Both use a function without a return value before their first transfer: \<^verbatim>\<open>main\<close> the configure
  functions, through \<^verbatim>\<open>smi_sync_context_device\<close>, the examples a pointer to a pointer to the
  context. So the whole program is undefined (\<open>main_never_starts\<close>), and the theorems are about its
  parts.
\<close>

section \<open>The demo program\<close>

text \<open>
  The configuration \<^verbatim>\<open>main\<close> builds; \<open>rest\<close> is what the uninitialised structs held, as are
  \<open>rw\<close>, \<open>ck\<close> and the maps below.
\<close>

definition main_rconfig :: "SMI_READ \<Rightarrow> SMI_READ" where
  "main_rconfig rest = rest\<lparr>rwidth := SMI_8_BITS, fsetup := False, rhold := 2, rpace := 2, rsetup := 2,
     mode68 := True, rpaceall := True, rdreq := False, rstrobe := 2\<rparr>"

definition main_wconfig :: "SMI_WRITE \<Rightarrow> SMI_WRITE" where
  "main_wconfig rest = rest\<lparr>wwidth := SMI_8_BITS, wformat := SMI_RGB565, whold := 2, wpace := 2,
     wsetup := 2, wstrobe := 2, wpaceall := False\<rparr>"

record main_locals =
  l_cxt :: SMI_CXT
  l_smi :: MEM_MAP
  l_clk :: MEM_MAP
  l_gpio :: MEM_MAP
  l_dma :: MEM_MAP
  l_buffer :: MEM_MAP
  l_rw :: SMI_RW
  l_ck :: SMI_CLK
  l_rconfig :: SMI_READ
  l_wconfig :: SMI_WRITE
  l_ret :: "u32 list"
  at_gpio :: uintptr
  at_dma :: uintptr
  at_smi :: uintptr
  at_clk :: uintptr
  at_buffer :: uintptr

text \<open>A control block of zeros, as \<^verbatim>\<open>memset\<close> leaves it; \<open>CB_SIZE\<close> is its \<^verbatim>\<open>sizeof\<close>.\<close>

definition CB_SIZE :: nat where "CB_SIZE = 32"

definition zero_cb :: DMA_CB where
  "zero_cb = \<lparr>cb_ti = 0, cb_src_addr = 0, cb_dest_addr = 0, cb_tfr_len = 0, cb_stride = 0,
     cb_next_cb = 0, cb_debug = 0, cb_unused = 0\<rparr>"

text \<open>The 32-bit word at an offset of the buffer, and the control block at its start.\<close>

definition fetch32 :: "u8 list \<Rightarrow> nat \<Rightarrow> u32 outcome" where
  "fetch32 mem i =
     (if i + 4 \<le> length mem then Returns (word_of_le (mem ! i) (mem ! (i + 1)) (mem ! (i + 2)) (mem ! (i + 3)))
      else Undefined)"

definition cb_words :: "DMA_CB \<Rightarrow> u32 list" where
  "cb_words cb = [cb_ti cb, cb_src_addr cb, cb_dest_addr cb, cb_tfr_len cb, cb_stride cb,
     cb_next_cb cb, cb_debug cb, cb_unused cb]"

definition load_cb :: "u8 list \<Rightarrow> DMA_CB outcome" where
  "load_cb mem =
     obind (fetch32 mem 0) (\<lambda>ti. obind (fetch32 mem 4) (\<lambda>src. obind (fetch32 mem 8) (\<lambda>dest.
     obind (fetch32 mem 12) (\<lambda>len. obind (fetch32 mem 16) (\<lambda>stride. obind (fetch32 mem 20) (\<lambda>nxt.
     obind (fetch32 mem 24) (\<lambda>dbg. obind (fetch32 mem 28) (\<lambda>un.
     Returns \<lparr>cb_ti = ti, cb_src_addr = src, cb_dest_addr = dest, cb_tfr_len = len, cb_stride = stride,
       cb_next_cb = nxt, cb_debug = dbg, cb_unused = un\<rparr>))))))))"

definition store_cb :: "u8 list \<Rightarrow> DMA_CB \<Rightarrow> u8 list outcome" where
  "store_cb mem cb = store mem 0 (concat (map le32 (cb_words cb)))"

definition SMI_DEVICE1 :: u8 where "SMI_DEVICE1 = 0"

text \<open>
  The control block of \<^verbatim>\<open>main\<close>: the buffer and the block are zeroed, four words of data follow
  the block and the place for received data follows those 32 bytes further on.
\<close>

definition main_block ::
  "'h machine \<Rightarrow> MEM_MAP \<Rightarrow> MEM_MAP \<Rightarrow> MEM_MAP \<Rightarrow> u8 list \<Rightarrow> 'h world
     \<Rightarrow> (u8 list \<times> 'h world) outcome" where
  "main_block m smi dm buff mem w =
     (if mm_virt buff = 0 then Undefined
      else
        obind (store mem 0 (replicate (1024 * 4) 0)) (\<lambda>mem.
        let w = smi_dma_setup m smi w;
            w = fset m (REG32 dm DMAO_CS) DMACS_reset 1 w in
        obind (store mem 0 (replicate CB_SIZE 0)) (\<lambda>mem.
        let rxdata = 2 * CB_SIZE;
            txdata = CB_SIZE in
        obind (store mem txdata (le32 0xFFFF)) (\<lambda>mem.
        obind (store mem (txdata + 4) (le32 0)) (\<lambda>mem.
        obind (store mem (txdata + 8) (le32 0xFFFF)) (\<lambda>mem.
        obind (store mem (txdata + 12) (le32 0)) (\<lambda>mem.
        obind (store mem 4 (le32 (MEM_BUS_ADDR buff (mm_virt buff + of_nat txdata)))) (\<lambda>mem.
        obind (store mem 8 (le32 (MEM_BUS_ADDR buff (mm_virt buff + of_nat rxdata)))) (\<lambda>mem.
        obind (store mem 0 (le32 0)) (\<lambda>mem.
        Returns (mem, w)))))))))))"

text \<open>The thresholds are given as 4 and 1, but the members are \<^verbatim>\<open>bool\<close>.\<close>

definition main_settings :: "SMI_CXT \<Rightarrow> SMI_CXT outcome" where
  "main_settings cxt =
     obind (set_config0 (\<lambda>rc. rc\<lparr>rwidth := SMI_18_BITS\<rparr>)
         (\<lambda>wc. wc\<lparr>wformat := SMI_RGB565, wwidth := SMI_8_BITS\<rparr>) cxt) (\<lambda>cxt.
     obind (deref (rw_config cxt)) (\<lambda>rw.
     let cxt = cxt\<lparr>rw_config := Some (rw\<lparr>read_device_num := SMI_DEVICE1, write_device_num := SMI_DEVICE1\<rparr>)\<rparr>;
         cxt = cxt\<lparr>dma_config := (dma_config cxt)\<lparr>reqr := (4 :: int) \<noteq> 0, reqw := True, panicw := True\<rparr>\<rparr> in
     Returns (cxt\<lparr>pxldata := False\<rparr>)))"

definition main_transfer ::
  "'h machine \<Rightarrow> nat \<Rightarrow> SMI_CXT \<Rightarrow> MEM_MAP \<Rightarrow> MEM_MAP \<Rightarrow> u8 list \<Rightarrow> 'h world
     \<Rightarrow> (u8 list \<times> 'h world) outcome" where
  "main_transfer m fuel cxt dm buff mem w =
     obind (smi_sync_context_device m cxt w) (\<lambda>(_, w).
     obind (load_cb mem) (\<lambda>cb.
     obind (smi_programmed_read_dma m fuel (Some cxt) (Some (mm_virt buff, cb)) 0 16 0 w) (\<lambda>(_, cb, w).
     obind (case cb of None \<Rightarrow> Returns mem | Some cb \<Rightarrow> store_cb mem cb) (\<lambda>mem.
     let (_, w) = fget m (REG32 dm DMAO_DEBUG) DMADBG_dma_state w;
         (_, w) = sync_for_cpu m (fd_sync_cpu cxt) w in
     Returns (mem, w)))))"

text \<open>How many of the 16 received words are 32.\<close>

definition main_results :: "u8 list \<Rightarrow> nat outcome" where
  "main_results mem =
     c_for 0 16 (\<lambda>i count. obind (fetch32 mem (2 * CB_SIZE + 4 * i)) (\<lambda>v.
       Returns (if v = 32 then count + 1 else count))) 0"

definition main_finish ::
  "'h machine \<Rightarrow> nat \<Rightarrow> main_locals \<Rightarrow> SMI_CXT \<Rightarrow> MEM_MAP \<Rightarrow> MEM_MAP \<Rightarrow> 'h world \<Rightarrow> (int \<times> 'h world) outcome" where
  "main_finish m fuel l cxt smi ck w =
     (let w = st32 m (REG32 smi SMIO_CS) 0 w;
          (_, w) = ld32 m (REG32 ck CLK_SMI_CTL) w;
          (_, w) = ld32 m (REG32 ck CLK_SMI_DIV) w in
      obind (sram_helloworld m fuel (l_ret l) cxt w) (\<lambda>(_, cxt, w).
      let (cxt, w) = smi_unmap_cxt m (at_gpio l) (at_dma l) (at_smi l) (at_clk l) cxt w;
          w = smi_unmap_udmabuf m (at_buffer l) cxt w in
      Returns (0, w)))"

text \<open>
  The program: the set-up up to the clock, and everything after it. The result is the exit code and
  the count; \<open>None\<close> is a process that has ended before. \<open>mem\<close> is what the buffer holds at first.
\<close>

definition main_setup ::
  "'h machine \<Rightarrow> nat \<Rightarrow> main_locals \<Rightarrow> 'h world
     \<Rightarrow> (SMI_CXT \<times> MEM_MAP \<times> MEM_MAP \<times> MEM_MAP \<times> MEM_MAP \<times> 'h world) outcome option" where
  "main_setup m fuel l w =
     (case smi_init_cxt_map m (l_cxt l) (l_smi l) (l_clk l) (l_gpio l) (l_dma l) w of
        (None, w) \<Rightarrow> None
      | (Some (_, cxt, smi, ck, gpio, dm), w) \<Rightarrow>
          Some (obind (smi_init_rw_config cxt (l_rw l) (Some (l_ck l)) (main_rconfig (l_rconfig l))
              (main_wconfig (l_wconfig l)) 0 0) (\<lambda>cxt.
            obind (init_smi_clk m fuel ck 2 w) (\<lambda>w.
            Returns (cxt, smi, ck, gpio, dm, w)))))"

definition main_rest ::
  "'h machine \<Rightarrow> nat \<Rightarrow> main_locals \<Rightarrow> u8 list \<Rightarrow> (u8 list \<Rightarrow> u8 list)
     \<Rightarrow> SMI_CXT \<Rightarrow> MEM_MAP \<Rightarrow> MEM_MAP \<Rightarrow> MEM_MAP \<Rightarrow> MEM_MAP \<Rightarrow> 'h world \<Rightarrow> (int \<times> nat \<times> 'h world) outcome" where
  "main_rest m fuel l mem moved cxt smi ck gpio dm w =
     obind (smi_init_udmabuf m cxt (l_buffer l) mem w) (\<lambda>(_, cxt, buff, mem, w).
     let w = smi_8b_init m gpio w in
     obind (main_block m smi dm buff mem w) (\<lambda>(mem, w).
     obind (main_settings cxt) (\<lambda>cxt.
     obind (main_transfer m fuel cxt dm buff mem w) (\<lambda>(mem, w).
     obind (main_results (moved mem)) (\<lambda>count.
     obind (main_finish m fuel l cxt smi ck w) (\<lambda>(r, w).
     Returns (r, count, w)))))))"

definition main_program ::
  "'h machine \<Rightarrow> nat \<Rightarrow> main_locals \<Rightarrow> u8 list \<Rightarrow> (u8 list \<Rightarrow> u8 list) \<Rightarrow> 'h world
     \<Rightarrow> (int \<times> nat \<times> 'h world) outcome option" where
  "main_program m fuel l mem moved w =
     map_option (\<lambda>r. obind r (\<lambda>(cxt, smi, ck, gpio, dm, w).
       obind (smi_sync_context_device m cxt w) (\<lambda>(_, w).
       main_rest m fuel l mem moved cxt smi ck gpio dm w))) (main_setup m fuel l w)"

section \<open>The examples\<close>

text \<open>
  What each example does before it passes \<^verbatim>\<open>&cxt\<close>, the address of its parameter, as the context: the
  callee then reads an \<^verbatim>\<open>SMI_CXT\<close> where a pointer is, which is undefined.
\<close>

definition ex_dma_read_setup :: "SMI_CXT \<Rightarrow> u8 list \<Rightarrow> (SMI_CXT \<times> u8 list) outcome" where
  "ex_dma_read_setup cxt mem =
     obind (deref (dma_buffer cxt)) (\<lambda>buff.
     obind (store mem 0 (replicate CB_SIZE 0)) (\<lambda>mem.
     obind (store mem 8 (le32 (MEM_BUS_ADDR buff (mm_virt buff + of_nat (2 * CB_SIZE))))) (\<lambda>mem.
     obind (store mem 0 (le32 0)) (\<lambda>mem.
     obind (deref (rw_config cxt)) (\<lambda>rw.
     let cxt = cxt\<lparr>rw_config := Some (rw\<lparr>read_device_num := SMI_DEVICE1\<rparr>)\<rparr> in
     obind (set_config0 (\<lambda>rc. rc\<lparr>rwidth := SMI_8_BITS\<rparr>) (\<lambda>wc. wc) cxt) (\<lambda>cxt.
     let cxt = cxt\<lparr>pxldata := False\<rparr>;
         cxt = cxt\<lparr>dma_config := (dma_config cxt)\<lparr>panicr := (4 :: int) \<noteq> 0, reqr := True\<rparr>\<rparr> in
     Returns (cxt, mem)))))))"

definition smi_ex_dma_read :: "SMI_CXT \<Rightarrow> u8 list \<Rightarrow> int outcome" where
  "smi_ex_dma_read cxt mem = obind (ex_dma_read_setup cxt mem) (\<lambda>_. Undefined)"

definition ex_dma_write_setup :: "SMI_CXT \<Rightarrow> u8 list \<Rightarrow> (SMI_CXT \<times> u8 list) outcome" where
  "ex_dma_write_setup cxt mem =
     obind (deref (dma_buffer cxt)) (\<lambda>buff.
     obind (store mem 0 (replicate CB_SIZE 0)) (\<lambda>mem.
     obind (store mem CB_SIZE (map of_char ''Test'' @ [0])) (\<lambda>mem.
     obind (store mem 4 (le32 (MEM_BUS_ADDR buff (mm_virt buff + of_nat CB_SIZE)))) (\<lambda>mem.
     obind (store mem 0 (le32 0)) (\<lambda>mem.
     obind (deref (rw_config cxt)) (\<lambda>rw.
     let cxt = cxt\<lparr>rw_config := Some (rw\<lparr>read_device_num := SMI_DEVICE1\<rparr>)\<rparr> in
     obind (set_config0 (\<lambda>rc. rc\<lparr>rwidth := SMI_8_BITS\<rparr>) (\<lambda>wc. wc) cxt) (\<lambda>cxt.
     let cxt = cxt\<lparr>pxldata := False\<rparr>;
         cxt = cxt\<lparr>dma_config := (dma_config cxt)\<lparr>panicw := (4 :: int) \<noteq> 0, reqw := True\<rparr>\<rparr> in
     Returns (cxt, mem))))))))"

definition smi_ex_dma_write :: "SMI_CXT \<Rightarrow> u8 list \<Rightarrow> int outcome" where
  "smi_ex_dma_write cxt mem = obind (ex_dma_write_setup cxt mem) (\<lambda>_. Undefined)"

section \<open>The control blocks\<close>

text \<open>An offset in the buffer has its place on the bus, whatever the 64-bit addresses are.\<close>

lemma mem_bus_addr_offset: "MEM_BUS_ADDR mp (mm_virt mp + b) = ucast (mm_bus mp) + ucast b"
  by (simp add: MEM_BUS_ADDR_def ucast_add_32)

lemma store_some: "d + length xs \<le> length buf \<Longrightarrow> store buf d xs = Returns (overlay buf d xs)"
  by (simp add: store_def)

lemma main_block_memory:
  assumes "4096 \<le> length mem"
  defines "ws \<equiv> concat (map le32 [0xFFFF, 0, 0xFFFF, 0])"
  shows "obind (store mem 0 (replicate (1024 * 4) 0)) (\<lambda>mem.
    obind (store mem 0 (replicate 32 0)) (\<lambda>mem.
    obind (store mem 32 (le32 0xFFFF)) (\<lambda>mem.
    obind (store mem 36 (le32 0)) (\<lambda>mem.
    obind (store mem 40 (le32 0xFFFF)) (\<lambda>mem. store mem 44 (le32 0))))))
    = Returns (replicate 32 0 @ ws @ replicate 4048 0 @ drop 4096 mem)"
proof -
  define buf where "buf = replicate 4096 0 @ drop 4096 mem"
  have len: "length buf = length mem" using assms(1) by (simp add: buf_def)
  have "store mem 0 (replicate (1024 * 4) 0) = Returns buf"
    using assms(1) by (simp add: store_some overlay_def buf_def)
  moreover have "store buf 0 (replicate 32 0) = Returns buf"
  proof -
    have "overlay buf 0 (replicate 32 0) = replicate 32 0 @ replicate (4096 - 32) 0 @ drop 4096 mem"
      by (simp add: overlay_def buf_def)
    also have "\<dots> = buf" by (simp add: buf_def flip: replicate_add append_assoc)
    finally show ?thesis using assms(1) len by (simp add: store_some)
  qed
  moreover have "store buf 32 (le32 0xFFFF) = Returns (overlay buf 32 (le32 0xFFFF))"
    using assms(1) len by (intro store_some) simp
  moreover have "store (overlay buf 32 (le32 0xFFFF)) 36 (le32 0) =
      Returns (overlay buf 32 (le32 0xFFFF @ le32 0))"
    using assms(1) len overlay_overlay [of 32 "le32 0xFFFF" "le32 0" buf] by (simp add: store_some)
  moreover have "store (overlay buf 32 (le32 0xFFFF @ le32 0)) 40 (le32 0xFFFF) =
      Returns (overlay buf 32 (le32 0xFFFF @ le32 0 @ le32 0xFFFF))"
    using assms(1) len overlay_overlay [of 32 "le32 0xFFFF @ le32 0" "le32 0xFFFF" buf] by (simp add: store_some)
  moreover have "store (overlay buf 32 (le32 0xFFFF @ le32 0 @ le32 0xFFFF)) 44 (le32 0) =
      Returns (overlay buf 32 ws)"
    using assms(1) len overlay_overlay [of 32 "le32 0xFFFF @ le32 0 @ le32 0xFFFF" "le32 0" buf]
    by (simp add: store_some ws_def)
  moreover have "overlay buf 32 ws = replicate 32 0 @ ws @ replicate 4048 0 @ drop 4096 mem"
    by (simp add: overlay_def buf_def ws_def)
  ultimately show ?thesis by simp
qed

text \<open>The block in the first 32 bytes, where the rest is as it was cleared.\<close>

lemma block_stores:
  "store (replicate 32 0 @ xs) 4 (le32 a) = Returns (replicate 4 0 @ le32 a @ replicate 24 0 @ xs)"
  "store (replicate 32 0 @ xs) 8 (le32 b) = Returns (replicate 8 0 @ le32 b @ replicate 20 0 @ xs)"
  "store (replicate 4 0 @ le32 a @ replicate 24 0 @ xs) 8 (le32 b) =
     Returns (replicate 4 0 @ le32 a @ le32 b @ replicate 20 0 @ xs)"
  "store (replicate 4 0 @ ys) 0 (le32 c) = Returns (le32 c @ ys)"
  "store (replicate 8 0 @ ys) 0 (le32 c) = Returns (le32 c @ replicate 4 0 @ ys)"
  by (simp_all add: store_def overlay_def)

lemma le32_0: "le32 0 = replicate 4 0"
  by (simp add: le32_def eval_nat_numeral)

lemma block_bytes:
  "concat (map le32 (cb_words (zero_cb\<lparr>cb_src_addr := a, cb_dest_addr := b\<rparr>))) =
     replicate 4 0 @ le32 a @ le32 b @ replicate 20 0"
  "concat (map le32 (cb_words (zero_cb\<lparr>cb_dest_addr := b\<rparr>))) = replicate 8 0 @ le32 b @ replicate 20 0"
  "concat (map le32 (cb_words (zero_cb\<lparr>cb_src_addr := a\<rparr>))) = replicate 4 0 @ le32 a @ replicate 24 0"
  by (simp_all add: cb_words_def zero_cb_def le32_0 eval_nat_numeral)

text \<open>Storing a block and loading it gives the block back.\<close>

lemma fetch32_le32: "fetch32 (xs @ le32 v @ ys) (length xs) = Returns v"
  by (simp add: fetch32_def le32_def nth_append word_of_le32)

lemma load_cb_bytes: "load_cb (concat (map le32 (cb_words cb)) @ ys) = Returns cb"
proof -
  let ?f = "\<lambda>i. fetch32 (concat (map le32 (cb_words cb)) @ ys) (4 * i)"
  have get: "?f (length us) = Returns v" if "cb_words cb = us @ v # vs" for us v vs
  proof -
    have "length (concat (map le32 us)) = 4 * length us" by (induction us) simp_all
    then show ?thesis
      using fetch32_le32 [of "concat (map le32 us)" v "concat (map le32 vs) @ ys"] by (simp add: that)
  qed
  note w = cb_words_def
  have "?f 0 = Returns (cb_ti cb)" using get [of "[]"] by (simp add: w)
  moreover have "?f 1 = Returns (cb_src_addr cb)" using get [of "[_]"] by (simp add: w)
  moreover have "?f 2 = Returns (cb_dest_addr cb)" using get [of "[_, _]"] by (simp add: w)
  moreover have "?f 3 = Returns (cb_tfr_len cb)" using get [of "[_, _, _]"] by (simp add: w)
  moreover have "?f 4 = Returns (cb_stride cb)" using get [of "[_, _, _, _]"] by (simp add: w)
  moreover have "?f 5 = Returns (cb_next_cb cb)" using get [of "[_, _, _, _, _]"] by (simp add: w)
  moreover have "?f 6 = Returns (cb_debug cb)" using get [of "[_, _, _, _, _, _]"] by (simp add: w)
  moreover have "?f 7 = Returns (cb_unused cb)" using get [of "[_, _, _, _, _, _, _]"] by (simp add: w)
  ultimately show ?thesis by (simp add: load_cb_def)
qed

lemma store_load_cb:
  assumes "store_cb mem cb = Returns mem'"
  shows "load_cb mem' = Returns cb \<and> drop 32 mem' = drop 32 mem"
proof -
  have len: "length (concat (map le32 (cb_words cb))) = 32" by (simp add: cb_words_def)
  then have "mem' = concat (map le32 (cb_words cb)) @ drop 32 mem"
    using assms by (auto simp: store_cb_def store_def overlay_def split: if_splits)
  with len load_cb_bytes show ?thesis by simp
qed

lemma main_block_result:
  assumes "mm_virt buff \<noteq> 0"
  shows "main_block m smi dm buff mem w =
    (if length mem < 4096 then Undefined
     else Returns (concat (map le32 (cb_words (zero_cb\<lparr>cb_src_addr := ucast (mm_bus buff) + 32,
           cb_dest_addr := ucast (mm_bus buff) + 64\<rparr>)))
         @ concat (map le32 [0xFFFF, 0, 0xFFFF, 0]) @ replicate 4048 0 @ drop 4096 mem,
       fset m (REG32 dm DMAO_CS) DMACS_reset 1 (smi_dma_setup m smi w)))"
proof (cases "length mem < 4096")
  case True
  then show ?thesis using assms by (simp add: main_block_def store_def)
next
  case False
  define k where "k = (\<lambda>mem :: u8 list.
      obind (store mem 4 (le32 (ucast (mm_bus buff) + 32))) (\<lambda>mem.
      obind (store mem 8 (le32 (ucast (mm_bus buff) + 64))) (\<lambda>mem.
      obind (store mem 0 (le32 0)) (\<lambda>mem.
      Returns (mem, fset m (REG32 dm DMAO_CS) DMACS_reset 1 (smi_dma_setup m smi w))))))"
  have "main_block m smi dm buff mem w = obind (obind (store mem 0 (replicate (1024 * 4) 0)) (\<lambda>mem.
    obind (store mem 0 (replicate 32 0)) (\<lambda>mem.
    obind (store mem 32 (le32 0xFFFF)) (\<lambda>mem.
    obind (store mem 36 (le32 0)) (\<lambda>mem.
    obind (store mem 40 (le32 0xFFFF)) (\<lambda>mem. store mem 44 (le32 0))))))) k"
    using assms by (simp add: main_block_def Let_def obind_assoc CB_SIZE_def mem_bus_addr_offset k_def
        del: One_nat_def)
  also have "\<dots> = k (replicate 32 0 @ concat (map le32 [0xFFFF, 0, 0xFFFF, 0]) @ replicate 4048 0 @ drop 4096 mem)"
  proof -
    have "4096 \<le> length mem" using False by simp
    then show ?thesis by (subst main_block_memory) simp_all
  qed
  finally show ?thesis
    using False by (simp only: k_def block_stores obind.simps append_assoc if_False) (simp only: le32_0 block_bytes append_assoc)
qed

lemma main_results_count:
  assumes "128 \<le> length mem"
  shows "main_results mem = Returns (card {i. i < 16 \<and> fetch32 mem (64 + 4 * i) = Returns 32})"
proof -
  have step: "\<exists>v. fetch32 mem (64 + 4 * i) = Returns v" if "i < 16" for i
    using that assms by (simp add: fetch32_def)
  have "c_for 0 n (\<lambda>i count. obind (fetch32 mem (2 * CB_SIZE + 4 * i)) (\<lambda>v.
       Returns (if v = 32 then count + 1 else count))) 0
     = Returns (card {i. i < n \<and> fetch32 mem (64 + 4 * i) = Returns 32})" if "n \<le> 16" for n
    using that
  proof (induction n)
    case 0
    then show ?case by simp
  next
    case (Suc n)
    obtain v where v: "fetch32 mem (64 + 4 * n) = Returns v" using step [of n] Suc.prems by auto
    have split: "{i. i < Suc n \<and> fetch32 mem (64 + 4 * i) = Returns 32} =
      (if v = 32 then insert n {i. i < n \<and> fetch32 mem (64 + 4 * i) = Returns 32}
       else {i. i < n \<and> fetch32 mem (64 + 4 * i) = Returns 32})"
      using v by (auto simp: less_Suc_eq)
    show ?case
      using Suc v by (simp add: c_for_snoc CB_SIZE_def split)
  qed
  from this [of 16] show ?thesis by (simp add: main_results_def)
qed

lemma ex_setup_result:
  assumes "dma_buffer cxt = Some buff" and "rw_config cxt = Some rw" and "wf_rw rw" and "64 \<le> length mem"
  shows "\<exists>cxt'. ex_dma_read_setup cxt mem = Returns (cxt',
      concat (map le32 (cb_words (zero_cb\<lparr>cb_dest_addr := ucast (mm_bus buff) + 64\<rparr>))) @ drop 32 mem) \<and>
      \<not> pxldata cxt' \<and> panicr (dma_config cxt')"
    and "\<exists>cxt'. ex_dma_write_setup cxt mem = Returns (cxt',
      concat (map le32 (cb_words (zero_cb\<lparr>cb_src_addr := ucast (mm_bus buff) + 32\<rparr>)))
        @ [0x54, 0x65, 0x73, 0x74, 0] @ drop 37 mem) \<and>
      \<not> pxldata cxt' \<and> panicw (dma_config cxt')"
proof -
  let ?rw = "rw\<lparr>read_device_num := SMI_DEVICE1\<rparr>"
  have set: "set_config0 f g (cxt\<lparr>rw_config := Some ?rw\<rparr>) = Returns (cxt\<lparr>rw_config := Some ?rw, rw_config := Some (?rw\<lparr>
      rconfig := (rconfig ?rw)[0 := f (rconfig ?rw ! 0)], wconfig := (wconfig ?rw)[0 := g (wconfig ?rw ! 0)]\<rparr>)\<rparr>)" for f g
    using assms(3) by (intro set_config0_result) (simp_all add: wf_rw_def)
  define clear :: "u8 list" where "clear = replicate 32 0 @ drop 32 mem"
  have clear: "store mem 0 (replicate 32 0) = Returns clear" "length clear = length mem"
    using assms(4) by (simp_all add: store_some overlay_def clear_def)
  have msg: "store clear 32 (map of_char ''Test'' @ [0]) =
      Returns (replicate 32 0 @ [0x54, 0x65, 0x73, 0x74, 0] @ drop 37 mem)"
    using assms(4) by (simp add: store_some clear_def overlay_def of_char_def)
  show "\<exists>cxt'. ex_dma_read_setup cxt mem = Returns (cxt',
      concat (map le32 (cb_words (zero_cb\<lparr>cb_dest_addr := ucast (mm_bus buff) + 64\<rparr>))) @ drop 32 mem) \<and>
      \<not> pxldata cxt' \<and> panicr (dma_config cxt')"
    using assms(1,2) clear(1) block_stores(2) [of "drop 32 mem" "ucast (mm_bus buff) + 64"]
      block_stores(5) [of _ 0]
    by (simp add: ex_dma_read_setup_def set Let_def mem_bus_addr_offset CB_SIZE_def block_bytes
        flip: clear_def) (simp add: le32_0 flip: replicate_add append_assoc)
  show "\<exists>cxt'. ex_dma_write_setup cxt mem = Returns (cxt',
      concat (map le32 (cb_words (zero_cb\<lparr>cb_src_addr := ucast (mm_bus buff) + 32\<rparr>)))
        @ [0x54, 0x65, 0x73, 0x74, 0] @ drop 37 mem) \<and>
      \<not> pxldata cxt' \<and> panicw (dma_config cxt')"
    using assms(1,2) clear(1) msg block_stores(1) [of "[0x54, 0x65, 0x73, 0x74, 0] @ drop 37 mem"]
      block_stores(4) [of _ 0]
    by (simp add: ex_dma_write_setup_def set Let_def mem_bus_addr_offset CB_SIZE_def block_bytes le32_0)
qed

section \<open>Properties\<close>

text \<open>
  \<^verbatim>\<open>main\<close> clears four times as much as it has mapped: with the \<^verbatim>\<open>DMA_BUFFER_SIZE\<close> bytes
  the library asks for, the preparation of the control block writes beyond the buffer; it is
  defined exactly for a mapped buffer of 4096 bytes or more.
\<close>
theorem main_clears_beyond_buffer:
  "(main_block m smi dm buff mem w \<noteq> Undefined \<longleftrightarrow> mm_virt buff \<noteq> 0 \<and> 4 * DMA_BUFFER_SIZE \<le> length mem) \<and>
   main_block m smi dm buff (replicate DMA_BUFFER_SIZE x) w = Undefined"
proof (cases "mm_virt buff = 0")
  case True
  then show ?thesis by (simp add: main_block_def)
next
  case False
  then show ?thesis using main_block_result [OF False, of m smi dm _ w] by (simp add: DMA_BUFFER_SIZE_def)
qed

text \<open>
  C40: On a buffer of a page the preparation of \<^verbatim>\<open>main\<close> leaves at its start a control block whose source is the four
  words that follow it and whose destination lies 32 bytes further on, both as the controller sees
  them, and clears the rest of the page.
\<close>
theorem main_block_layout:
  assumes "mm_virt buff \<noteq> 0" and "4096 \<le> length mem"
  shows "\<exists>mem' w'. main_block m smi dm buff mem w = Returns (mem', w') \<and>
    load_cb mem' = Returns (zero_cb\<lparr>cb_src_addr := ucast (mm_bus buff) + 32,
      cb_dest_addr := ucast (mm_bus buff) + 64\<rparr>) \<and>
    drop 32 mem' = concat (map le32 [0xFFFF, 0, 0xFFFF, 0]) @ replicate 4048 0 @ drop 4096 mem"
proof -
  have "length (concat (map le32 (cb_words cb))) = 32" for cb by (simp add: cb_words_def)
  then show ?thesis
    using main_block_result [OF assms(1), of m smi dm mem w] assms(2) by (simp add: load_cb_bytes)
qed

theorem main_block_layout_witness:
  "\<exists>mem' w'. main_block ram0 (sample_map 0x1000) (sample_map 0x10000) (sample_map 0x4000) (replicate 4096 9)
     (ram_world (\<lambda>_. 0)) = Returns (mem', w') \<and>
     drop 32 mem' = concat (map le32 [0xFFFF, 0, 0xFFFF, 0]) @ replicate 4048 0"
proof -
  have "mm_virt (sample_map 0x4000) \<noteq> 0" by (simp add: sample_map_def)
  from main_block_layout [OF this, of "replicate 4096 9" ram0 "sample_map 0x1000" "sample_map 0x10000"
      "ram_world (\<lambda>_. 0)"]
  show ?thesis by auto
qed

text \<open>The count \<^verbatim>\<open>main\<close> reports is the number of received words that are 32.\<close>
theorem main_counts_matches:
  assumes "2 * CB_SIZE + 64 \<le> length mem"
  shows "main_results mem = Returns (card {i. i < 16 \<and> fetch32 mem (64 + 4 * i) = Returns 32})"
  using assms main_results_count by (simp add: CB_SIZE_def)

text \<open>
  In a reachable context with a DMA buffer both examples build their block, with the place of the
  data in the buffer as the controller sees it and the panic threshold 4 turned into 1,
  and then are undefined: they pass the address of the pointer to the context for the pointer.
\<close>
theorem examples_undefined:
  assumes "alloc_law m" and "cxt_run m mp cxt" and "dma_buffer cxt = Some buff" and "64 \<le> length mem"
  shows "(\<exists>cxt'. ex_dma_read_setup cxt mem = Returns (cxt',
        concat (map le32 (cb_words (zero_cb\<lparr>cb_dest_addr := ucast (mm_bus buff) + 64\<rparr>))) @ drop 32 mem) \<and>
        panicr (dma_config cxt')) \<and>
    (\<exists>cxt'. ex_dma_write_setup cxt mem = Returns (cxt',
        concat (map le32 (cb_words (zero_cb\<lparr>cb_src_addr := ucast (mm_bus buff) + 32\<rparr>)))
          @ [0x54, 0x65, 0x73, 0x74, 0] @ drop 37 mem) \<and> panicw (dma_config cxt')) \<and>
    smi_ex_dma_read cxt mem = Undefined \<and> smi_ex_dma_write cxt mem = Undefined"
proof -
  obtain rw where "rw_config cxt = Some rw" "wf_rw rw"
    using cxt_run_ready [OF assms(1,2)] by (auto simp: ready_def wf_cxt_def split_beta)
  from ex_setup_result [OF assms(3) this assms(4)] show ?thesis
    by (auto simp: smi_ex_dma_read_def smi_ex_dma_write_def)
qed

text \<open>
  \<^verbatim>\<open>main\<close> never gets past its first \<^verbatim>\<open>smi_sync_context_device\<close> with defined behaviour: either a
  mapping fails and the process exits, or the clock generator never settles, or the missing
  return value of \<^verbatim>\<open>smi_configure_write_device\<close> is used.
\<close>
theorem main_never_starts:
  assumes "wf_rw (l_rw l)"
  shows "main_program m fuel l mem moved w \<in> {None, Some OutOfFuel, Some Undefined}"
proof -
  let ?rw = "(l_rw l)\<lparr>read_device_num := 0, write_device_num := 0,
    rconfig := (rconfig (l_rw l))[0 := main_rconfig (l_rconfig l)],
    wconfig := (wconfig (l_rw l))[0 := main_wconfig (l_wconfig l)], clk := Some (l_ck l)\<rparr>"
  have "smi_init_rw_config c (l_rw l) (Some (l_ck l)) (main_rconfig (l_rconfig l)) (main_wconfig (l_wconfig l)) 0 0
      = Returns (c\<lparr>rw_config := Some ?rw\<rparr>)" for c
    using assms by (auto simp: smi_init_rw_config_def wf_rw_def Let_def)
  moreover have "smi_sync_context_device m (c\<lparr>rw_config := Some ?rw\<rparr>) v = Undefined" for c v
    by (cases "smi_regs c") (auto simp: smi_sync_context_device_def smi_configure_write_device_def
        fetch_def Let_def)
  moreover have "obind r (\<lambda>_. Undefined) \<in> {OutOfFuel, Undefined :: (int \<times> nat \<times> 'a world) outcome}"
    for r :: "'a world outcome" by (cases r) simp_all
  ultimately show ?thesis
    by (auto simp: main_program_def main_setup_def obind_assoc split: option.splits prod.splits)
qed

definition sample_locals :: main_locals where
  "sample_locals = \<lparr>l_cxt = sample_cxt 0 False False True, l_smi = sample_map 0, l_clk = sample_map 0,
     l_gpio = sample_map 0, l_dma = sample_map 0, l_buffer = sample_map 0, l_rw = sample_rw 0 False False,
     l_ck = \<lparr>clk_device_num = 0, clk_rsetup = 0, clk_rhold = 0, clk_rstrobe = 0, clk_rpace = 0,
       clk_wsetup = 0, clk_whold = 0, clk_wstrobe = 0, clk_wpace = 0\<rparr>,
     l_rconfig = sample_read 0, l_wconfig = sample_write False False, l_ret = replicate 12 0,
     at_gpio = 1, at_dma = 2, at_smi = 3, at_clk = 4, at_buffer = 5\<rparr>"

theorem main_never_starts_witness:
  "main_program (chip_machine (sample_map 0x1000)) 9 sample_locals (replicate 1024 0) (\<lambda>mem. mem) blank_chip
     \<in> {None, Some OutOfFuel, Some Undefined}"
  by (rule main_never_starts) (simp add: sample_locals_def)

end
