(* ===== verification/Smi_Shared.thy ===== *)
theory Smi_Shared
  imports Smi_Dma_Transfer Smi_Irq
begin

unbundle bit_operations_syntax

text \<open>
  The library and the interrupt module at work on one control register. Both map the peripheral and
  update \<^verbatim>\<open>SMICS\<close> without knowing of each other: the library by read-modify-write of its members,
  the handler by storing the done bit alone. \<open>control_register\<close> is what they rely on of the
  register: it can be reached at several addresses, its settings hold what is stored to them,
  and storing 1 to the done bit clears it.
\<close>

section \<open>The control register\<close>

definition cs_settings :: "field list" where
  "cs_settings = [CS_enable, CS_write, CS_pad, CS_intd, CS_intt, CS_intr, CS_pvmode, CS_pxldat, CS_prdy]"

definition control_register :: "'h machine \<Rightarrow> ('h \<Rightarrow> u32) \<Rightarrow> uintptr set \<Rightarrow> bool" where
  "control_register m val A \<longleftrightarrow> (\<forall>a \<in> A. \<forall>h. fst (m_ld m a h) = val h \<and> val (snd (m_ld m a h)) = val h \<and>
     (\<forall>v. bf_get CS_done (val (m_st m a v h)) = (if bf_get CS_done v = 0 then bf_get CS_done (val h) else 0) \<and>
        (\<forall>f \<in> set cs_settings. bf_get f (val (m_st m a v h)) = bf_get f v)))"

abbreviation cs_now :: "('h \<Rightarrow> u32) \<Rightarrow> 'h world \<Rightarrow> u32" where
  "cs_now val w \<equiv> val (hw w)"

lemma control_register_ld:
  assumes "control_register m val A" and "a \<in> A"
  shows "fst (ld32 m a w) = cs_now val w" and "cs_now val (snd (ld32 m a w)) = cs_now val w"
  using assms by (simp_all add: control_register_def ld32_def split_beta Let_def)

lemma control_register_st:
  assumes "control_register m val A" and "a \<in> A"
  shows "bf_get CS_done (cs_now val (st32 m a v w)) = (if bf_get CS_done v = 0 then bf_get CS_done (cs_now val w) else 0)"
    and "f \<in> set cs_settings \<Longrightarrow> bf_get f (cs_now val (st32 m a v w)) = bf_get f v"
  using assms by (simp_all add: control_register_def st32_def)

text \<open>An assignment to a member, seen in the settings, and in the done bit.\<close>

lemma control_register_fset:
  assumes "control_register m val A" and "a \<in> A"
  shows "f \<in> set cs_settings \<Longrightarrow> bf_get f (cs_now val (fset m a g x w)) = bf_get f (bf_set g x (cs_now val w))"
    and "fld_apart CS_done g \<Longrightarrow> bf_get CS_done (cs_now val (fset m a g x w)) = 0"
  using control_register_ld [OF assms] control_register_st [OF assms]
  by (simp_all add: fset_def split_beta bf_get_set_apart)

text \<open>So a run of assignments to other members always clears the done bit.\<close>

lemma control_register_fsets_done:
  assumes "control_register m val A" and "a \<in> A"
    and "\<And>g. g \<in> fst ` set xs \<Longrightarrow> fld_apart CS_done g" and "xs \<noteq> []"
  shows "bf_get CS_done (cs_now val (fsets m a xs w)) = 0"
  using assms(3,4)
proof (induction xs arbitrary: w)
  case Nil
  then show ?case by simp
next
  case (Cons c xs)
  obtain g x where c: "c = (g, x)" by fastforce
  show ?case
  proof (cases "xs = []")
    case True
    then show ?thesis using Cons.prems(1) control_register_fset(2) [OF assms(1,2), of g x w] by (simp add: c)
  next
    case False
    then show ?thesis using Cons by (simp add: c)
  qed
qed

lemma control_register_fsets:
  assumes "control_register m val A" and "a \<in> A"
    and "sorted_wrt fld_apart (map fst xs)" and "(f, x) \<in> set xs" and "fld_ok f" and "f \<in> set cs_settings"
  shows "bf_get f (cs_now val (fsets m a xs w)) = bf_trunc f x"
proof -
  have other: "bf_get f (cs_now val (fsets m a ys w)) = bf_get f (cs_now val w)"
    if "\<And>g. g \<in> fst ` set ys \<Longrightarrow> fld_apart f g" for ys w
    using that
  proof (induction ys arbitrary: w)
    case (Cons c ys)
    then show ?case
      by (cases c) (simp add: control_register_fset(1) [OF assms(1,2,6)] bf_get_set_apart)
  qed simp
  show ?thesis
    using assms(3,4)
  proof (induction xs arbitrary: w)
    case Nil
    then show ?case by simp
  next
    case (Cons c xs)
    show ?case
    proof (cases "(f, x) \<in> set xs")
      case True
      with Cons show ?thesis by (cases c) simp
    next
      case False
      with Cons.prems have c: "c = (f, x)" by auto
      with Cons.prems have "\<And>g. g \<in> fst ` set xs \<Longrightarrow> fld_apart f g" by auto
      from other [OF this] show ?thesis
        by (simp add: c control_register_fset(1) [OF assms(1,2,6)] bf_get_set [OF assms(5)])
    qed
  qed
qed

lemma read_setup_apart:
  "sorted_wrt fld_apart (map fst (programmed_read_setup cxt))"
  "g \<in> fst ` set (programmed_read_setup cxt) \<Longrightarrow> fld_apart CS_done g"
  by (auto simp: programmed_read_setup_def fld_apart_def)

section \<open>The handler on it\<close>

lemma done_flag: "bf_get CS_done v = of_bool (bit v 1)"
  by (rule bit_word_eqI) (auto simp: bit_field_simps bit_1_iff)

lemma done_mask:
  "bf_get CS_done (v AND SMIO_CS_DONE) = bf_get CS_done v"
  "v AND SMIO_CS_DONE = 0 \<longleftrightarrow> bf_get CS_done v = 0"
  "f \<in> set cs_settings \<Longrightarrow> bf_get f (v AND SMIO_CS_DONE) = 0"
proof -
  have d: "bit SMIO_CS_DONE n \<longleftrightarrow> n = 1" for n
    by (auto simp: SMIO_CS_DONE_def bit_simps)
  show "bf_get CS_done (v AND SMIO_CS_DONE) = bf_get CS_done v"
    unfolding done_flag by (simp add: bit_and_iff d)
  have "v AND SMIO_CS_DONE = 0 \<longleftrightarrow> \<not> bit v 1"
  proof
    assume "v AND SMIO_CS_DONE = 0"
    then have "bit (v AND SMIO_CS_DONE) 1 = bit (0 :: u32) 1" by simp
    then show "\<not> bit v 1" by (simp add: bit_and_iff d del: One_nat_def)
  next
    assume "\<not> bit v 1"
    then show "v AND SMIO_CS_DONE = 0" by (intro bit_word_eqI) (auto simp: bit_and_iff d)
  qed
  then show "v AND SMIO_CS_DONE = 0 \<longleftrightarrow> bf_get CS_done v = 0"
    unfolding done_flag by simp
  show "f \<in> set cs_settings \<Longrightarrow> bf_get f (v AND SMIO_CS_DONE) = 0"
    by (rule bit_word_eqI) (auto simp: cs_settings_def bit_field_simps bit_and_iff d)
qed

lemma smi_handler_pass:
  assumes "control_register m val A" and "smi_base \<in> A" and flag: "bf_get CS_done (cs_now val (dev s)) \<noteq> 0"
  shows "\<exists>s'. irq_exec m smi_base [Handler Entry, Handler (Loaded (cs_now val (dev s))), Handler Cleared, Handler Counted]
      (s\<lparr>handler := Some Entry\<rparr>) = Some s' \<and> irq_count s' = atomic_inc (irq_count s) \<and> handler s' = None \<and>
    (\<forall>f \<in> set cs_settings. bf_get f (cs_now val (dev s')) = 0) \<and> bf_get CS_done (cs_now val (dev s')) = 0"
proof -
  define v where "v = cs_now val (dev s)"
  define w1 where "w1 = snd (ld32 m smi_base (dev s))"
  have ld: "ld32 m smi_base (dev s) = (v, w1)"
    using control_register_ld(1) [OF assms(1,2)] by (simp add: v_def w1_def prod_eq_iff)
  let ?w2 = "st32 m smi_base (v AND SMIO_CS_DONE) w1"
  have v: "v AND SMIO_CS_DONE \<noteq> 0" using assms(3) by (simp add: done_mask v_def)
  have "irq_exec m smi_base [Handler Entry, Handler (Loaded v), Handler Cleared, Handler Counted]
      (s\<lparr>handler := Some Entry\<rparr>) = Some (s\<lparr>dev := ?w2, irq_count := atomic_inc (irq_count s),
        readers := wake_up_interruptible (readers s), handler := None\<rparr>)"
    using v by (simp add: irq_exec_def irq_next_def smi_handler_def ld)
  moreover have "\<forall>f \<in> set cs_settings. bf_get f (cs_now val ?w2) = 0"
    using control_register_st(2) [OF assms(1,2)] by (simp add: done_mask)
  moreover have "bf_get CS_done (cs_now val ?w2) = 0"
    using control_register_st(1) [OF assms(1,2), of "v AND SMIO_CS_DONE" w1] assms(3)
    by (simp add: done_mask v_def del: One_nat_def)
  ultimately show ?thesis unfolding v_def [symmetric] by (simp del: One_nat_def)
qed

section \<open>A register like that\<close>

definition shared_machine :: "u32 machine" where
  "shared_machine =
     \<lparr>m_ld = \<lambda>a h. (h, h), m_st = \<lambda>a v h. (v AND NOT SMIO_CS_DONE) OR (h AND NOT v AND SMIO_CS_DONE),
      m_clock = \<lambda>h. (\<lparr>tv_sec = 0, tv_nsec = 0\<rparr>, h), m_yield = \<lambda>h. h, m_sched = \<lambda>h. h,
      m_nanosleep = \<lambda>ts h. h, m_sleep = \<lambda>s h. h, m_realloc = \<lambda>n buf h. (None, h),
      m_sys = \<lambda>c h. (0, h)\<rparr>"

lemma shared_control_register: "control_register shared_machine (\<lambda>h. h) A"
proof -
  have d: "bit SMIO_CS_DONE n \<longleftrightarrow> n = 1" for n
    by (auto simp: SMIO_CS_DONE_def bit_simps)
  have "bf_get CS_done ((v AND NOT SMIO_CS_DONE) OR (h AND NOT v AND SMIO_CS_DONE)) =
      (if bf_get CS_done v = 0 then bf_get CS_done h else 0)" for v h
    unfolding done_flag by (simp add: bit_and_iff bit_or_iff bit_not_iff d)
  moreover have "bf_get f ((v AND NOT SMIO_CS_DONE) OR (h AND NOT v AND SMIO_CS_DONE)) = bf_get f v"
    if "f \<in> set cs_settings" for f v h
    using that by (intro bit_word_eqI)
      (auto simp: cs_settings_def bit_field_simps bit_and_iff bit_or_iff bit_not_iff d)
  ultimately show ?thesis by (simp add: control_register_def shared_machine_def)
qed

section \<open>Properties\<close>

text \<open>
  C10: The handler undoes the set-up of a transfer. The set-up of a programmed read enables the
  interface and its interrupts as configured; when the done flag then comes up and the handler
  runs, it counts the interrupt and acknowledges it, and leaves every setting of the control register
  zero: the interface is disabled, packing is off and no further interrupt is enabled.
\<close>
theorem handler_undoes_setup:
  assumes law: "control_register m val A" and "REG32 regs SMIO_CS \<in> A" and "smi_base \<in> A"
    and prepared: "w1 = fsets m (REG32 regs SMIO_CS) (programmed_read_setup cxt) w"
    and finished: "\<forall>f \<in> set cs_settings. bf_get f (cs_now val (dev s)) = bf_get f (cs_now val w1)"
      "bf_get CS_done (cs_now val (dev s)) \<noteq> 0"
  shows "bf_get CS_enable (cs_now val (dev s)) = 1 \<and> bf_get CS_intd (cs_now val (dev s)) = bool32 (intd cxt) \<and>
    bf_get CS_pxldat (cs_now val (dev s)) = bool32 (pxldata cxt) \<and>
    (\<exists>s'. irq_exec m smi_base [Handler Entry, Handler (Loaded (cs_now val (dev s))), Handler Cleared, Handler Counted]
        (s\<lparr>handler := Some Entry\<rparr>) = Some s' \<and> irq_count s' = atomic_inc (irq_count s) \<and>
      bf_get CS_done (cs_now val (dev s')) = 0 \<and>
      (\<forall>f \<in> set cs_settings. bf_get f (cs_now val (dev s')) = 0))"
proof -
  have set: "bf_get f (cs_now val (dev s)) = bf_trunc f x"
    if "(f, x) \<in> set (programmed_read_setup cxt)" and "fld_ok f" and "f \<in> set cs_settings" for f x
    using control_register_fsets [OF law assms(2) read_setup_apart(1) that] that(3) finished(1)
    by (simp add: prepared)
  have "bf_get CS_enable (cs_now val (dev s)) = 1" and "bf_get CS_intd (cs_now val (dev s)) = bool32 (intd cxt)"
    and "bf_get CS_pxldat (cs_now val (dev s)) = bool32 (pxldata cxt)"
    using set [of CS_enable 1] set [of CS_intd "bool32 (intd cxt)"] set [of CS_pxldat "bool32 (pxldata cxt)"]
    by (simp_all add: programmed_read_setup_def cs_settings_def fld_ok_def bf_trunc_def)
  then show ?thesis using smi_handler_pass [OF law assms(3) finished(2)] by blast
qed

text \<open>
  C11: The library can swallow an interrupt. If the done flag is up when the library starts a transfer or
  sets up a programmed read, its read-modify-write stores the flag back and so clears it; the
  handler, entered for that interrupt, then finds no flag and neither counts nor acknowledges
  anything, and nobody is woken.
\<close>
theorem library_swallows_interrupt:
  assumes law: "control_register m val A" and "REG32 regs SMIO_CS \<in> A" and "smi_base \<in> A"
    and "smi_regs cxt = Some regs"
    and w': "smi_start m cxt w = Returns w' \<or> w' = fsets m (REG32 regs SMIO_CS) (programmed_read_setup cxt) w"
    and "handler s = Some Entry" and "dev s = w'" and "irq_step m smi_base s (Handler Entry) s'"
  shows "bf_get CS_done (cs_now val w') = 0 \<and> handler s' = None \<and> irq_count s' = irq_count s \<and>
    readers s' = readers s \<and> stores (log (dev s')) = stores (log w')"
proof -
  have "w' = fsets m (REG32 regs SMIO_CS) [(CS_start, 1)] w \<or>
      w' = fsets m (REG32 regs SMIO_CS) (programmed_read_setup cxt) w"
    using w' assms(4) by (auto simp: smi_start_def)
  moreover have "bf_get CS_done (cs_now val (fsets m (REG32 regs SMIO_CS) (programmed_read_setup cxt) w)) = 0"
    by (rule control_register_fsets_done [OF law assms(2) read_setup_apart(2)])
      (assumption, simp add: programmed_read_setup_def)
  moreover have "bf_get CS_done (cs_now val (fsets m (REG32 regs SMIO_CS) [(CS_start, 1)] w)) = 0"
    by (rule control_register_fsets_done [OF law assms(2)]) (simp_all add: fld_apart_def)
  ultimately have gone: "bf_get CS_done (cs_now val w') = 0" by blast
  then have "fst (ld32 m smi_base w') AND SMIO_CS_DONE = 0"
    using control_register_ld(1) [OF law assms(3)] by (simp add: done_mask)
  then show ?thesis
    using assms(6-8) gone by (auto simp: irq_step_simps smi_handler_def split_beta Let_def)
qed

definition finished_state :: "u32 irq_state" where
  "finished_state = irq_init 1 \<lparr>hw = bf_set CS_done 1 (hw (fsets shared_machine (REG32 (sample_map 0x1000) SMIO_CS)
     (programmed_read_setup (sample_cxt 0 False False True)) \<lparr>hw = 0, log = []\<rparr>)), log = []\<rparr>"

theorem handler_undoes_setup_witness:
  "bf_get CS_enable (hw (dev finished_state)) = 1 \<and>
   (\<exists>tr s'. irq_exec shared_machine 0x2000 tr (finished_state\<lparr>handler := Some Entry\<rparr>) = Some s' \<and>
      irq_count s' = 1 \<and> bf_get CS_enable (hw (dev s')) = 0)"
proof -
  have fields: "bf_get f (cs_now (\<lambda>h. h) (dev finished_state)) = bf_get f (cs_now (\<lambda>h. h)
      (fsets shared_machine (REG32 (sample_map 0x1000) SMIO_CS)
        (programmed_read_setup (sample_cxt 0 False False True)) \<lparr>hw = 0, log = []\<rparr>))"
    if "f \<in> set cs_settings" for f
    using that by (auto simp: finished_state_def irq_init_def cs_settings_def fld_apart_def
        intro!: bf_get_set_apart)
  have "bf_get CS_done (cs_now (\<lambda>h. h) (dev finished_state)) \<noteq> 0"
    by (simp add: finished_state_def irq_init_def bf_get_set fld_ok_def bf_trunc_def)
  from handler_undoes_setup [OF shared_control_register [of UNIV] UNIV_I UNIV_I refl _ this, where smi_base = "0x2000"
      and regs = "sample_map 0x1000" and cxt = "sample_cxt 0 False False True" and w = "\<lparr>hw = 0, log = []\<rparr>"] fields
  have enabled: "bf_get CS_enable (hw (dev finished_state)) = 1"
    and "\<exists>tr s'. irq_exec shared_machine 0x2000 tr (finished_state\<lparr>handler := Some Entry\<rparr>) = Some s' \<and>
      irq_count s' = atomic_inc (irq_count finished_state) \<and> (\<forall>f \<in> set cs_settings. bf_get f (hw (dev s')) = 0)"
    by blast+
  moreover have "irq_count finished_state = 0" by (simp add: finished_state_def irq_init_def)
  moreover have "CS_enable \<in> set cs_settings" by (simp add: cs_settings_def)
  ultimately show ?thesis by (auto simp: atomic_inc_def)
qed

theorem library_swallows_interrupt_witness:
  "\<exists>w'. smi_start shared_machine (sample_cxt 0 False False True) \<lparr>hw = 2, log = []\<rparr> = Returns w' \<and>
     irq_exec shared_machine 0x2000 [Handler Entry]
       ((irq_init 1 w')\<lparr>handler := Some Entry\<rparr>) \<noteq> None \<and> bf_get CS_done (hw w') = 0"
proof -
  let ?s = "\<lambda>w. (irq_init 1 w)\<lparr>handler := Some Entry\<rparr>"
  obtain w' where run: "smi_start shared_machine (sample_cxt 0 False False True) \<lparr>hw = 2, log = []\<rparr> = Returns w'"
    by (simp add: smi_start_def)
  have step: "irq_step shared_machine 0x2000 (?s w') (Handler Entry) (smi_handler shared_machine 0x2000 Entry (?s w'))"
    by (simp add: irq_step_simps)
  have "bf_get CS_done (hw w') = 0"
    using library_swallows_interrupt [OF shared_control_register [of UNIV] UNIV_I UNIV_I _ disjI1 [OF run] _ _ step]
    by (simp add: irq_init_def)
  with run show ?thesis by (simp add: irq_exec_def irq_next_def)
qed

end
