(* ===== verification/Smi_Lite_Types.thy ===== *)
theory Smi_Lite_Types
  imports Smi_Flags Smi_Timeout
begin

unbundle bit_operations_syntax

text \<open>
  The types and constants of \<^verbatim>\<open>smilite.h\<close>. Its structs have the members of those in \<^verbatim>\<open>smi.h\<close>,
  \<^verbatim>\<open>gpio.h\<close> and \<^verbatim>\<open>dma.h\<close>, in the same order and with the same types, so they are the same records;
  its macros are written out, and shown to be those of the library. The base of the
  peripherals is not fixed by the header (\<^verbatim>\<open>PHYS_REG_BASE\<close> must be defined by its user): it is an
  argument.
\<close>

section \<open>Structs\<close>

type_synonym lite_MEM_MAP = MEM_MAP
type_synonym lite_SMI_CLK = SMI_CLK
type_synonym lite_SMI_READ = SMI_READ
type_synonym lite_SMI_WRITE = SMI_WRITE
type_synonym lite_SMI_RW = SMI_RW
type_synonym lite_SMI_DMA = SMI_DMA
type_synonym lite_SMI_RAW_BUF = SMI_RAW_BUF
type_synonym lite_SMI_CXT = SMI_CXT
type_synonym lite_smi_pack_ratio_t = smi_pack_ratio_t
type_synonym lite_DMA_CB = DMA_CB

text \<open>The unions of a register's struct and its value, and their alignment: 32 bytes for all of them.\<close>

type_synonym lite_SMI_CS = SMI_CS
type_synonym lite_SMI_L = SMI_L
type_synonym lite_SMI_A = SMI_A
type_synonym lite_SMI_D = SMI_D
type_synonym lite_SMI_DC = SMI_DC
type_synonym lite_SMI_DSR = SMI_DSR
type_synonym lite_SMI_DSW = SMI_DSW
type_synonym lite_SMI_DCS = SMI_DCS
type_synonym lite_SMI_DA = SMI_DA
type_synonym lite_SMI_DD = SMI_DD
type_synonym lite_SMI_FD = SMI_FD
type_synonym lite_DMA_CS = DMA_CS

section \<open>Offsets and constants\<close>

definition lite_SMI_BASE :: "uintptr \<Rightarrow> uintptr" where "lite_SMI_BASE phys_reg_base = phys_reg_base + 0x600000"
definition lite_SMIO_CS :: uintptr where "lite_SMIO_CS = 0x00"
definition lite_SMIO_L :: uintptr where "lite_SMIO_L = 0x04"
definition lite_SMIO_A :: uintptr where "lite_SMIO_A = 0x08"
definition lite_SMIO_D :: uintptr where "lite_SMIO_D = 0x0c"
definition lite_SMIO_DSR :: "u8 \<Rightarrow> uintptr" where "lite_SMIO_DSR dev = 0x10 + ucast dev * 0x08"
definition lite_SMIO_DSW :: "u8 \<Rightarrow> uintptr" where "lite_SMIO_DSW dev = lite_SMIO_DSR dev + 4"
definition lite_SMIO_DSR0 :: uintptr where "lite_SMIO_DSR0 = 0x10"
definition lite_SMIO_DSW0 :: uintptr where "lite_SMIO_DSW0 = 0x14"
definition lite_SMIO_DSR1 :: uintptr where "lite_SMIO_DSR1 = 0x18"
definition lite_SMIO_DSW1 :: uintptr where "lite_SMIO_DSW1 = 0x1c"
definition lite_SMIO_DSR2 :: uintptr where "lite_SMIO_DSR2 = 0x20"
definition lite_SMIO_DSW2 :: uintptr where "lite_SMIO_DSW2 = 0x24"
definition lite_SMIO_DSR3 :: uintptr where "lite_SMIO_DSR3 = 0x28"
definition lite_SMIO_DSW3 :: uintptr where "lite_SMIO_DSW3 = 0x2c"
definition lite_SMIO_DC :: uintptr where "lite_SMIO_DC = 0x30"
definition lite_SMIO_DCS :: uintptr where "lite_SMIO_DCS = 0x34"
definition lite_SMIO_DA :: uintptr where "lite_SMIO_DA = 0x38"
definition lite_SMIO_DD :: uintptr where "lite_SMIO_DD = 0x3c"
definition lite_SMIO_FD :: uintptr where "lite_SMIO_FD = 0x40"

text \<open>The offsets of a DMA channel's registers, \<^verbatim>\<open>DMAO_CS\<close> to \<^verbatim>\<open>DMAO_DEBUG\<close> in order.\<close>

definition lite_DMAO :: "uintptr list" where
  "lite_DMAO = [0x0, 0x4, 0x8, 0xC, 0x10, 0x14, 0x18, 0x1C, 0x20]"

text \<open>Widths (8, 16, 18 and 9 bits), formats (RGB565, XRGB) and devices, in the order of the header.\<close>

definition lite_widths :: "u8 list" where "lite_widths = [0, 1, 2, 3]"
definition lite_formats :: "bool list" where "lite_formats = [False, True]"
definition lite_devices :: "u8 list" where "lite_devices = [0, 1, 2, 3]"

definition lite_DIRECT_READ_TIMEOUT_S :: int where "lite_DIRECT_READ_TIMEOUT_S = 2"
definition lite_DIRECT_WRITE_TIMEOUT_S :: int where "lite_DIRECT_WRITE_TIMEOUT_S = 15"
definition lite_DMA_WRITE_TIMEOUT_S :: int where "lite_DMA_WRITE_TIMEOUT_S = 2"
definition lite_PROG_READ_TIMEOUT_S :: int where "lite_PROG_READ_TIMEOUT_S = 50"
definition lite_PROG_WRITE_TIMEOUT_S :: int where "lite_PROG_WRITE_TIMEOUT_S = 50"

section \<open>Address macros\<close>

definition lite_REG32 :: "MEM_MAP \<Rightarrow> uintptr \<Rightarrow> uintptr" where
  "lite_REG32 mp x = mm_virt mp + x"

definition lite_REG32_BUS :: "MEM_MAP \<Rightarrow> uintptr \<Rightarrow> uintptr" where
  "lite_REG32_BUS mp x = mm_bus mp + 4 * ucast (ucast x :: u32)"

definition lite_REG_BUS_ADDR :: "MEM_MAP \<Rightarrow> uintptr \<Rightarrow> u32" where
  "lite_REG_BUS_ADDR mp x = ucast (mm_bus mp) + ucast x"

definition lite_MEM_BUS_ADDR :: "MEM_MAP \<Rightarrow> uintptr \<Rightarrow> u32" where
  "lite_MEM_BUS_ADDR mp a = ucast a - ucast (mm_virt mp) + ucast (mm_bus mp)"

definition lite_PAGE_SIZE :: u32 where "lite_PAGE_SIZE = 0x1000"

definition lite_PAGE_ROUNDUP :: "u32 \<Rightarrow> u32" where
  "lite_PAGE_ROUNDUP n =
     (if n mod lite_PAGE_SIZE = 0 then n else (n + lite_PAGE_SIZE) AND NOT (lite_PAGE_SIZE - 1))"

lemmas lite_constant_defs =
  lite_SMI_BASE_def lite_SMIO_CS_def lite_SMIO_L_def lite_SMIO_A_def lite_SMIO_D_def lite_SMIO_DSR_def
  lite_SMIO_DSW_def lite_SMIO_DSR0_def lite_SMIO_DSW0_def lite_SMIO_DSR1_def lite_SMIO_DSW1_def
  lite_SMIO_DSR2_def lite_SMIO_DSW2_def lite_SMIO_DSR3_def lite_SMIO_DSW3_def lite_SMIO_DC_def
  lite_SMIO_DCS_def lite_SMIO_DA_def lite_SMIO_DD_def lite_SMIO_FD_def lite_DMAO_def lite_widths_def
  lite_formats_def lite_devices_def lite_DIRECT_READ_TIMEOUT_S_def lite_PROG_READ_TIMEOUT_S_def
  lite_PROG_WRITE_TIMEOUT_S_def lite_DIRECT_WRITE_TIMEOUT_S_def lite_DMA_WRITE_TIMEOUT_S_def lite_REG32_def lite_REG32_BUS_def lite_REG_BUS_ADDR_def
  lite_MEM_BUS_ADDR_def lite_PAGE_SIZE_def lite_PAGE_ROUNDUP_def

lemmas header_defs =
  SMI_BASE_def SMIO_DSR1_def SMIO_DSW1_def SMIO_DSR2_def SMIO_DSW2_def SMIO_DSR3_def SMIO_DSW3_def
  DMAO_CONBLK_AD_def DMAO_TI_def DMAO_SOURCE_AD_def DMA0_DEST_AD_def DMAO_TXFR_LEN_def DMAO_STRIDE_def
  DMAO_NEXTCONBK_def SMI_DEVICES_def DIRECT_READ_TIMEOUT_S_def PROG_READ_TIMEOUT_S_def
  PROG_WRITE_TIMEOUT_S_def DIRECT_WRITE_TIMEOUT_S_def DMA_WRITE_TIMEOUT_S_def REG32_def REG32_BUS_def REG_BUS_ADDR_def MEM_BUS_ADDR_def PAGE_SIZE_def
  PAGE_ROUNDUP_def

text \<open>
  With the base address of the library, the single header reaches the same registers with the same
  addresses, widths, formats, devices and timeouts as the library, and its pages are rounded alike.
\<close>
theorem lite_constants_agree:
  "lite_SMI_BASE PHYS_REG_BASE = SMI_BASE \<and>
   [lite_SMIO_CS, lite_SMIO_L, lite_SMIO_A, lite_SMIO_D, lite_SMIO_DC, lite_SMIO_DCS, lite_SMIO_DA, lite_SMIO_DD, lite_SMIO_FD]
     = [SMIO_CS, SMIO_L, SMIO_A, SMIO_D, SMIO_DC, SMIO_DCS, SMIO_DA, SMIO_DD, SMIO_FD] \<and>
   lite_SMIO_DSR = SMIO_DSR \<and> lite_SMIO_DSW = SMIO_DSW \<and>
   map SMIO_DSR lite_devices = [lite_SMIO_DSR0, lite_SMIO_DSR1, lite_SMIO_DSR2, lite_SMIO_DSR3] \<and>
   map SMIO_DSW lite_devices = [lite_SMIO_DSW0, lite_SMIO_DSW1, lite_SMIO_DSW2, lite_SMIO_DSW3] \<and>
   lite_DMAO = [DMAO_CS, DMAO_CONBLK_AD, DMAO_TI, DMAO_SOURCE_AD, DMA0_DEST_AD, DMAO_TXFR_LEN, DMAO_STRIDE,
     DMAO_NEXTCONBK, DMAO_DEBUG] \<and>
   lite_widths = [SMI_8_BITS, SMI_16_BITS, SMI_18_BITS, SMI_9_BITS] \<and> lite_formats = [SMI_RGB565, SMI_XRGB] \<and>
   lite_devices = SMI_DEVICES \<and> lite_DIRECT_READ_TIMEOUT_S = DIRECT_READ_TIMEOUT_S \<and>
   lite_PROG_READ_TIMEOUT_S = PROG_READ_TIMEOUT_S \<and> lite_PROG_WRITE_TIMEOUT_S = PROG_WRITE_TIMEOUT_S \<and>
   lite_DIRECT_WRITE_TIMEOUT_S = DIRECT_WRITE_TIMEOUT_S \<and> lite_DMA_WRITE_TIMEOUT_S = DMA_WRITE_TIMEOUT_S \<and>
   lite_REG32 = REG32 \<and> lite_REG_BUS_ADDR = REG_BUS_ADDR \<and> lite_REG32_BUS = REG32_BUS \<and>
   lite_MEM_BUS_ADDR = MEM_BUS_ADDR \<and> lite_PAGE_ROUNDUP = PAGE_ROUNDUP"
  by (simp add: lite_constant_defs offset_defs header_defs fun_eq_iff)

text \<open>
  With every union aligned to 32 bytes, even the length, address, data and direct registers are used
  through pointers that are not aligned: on a mapped page only three registers are.
\<close>
theorem lite_misaligned:
  "[x \<leftarrow> [lite_SMIO_CS, lite_SMIO_L, lite_SMIO_A, lite_SMIO_D, lite_SMIO_DSR0, lite_SMIO_DSW0, lite_SMIO_DSR1,
      lite_SMIO_DSW1, lite_SMIO_DSR2, lite_SMIO_DSW2, lite_SMIO_DSR3, lite_SMIO_DSW3, lite_SMIO_DC, lite_SMIO_DCS,
      lite_SMIO_DA, lite_SMIO_DD, lite_SMIO_FD]. unat x mod 32 = 0]
   = [lite_SMIO_CS, lite_SMIO_DSR2, lite_SMIO_FD]"
  by (simp add: lite_constant_defs)

end
