(* ===== verification/Smi_Stats.thy ===== *)
theory Smi_Stats
  imports Complex_Main Smi_Sram
begin

text \<open>
  What the benchmarks of \<^verbatim>\<open>sram.c\<close> compute from the times they measure, and the load they put on the
  processor (\<^verbatim>\<open>cpu_load\<close>). A \<^verbatim>\<open>double\<close> is a real number, an infinity or not a number; an
  operation on finite numbers is the exact one, rounded by the parameter \<open>rnd\<close>, which may
  round to infinity. \<open>rounding_law\<close> is what is known of it; the sign of zero is left out, and
  no two operations are contracted to one. What is printed is the result.
\<close>

section \<open>Doubles\<close>

datatype double = Fin real | Inf bool | NaN

text \<open>\<open>Inf True\<close> is minus infinity.\<close>

fun d_neg :: "double \<Rightarrow> double" where
  "d_neg (Fin x) = Fin (- x)"
| "d_neg (Inf s) = Inf (\<not> s)"
| "d_neg NaN = NaN"

fun d_add :: "(real \<Rightarrow> double) \<Rightarrow> double \<Rightarrow> double \<Rightarrow> double" where
  "d_add rnd (Fin x) (Fin y) = rnd (x + y)"
| "d_add rnd (Inf s) (Inf t) = (if s = t then Inf s else NaN)"
| "d_add rnd (Inf s) (Fin y) = Inf s"
| "d_add rnd (Fin x) (Inf t) = Inf t"
| "d_add rnd _ _ = NaN"

definition d_sub :: "(real \<Rightarrow> double) \<Rightarrow> double \<Rightarrow> double \<Rightarrow> double" where
  "d_sub rnd x y = d_add rnd x (d_neg y)"

fun d_mul :: "(real \<Rightarrow> double) \<Rightarrow> double \<Rightarrow> double \<Rightarrow> double" where
  "d_mul rnd (Fin x) (Fin y) = rnd (x * y)"
| "d_mul rnd (Inf s) (Inf t) = Inf (s \<noteq> t)"
| "d_mul rnd (Inf s) (Fin y) = (if y = 0 then NaN else Inf (s \<noteq> (y < 0)))"
| "d_mul rnd (Fin x) (Inf t) = (if x = 0 then NaN else Inf ((x < 0) \<noteq> t))"
| "d_mul rnd _ _ = NaN"

fun d_div :: "(real \<Rightarrow> double) \<Rightarrow> double \<Rightarrow> double \<Rightarrow> double" where
  "d_div rnd (Fin x) (Fin y) = (if y \<noteq> 0 then rnd (x / y) else if x = 0 then NaN else Inf (x < 0))"
| "d_div rnd (Inf s) (Fin y) = Inf (s \<noteq> (y < 0))"
| "d_div rnd (Fin x) (Inf t) = Fin 0"
| "d_div rnd _ _ = NaN"

fun d_sqrt :: "(real \<Rightarrow> double) \<Rightarrow> double \<Rightarrow> double" where
  "d_sqrt rnd (Fin x) = (if x < 0 then NaN else rnd (sqrt x))"
| "d_sqrt rnd (Inf s) = (if s then NaN else Inf False)"
| "d_sqrt rnd NaN = NaN"

definition d_nonneg :: "double \<Rightarrow> bool" where
  "d_nonneg d \<longleftrightarrow> (\<exists>x \<ge> 0. d = Fin x) \<or> d = Inf False"

text \<open>
  Well within the range a number is rounded to a finite one, at most twice as large; rounding
  keeps the sign, and the integers a double can hold.
\<close>

definition rounding_law :: "(real \<Rightarrow> double) \<Rightarrow> bool" where
  "rounding_law rnd \<longleftrightarrow> (\<forall>x. \<bar>x\<bar> \<le> 2 ^ 1000 \<longrightarrow> (\<exists>y. rnd x = Fin y \<and> \<bar>y\<bar> \<le> 2 * \<bar>x\<bar>)) \<and>
     (\<forall>x \<ge> 0. d_nonneg (rnd x)) \<and> (\<forall>n. \<bar>n\<bar> \<le> 2 ^ 53 \<longrightarrow> rnd (of_int n) = Fin (of_int n))"

section \<open>The statistics\<close>

definition WIDTH :: int where "WIDTH = 8"
definition DEVICE :: string where "DEVICE = ''RPI3B+''"
definition METHOD :: string where "METHOD = ''SMI''"
definition PACK :: string where "PACK = ''RGB565''"
definition OPTIMISATION :: string where "OPTIMISATION = ''O3''"

definition std_dev :: "(real \<Rightarrow> double) \<Rightarrow> double \<Rightarrow> int list \<Rightarrow> double outcome" where
  "std_dev rnd average runs =
     obind (c_for 0 TEST_ITERATIONS (\<lambda>r sum_sq. obind (fetch runs r) (\<lambda>t.
         let run_sec = d_div rnd (rnd (of_int t)) (Fin 1000000000) in
         Returns (d_add rnd sum_sq (d_mul rnd (d_sub rnd run_sec average) (d_sub rnd run_sec average)))))
       (Fin 0))
     (\<lambda>sum_sq. Returns (d_sqrt rnd (d_div rnd sum_sq (rnd (real TEST_ITERATIONS)))))"

text \<open>A line of the file the block test writes.\<close>

record csv_row =
  csv_device :: string
  csv_optimisation :: string
  csv_method :: string
  csv_width :: int
  csv_pack :: string
  csv_block :: int
  csv_average :: double
  csv_stddev :: double
  csv_mbps :: double
  csv_mts :: double

definition block_stats :: "(real \<Rightarrow> double) \<Rightarrow> int \<times> int \<times> int list \<Rightarrow> csv_row outcome" where
  "block_stats rnd = (\<lambda>(block, total, runs).
     let seconds = d_div rnd (rnd (of_int total)) (Fin 1000000000);
         average = d_div rnd seconds (rnd (real TEST_ITERATIONS));
         transfers_per_sec = d_div rnd (rnd (of_int (uint ITERATIONS))) average;
         mbps = d_div rnd (d_mul rnd transfers_per_sec (d_div rnd (rnd (of_int WIDTH)) (Fin 8)))
                  (d_mul rnd (Fin 1024) (Fin 1024));
         mts = d_div rnd (d_div rnd (rnd (of_int (uint ITERATIONS))) average) (Fin 1000000) in
     obind (std_dev rnd average runs) (\<lambda>stddev.
     Returns \<lparr>csv_device = DEVICE, csv_optimisation = OPTIMISATION, csv_method = METHOD, csv_width = WIDTH,
       csv_pack = PACK, csv_block = block, csv_average = average, csv_stddev = stddev, csv_mbps = mbps,
       csv_mts = mts\<rparr>))"

text \<open>The file of the block test: a line for each block length, from its times.\<close>

definition block_test_file ::
  "(real \<Rightarrow> double) \<Rightarrow> 'h machine \<Rightarrow> nat \<Rightarrow> (nat \<Rightarrow> u8 list) \<Rightarrow> SMI_CXT \<Rightarrow> 'h world
     \<Rightarrow> (csv_row list \<times> SMI_CXT \<times> 'h world) outcome" where
  "block_test_file rnd m fuel junk cxt w =
     obind (megbyte_load_block_test m fuel junk cxt w) (\<lambda>(rows, cxt, w).
     obind (c_for 0 (length rows) (\<lambda>i out. obind (fetch rows i) (\<lambda>row.
         obind (block_stats rnd row) (\<lambda>line. Returns (out @ [line])))) [])
     (\<lambda>out. Returns (out, cxt, w)))"

text \<open>The thread test prints the average, the throughput in two units and the deviation.\<close>

definition thread_stats ::
  "(real \<Rightarrow> double) \<Rightarrow> int \<times> int \<times> int list \<Rightarrow> (double \<times> double \<times> double \<times> double) outcome" where
  "thread_stats rnd = (\<lambda>(threads, total, runs).
     let seconds = d_div rnd (rnd (of_int total)) (Fin 1000000000);
         average = d_div rnd seconds (rnd (real TEST_ITERATIONS));
         transfers_per_sec = d_div rnd (rnd (of_int (uint ITERATIONS))) average;
         mbps = d_div rnd (d_mul rnd transfers_per_sec (d_div rnd (Fin 8) (Fin 8))) (d_mul rnd (Fin 1024) (Fin 1024));
         mts = d_div rnd (d_div rnd (rnd (of_int (uint ITERATIONS))) average) (Fin 1000000) in
     obind (std_dev rnd average runs) (\<lambda>stddev. Returns (average, mbps, mts, stddev)))"

section \<open>The load\<close>

definition cpu_load_pass :: "(real \<Rightarrow> double) \<Rightarrow> double \<Rightarrow> double outcome" where
  "cpu_load_pass rnd x = c_for 0 1000000000 (\<lambda>i x. Returns (d_add rnd x (d_sqrt rnd (rnd (real i))))) x"

definition cpu_load :: "(real \<Rightarrow> double) \<Rightarrow> nat \<Rightarrow> unit outcome" where
  "cpu_load rnd fuel = loop fuel (\<lambda>x. ibind (cpu_load_pass rnd x) Again) (Fin 0)"

section \<open>Lemmas\<close>

lemma c_for_Returns: "\<exists>s'. c_for 0 n (\<lambda>i s. Returns (f i s)) s = Returns s'"
  by (induction n) (auto simp: c_for_snoc)

text \<open>\<open>d_within b d\<close>: a finite number of at most that magnitude.\<close>

definition d_within :: "real \<Rightarrow> double \<Rightarrow> bool" where
  "d_within b d \<longleftrightarrow> (\<exists>x. d = Fin x \<and> \<bar>x\<bar> \<le> b)"

lemma d_within_rnd:
  assumes "rounding_law rnd" and "\<bar>x\<bar> \<le> b" and "b \<le> 2 ^ 1000"
  shows "d_within (2 * b) (rnd x)"
proof -
  have "\<bar>x\<bar> \<le> 2 ^ 1000" using assms(2,3) by linarith
  then obtain y where "rnd x = Fin y" "\<bar>y\<bar> \<le> 2 * \<bar>x\<bar>" using assms(1) unfolding rounding_law_def by blast
  moreover from this have "\<bar>y\<bar> \<le> 2 * b" using assms(2) by linarith
  ultimately show ?thesis by (simp add: d_within_def)
qed

lemma d_within_rnd_nonneg:
  assumes "rounding_law rnd" and "0 \<le> x" and "x \<le> b" and "b \<le> 2 ^ 1000"
  shows "\<exists>y. rnd x = Fin y \<and> 0 \<le> y \<and> y \<le> 2 * b"
proof -
  have "\<bar>x\<bar> \<le> b" using assms(2,3) by simp
  from d_within_rnd [OF assms(1) this assms(4)] obtain y where "rnd x = Fin y" "\<bar>y\<bar> \<le> 2 * b"
    by (auto simp: d_within_def)
  moreover have "d_nonneg (rnd x)" using assms(1,2) unfolding rounding_law_def by blast
  ultimately show ?thesis by (auto simp: d_nonneg_def)
qed

lemma rnd_int: "rounding_law rnd \<Longrightarrow> \<bar>n\<bar> \<le> 2 ^ 53 \<Longrightarrow> rnd (of_int n) = Fin (of_int n)"
  by (simp add: rounding_law_def)

lemma d_nonneg_rnd: "rounding_law rnd \<Longrightarrow> 0 \<le> x \<Longrightarrow> d_nonneg (rnd x)"
  by (simp add: rounding_law_def)

lemma d_nonneg_cases:
  assumes "d_nonneg d"
  obtains x where "d = Fin x" "0 \<le> x" | "d = Inf False"
  using assms by (auto simp: d_nonneg_def)

lemma d_nonneg_Inf: "d_nonneg (Inf False)"
  by (simp add: d_nonneg_def)

lemma d_nonneg_div:
  assumes "rounding_law rnd" and "d_nonneg x" and "0 < c"
  shows "d_nonneg (d_div rnd x (Fin c))"
  using assms by (auto elim!: d_nonneg_cases simp: d_nonneg_rnd d_nonneg_Inf)

lemma d_nonneg_mul_1:
  assumes "rounding_law rnd" and "d_nonneg x"
  shows "d_nonneg (d_mul rnd x (Fin 1))"
  using assms by (auto elim!: d_nonneg_cases simp: d_nonneg_rnd d_nonneg_Inf)

lemma d_within_sub:
  assumes "rounding_law rnd" and "d_within a x" and "d_within b y" and "a + b \<le> 2 ^ 1000"
  shows "d_within (2 * (a + b)) (d_sub rnd x y)"
proof -
  obtain u v where "x = Fin u" "y = Fin v" "\<bar>u\<bar> \<le> a" "\<bar>v\<bar> \<le> b"
    using assms(2,3) by (auto simp: d_within_def)
  moreover from this have "\<bar>u - v\<bar> \<le> a + b" by linarith
  ultimately show ?thesis using d_within_rnd [OF assms(1) _ assms(4)] by (simp add: d_sub_def)
qed

lemma d_within_div:
  assumes "rounding_law rnd" and "d_within b x" and "1 \<le> c" and "b \<le> 2 ^ 1000"
  shows "d_within (2 * b) (d_div rnd x (Fin c))"
proof -
  obtain u where u: "x = Fin u" "\<bar>u\<bar> \<le> b" using assms(2) by (auto simp: d_within_def)
  have "\<bar>u / c\<bar> = \<bar>u\<bar> / c" using assms(3) by simp
  also have "\<dots> \<le> \<bar>u\<bar> / 1" using assms(3) by (intro divide_left_mono) simp_all
  finally have "\<bar>u / c\<bar> \<le> b" using u(2) by simp
  with u(1) assms(3) show ?thesis using d_within_rnd [OF assms(1) _ assms(4)] by simp
qed

lemma d_square_add:
  assumes "rounding_law rnd" and "d_within b d" and "0 \<le> s" and "s \<le> c"
    and "b * b \<le> 2 ^ 1000" and "c + 2 * (b * b) \<le> 2 ^ 1000"
  shows "\<exists>s'. d_add rnd (Fin s) (d_mul rnd d d) = Fin s' \<and> 0 \<le> s' \<and> s' \<le> 2 * (c + 2 * (b * b))"
proof -
  obtain x where x: "d = Fin x" "\<bar>x\<bar> \<le> b" using assms(2) by (auto simp: d_within_def)
  have "x * x \<le> b * b" using mult_mono [OF x(2) x(2)] x(2) by simp
  from d_within_rnd_nonneg [OF assms(1) _ this assms(5)]
  obtain y where y: "rnd (x * x) = Fin y" "0 \<le> y" "y \<le> 2 * (b * b)" by auto
  then have "0 \<le> s + y" and "s + y \<le> c + 2 * (b * b)" using assms(3,4) by simp_all
  from d_within_rnd_nonneg [OF assms(1) this assms(6)] show ?thesis by (simp add: x(1) y(1))
qed

lemma std_dev_number:
  assumes law: "rounding_law rnd" and "d_within (2 ^ 66) average" and "length runs = TEST_ITERATIONS"
    and "\<forall>t \<in> set runs. \<bar>t\<bar> \<le> 2 ^ 63"
  shows "\<exists>s. std_dev rnd average runs = Returns (Fin s) \<and> 0 \<le> s"
proof -
  define body where "body = (\<lambda>r sum_sq. obind (fetch runs r) (\<lambda>t.
      let run_sec = d_div rnd (rnd (of_int t)) (Fin 1000000000) in
      Returns (d_add rnd sum_sq (d_mul rnd (d_sub rnd run_sec average) (d_sub rnd run_sec average)))))"
  have "\<exists>s. c_for 0 n body (Fin 0) = Returns (Fin s) \<and> 0 \<le> s \<and> s \<le> 2 ^ (140 + 2 * n)"
    if "n \<le> TEST_ITERATIONS" for n
    using that
  proof (induction n)
    case (Suc n)
    then obtain s where s: "c_for 0 n body (Fin 0) = Returns (Fin s)" "0 \<le> s" "s \<le> 2 ^ (140 + 2 * n)" by auto
    have n: "n < length runs" "n \<le> 4" using Suc.prems assms(3) by (simp_all add: TEST_ITERATIONS_def)
    define run_sec where "run_sec = d_div rnd (rnd (of_int (runs ! n))) (Fin 1000000000)"
    have "\<bar>real_of_int (runs ! n)\<bar> \<le> 2 ^ 63"
      using assms(4) n(1) nth_mem by (metis of_int_abs of_int_le_iff of_int_numeral of_int_power)
    from d_within_div [OF law d_within_rnd [OF law this], of 1000000000]
    have "d_within (2 ^ 65) run_sec" by (simp add: run_sec_def)
    from d_within_sub [OF law this assms(2)]
    have "d_within (2 ^ 68) (d_sub rnd run_sec average)" by (auto simp: d_within_def)
    moreover have "(2 :: real) ^ (140 + 2 * n) + 2 * (2 ^ 68 * 2 ^ 68) \<le> 2 ^ 1000"
    proof -
      have "(2 :: real) ^ (140 + 2 * n) \<le> 2 ^ 148" using n(2) by (intro power_increasing) simp_all
      then show ?thesis by simp
    qed
    ultimately obtain s' where s': "0 \<le> s'" "s' \<le> 2 * (2 ^ (140 + 2 * n) + 2 * (2 ^ 68 * 2 ^ 68))"
      "d_add rnd (Fin s) (d_mul rnd (d_sub rnd run_sec average) (d_sub rnd run_sec average)) = Fin s'"
      using d_square_add [OF law _ s(2,3), of "2 ^ 68"] by auto
    have "2 * (2 ^ (140 + 2 * n) + 2 * (2 ^ 68 * 2 ^ 68)) \<le> (2 :: real) ^ (140 + 2 * Suc n)"
    proof -
      have "(2 :: real) ^ 140 \<le> 2 ^ (140 + 2 * n)" by (intro power_increasing) simp_all
      moreover have "(2 :: real) ^ (140 + 2 * Suc n) = 4 * 2 ^ (140 + 2 * n)" by (simp add: power_add)
      ultimately show ?thesis by simp
    qed
    with s'(2) have "s' \<le> 2 ^ (140 + 2 * Suc n)" by (rule order_trans)
    moreover have "body n (Fin s) = Returns (d_add rnd (Fin s)
        (d_mul rnd (d_sub rnd run_sec average) (d_sub rnd run_sec average)))"
      using n(1) by (simp add: body_def fetch_def run_sec_def Let_def)
    ultimately show ?case using s'(1,3) by (simp add: c_for_snoc s(1))
  qed simp
  from this [of TEST_ITERATIONS] obtain s where
    s: "c_for 0 TEST_ITERATIONS body (Fin 0) = Returns (Fin s)" "0 \<le> s" "s \<le> 2 ^ 150"
    by (auto simp: TEST_ITERATIONS_def)
  have five: "rnd 5 = Fin 5" using rnd_int [OF law, of 5] by simp
  obtain y where y: "rnd (s / 5) = Fin y" "0 \<le> y" "y \<le> 2 * 2 ^ 150"
    using d_within_rnd_nonneg [OF law, of "s / 5" "2 ^ 150"] s(2,3) by auto
  have "sqrt y \<le> y + 1" using y(2) by (intro real_le_lsqrt) (simp_all add: power2_eq_square algebra_simps)
  then obtain z where "rnd (sqrt y) = Fin z" "0 \<le> z"
    using d_within_rnd_nonneg [OF law, of "sqrt y" "2 * 2 ^ 150 + 1"] y(2,3) by auto
  then show ?thesis
    using s(1) y five by (simp add: std_dev_def TEST_ITERATIONS_def body_def)
qed

lemma std_dev_returns:
  assumes "length runs = TEST_ITERATIONS"
  shows "\<exists>d. std_dev rnd average runs = Returns d"
proof -
  have "\<exists>d. c_for 0 n (\<lambda>r sum_sq. obind (fetch runs r) (\<lambda>t. Returns (f t sum_sq))) d0 = Returns d"
    if "n \<le> length runs" for n f and d0 :: double
    using that by (induction n) (auto simp: c_for_snoc fetch_def)
  from this [of TEST_ITERATIONS "\<lambda>t sum_sq. let run_sec = d_div rnd (rnd (of_int t)) (Fin 1000000000) in
      d_add rnd sum_sq (d_mul rnd (d_sub rnd run_sec average) (d_sub rnd run_sec average))" "Fin 0"] assms
  show ?thesis by (auto simp: std_dev_def Let_def)
qed

lemma block_stats_returns:
  assumes "length runs = TEST_ITERATIONS"
  shows "\<exists>line. block_stats rnd (block, sum5, runs) = Returns line \<and> csv_block line = block"
proof -
  let ?average = "d_div rnd (d_div rnd (rnd (of_int sum5)) (Fin 1000000000)) (rnd (real TEST_ITERATIONS))"
  obtain d where "std_dev rnd ?average runs = Returns d" using std_dev_returns [OF assms] by blast
  then show ?thesis by (simp add: block_stats_def Let_def)
qed

lemma file_lines:
  assumes "\<forall>(block, sum5, runs) \<in> set rows. length runs = TEST_ITERATIONS" and "n \<le> length rows"
  shows "\<exists>out. c_for 0 n (\<lambda>i out. obind (fetch rows i) (\<lambda>row.
      obind (block_stats rnd row) (\<lambda>line. Returns (out @ [line])))) [] = Returns out \<and>
    map csv_block out = map fst (take n rows)"
  using assms(2)
proof (induction n)
  case (Suc n)
  obtain block sum5 runs where row: "rows ! n = (block, sum5, runs)" by (metis prod_cases3)
  have "rows ! n \<in> set rows" using Suc.prems by simp
  then have "length runs = TEST_ITERATIONS" using assms(1) row by auto
  from block_stats_returns [OF this, of rnd block sum5] Suc row show ?case
    by (auto simp: c_for_snoc fetch_def take_Suc_conv_app_nth)
qed simp

section \<open>Theorems\<close>

text \<open>
  C22: No statistic of the block test is ever not a number, whatever the rounding: for five measured
  times, the average and the deviation are finite and not negative, as is the throughput unless
  it is infinite.
\<close>
theorem block_stats_numbers:
  assumes law: "rounding_law rnd" and "length runs = TEST_ITERATIONS" and "\<forall>t \<in> set runs. \<bar>t\<bar> \<le> 2 ^ 63"
    and "0 \<le> sum5" and "sum5 \<le> 2 ^ 63"
  shows "\<exists>row a s. block_stats rnd (block, sum5, runs) = Returns row \<and> csv_block row = block \<and>
    csv_average row = Fin a \<and> 0 \<le> a \<and> csv_stddev row = Fin s \<and> 0 \<le> s \<and>
    d_nonneg (csv_mbps row) \<and> d_nonneg (csv_mts row)"
proof -
  have const: "rnd 5 = Fin 5" "rnd 1048576 = Fin 1048576" "rnd 8 = Fin 8" "rnd 1 = Fin 1"
    using rnd_int [OF law, of 5] rnd_int [OF law, of 1048576] rnd_int [OF law, of 8] rnd_int [OF law, of 1]
    by simp_all
  have "real_of_int sum5 \<le> 2 ^ 63" using assms(5) by (metis of_int_le_iff of_int_numeral of_int_power)
  then obtain t where t: "rnd (of_int sum5) = Fin t" "0 \<le> t" "t \<le> 2 * 2 ^ 63"
    using d_within_rnd_nonneg [OF law, of "of_int sum5" "2 ^ 63"] assms(4) by auto
  obtain c where c: "rnd (t / 1000000000) = Fin c" "0 \<le> c" "c \<le> 2 * 2 ^ 64"
    using d_within_rnd_nonneg [OF law, of "t / 1000000000" "2 ^ 64"] t(2,3) by auto
  obtain a where a: "rnd (c / 5) = Fin a" "0 \<le> a" "a \<le> 2 * 2 ^ 65"
    using d_within_rnd_nonneg [OF law, of "c / 5" "2 ^ 65"] c(2,3) by auto
  from std_dev_number [OF law _ assms(2,3), of "Fin a"] obtain s where
    s: "std_dev rnd (Fin a) runs = Returns (Fin s)" "0 \<le> s" using a(2,3) by (auto simp: d_within_def)
  have per_sec: "d_nonneg (d_div rnd (Fin 1048576) (Fin a))"
    using a(2) by (auto simp: d_nonneg_rnd [OF law] d_nonneg_Inf)
  show ?thesis
    using d_nonneg_div [OF law d_nonneg_mul_1 [OF law per_sec], of 1048576] d_nonneg_div [OF law per_sec, of 1000000]
    by (simp add: block_stats_def const t(1) c(1) a(1,2) s WIDTH_def ITERATIONS_def TEST_ITERATIONS_def Let_def
        del: d_div.simps(1) d_mul.simps add: d_div.simps(1) [of rnd t 1000000000] d_div.simps(1) [of rnd c 5]
          d_div.simps(1) [of rnd 8 8] d_mul.simps(1) [of rnd 1024 1024])
qed

theorem block_stats_numbers_witness:
  "\<exists>row s. block_stats Fin (64, 0, [0, 0, 0, 0, 0]) = Returns row \<and> csv_average row = Fin 0 \<and>
     csv_stddev row = Fin s \<and> 0 \<le> s \<and> csv_mbps row = Inf False"
proof -
  have "rounding_law Fin" by (simp add: rounding_law_def d_nonneg_def)
  from block_stats_numbers [OF this, of "[0, 0, 0, 0, 0]" 0 64] show ?thesis
    by (auto simp: TEST_ITERATIONS_def block_stats_def ITERATIONS_def WIDTH_def split_beta Let_def)
qed

text \<open>The thread test computes the same numbers from the same times.\<close>
theorem thread_stats_agree:
  assumes "rounding_law rnd"
  shows "thread_stats rnd (n, sum5, runs) =
    obind (block_stats rnd (n, sum5, runs)) (\<lambda>row. Returns (csv_average row, csv_mbps row, csv_mts row, csv_stddev row))"
  using rnd_int [OF assms, of 8]
  by (simp add: thread_stats_def block_stats_def Let_def obind_assoc WIDTH_def)

text \<open>
  Without rounding, the average is the mean of the times in seconds, the deviation is the
  root of their mean squared distance from it, so zero exactly if they are all the same, and the throughput
  in megabytes is the inverse of the average, as each test moves one megabyte.
\<close>
theorem block_stats_exact:
  assumes "length runs = 5" and "sum5 = sum_list runs" and "sum5 \<noteq> 0"
  shows "\<exists>row a s. block_stats Fin (block, sum5, runs) = Returns row \<and> csv_average row = Fin a \<and>
    a = (\<Sum>t\<leftarrow>runs. of_int t / 1000000000) / 5 \<and> csv_stddev row = Fin s \<and>
    s ^ 2 = (\<Sum>t\<leftarrow>runs. (of_int t / 1000000000 - a) ^ 2) / 5 \<and> (s = 0 \<longleftrightarrow> (\<forall>t \<in> set runs. \<forall>u \<in> set runs. t = u)) \<and>
    csv_mbps row = Fin (1 / a) \<and> csv_mts row = Fin (1.048576 / a)"
proof -
  obtain t1 t2 t3 t4 t5 where runs: "runs = [t1, t2, t3, t4, t5]"
    using assms(1) by (auto simp: numeral_eq_Suc length_Suc_conv)
  define a where "a = (\<Sum>t\<leftarrow>runs. real_of_int t / 1000000000) / 5"
  define q where "q = (\<Sum>t\<leftarrow>runs. (of_int t / 1000000000 - a) ^ 2)"
  have a: "real_of_int sum5 / 1000000000 / 5 = a" "a \<noteq> 0"
    using assms(2,3) by (auto simp: a_def runs field_simps simp flip: of_int_add)
  have "0 \<le> q" by (simp add: q_def runs)
  have "std_dev Fin (Fin a) runs = Returns (Fin (sqrt (q / 5)))"
  proof -
    have "std_dev Fin (Fin a) runs = Returns (d_sqrt Fin (Fin (q / 5)))"
      by (simp add: std_dev_def TEST_ITERATIONS_def c_for.simps runs fetch_def d_sub_def Let_def q_def
          power2_eq_square add.assoc)
    then show ?thesis using \<open>0 \<le> q\<close> by simp
  qed
  then have "\<exists>row. block_stats Fin (block, sum5, runs) = Returns row \<and> csv_average row = Fin a \<and>
      csv_stddev row = Fin (sqrt (q / 5)) \<and> csv_mbps row = Fin (1 / a) \<and> csv_mts row = Fin (1.048576 / a)"
    using a by (simp add: block_stats_def Let_def TEST_ITERATIONS_def ITERATIONS_def WIDTH_def)
  moreover have "sqrt (q / 5) = 0 \<longleftrightarrow> (\<forall>t \<in> set runs. \<forall>u \<in> set runs. t = u)"
  proof -
    have "q = 0 \<longleftrightarrow> (\<forall>t \<in> set runs. of_int t / 1000000000 = a)"
      by (simp add: q_def runs add_nonneg_eq_0_iff)
    also have "\<dots> \<longleftrightarrow> (\<forall>t \<in> set runs. \<forall>u \<in> set runs. t = u)"
      by (auto simp: runs a_def field_simps)
    finally show ?thesis by simp
  qed
  moreover have "sqrt (q / 5) ^ 2 = q / 5" using \<open>0 \<le> q\<close> by simp
  ultimately show ?thesis unfolding q_def a_def by blast
qed

text \<open>
  Whatever the rounding, the block test writes one line for each of the block lengths 8 to 1048576, in order.
\<close>
theorem block_test_writes:
  assumes "clock_law m now" and "alloc_law m" and "smi_regs cxt = Some regs" and "wf_cxt cxt"
    and "\<And>n. length (junk n) = 4 * n" and "538420000 < fuel" and "fst (sys m (Fopen ''read.csv'') w) \<noteq> 0"
  shows "\<exists>out cxt' w'. block_test_file rnd m fuel junk cxt w = Returns (out, cxt', w') \<and>
    map csv_block out = map (\<lambda>k. 8 * 2 ^ k) [0..<18]"
proof -
  obtain rows cxt' w' where "megbyte_load_block_test m fuel junk cxt w = Returns (rows, cxt', w')"
    and rows: "map fst rows = map (\<lambda>k. 8 * 2 ^ k) [0..<18]"
      "\<forall>(block, sum5, runs)\<in>set rows. length runs = 5 \<and> sum5 = sum_list runs"
    using block_test_measures [OF assms(1-6), of w] assms(7) by blast
  moreover have "\<forall>(block, sum5, runs)\<in>set rows. length runs = TEST_ITERATIONS"
    using rows(2) by (auto simp: TEST_ITERATIONS_def)
  from file_lines [OF this order_refl, of rnd] obtain out where
    "c_for 0 (length rows) (\<lambda>i out. obind (fetch rows i) (\<lambda>row.
        obind (block_stats rnd row) (\<lambda>line. Returns (out @ [line])))) [] = Returns out"
    "map csv_block out = map fst rows" by auto
  ultimately show ?thesis by (simp add: block_test_file_def)
qed

text \<open>The load never ends.\<close>
theorem cpu_load_never_ends: "cpu_load rnd fuel = OutOfFuel"
  unfolding cpu_load_def
proof (rule loop_diverges [where I = "\<lambda>_. True"])
  show "\<exists>s'. ibind (cpu_load_pass rnd s) Again = Again s' \<and> True" for s
    using c_for_Returns [of 1000000000 "\<lambda>i x. d_add rnd x (d_sqrt rnd (rnd (real i)))" s]
    unfolding cpu_load_pass_def by (elim exE) simp
qed simp

end
