(* ===== verification/Spec2Isabelle.thy ===== *)
theory Spec2Isabelle
  imports Smi_Main Smi_Shared Smi_Lite_Types Smi_Fuel Smi_Stats
begin

text \<open>
  A verification development of \<^verbatim>\<open>rpi-smi\<close>, a user-space driver for the Secondary Memory
  Interface of the Raspberry Pi, its single-header variant and its interrupt module. This is the
  root theory: it imports the others and is their guide.

  \<^bold>\<open>The program.\<close> \<^verbatim>\<open>src/smi.c\<close> maps the peripherals (through \<^verbatim>\<open>gpio.c\<close>), keeps a
  context (\<^verbatim>\<open>SMI_CXT\<close>) with the read and write configuration of the four devices, programs the
  clock and the settings registers, and moves data in three ways. A direct transfer moves one word at
  a time through the direct data register; a programmed transfer moves words through the FIFO, and a
  packed read then unpacks each FIFO word into pixels; a DMA transfer fills in a control block
  for \<^verbatim>\<open>dma.c\<close>. All of them wait in polling loops with the deadlines of \<^verbatim>\<open>timeout.h\<close>.
  \<^verbatim>\<open>src/smilite.h\<close> has copies of the data path and waits of its own. \<^verbatim>\<open>smi-irq/smi_irq.c\<close> is a
  kernel module that counts the interface's interrupts and hands them to readers of a device file.

  \<^bold>\<open>The theories\<close>, in the order they build on each other:
  \<^item> \<open>Smi_Prelude\<close>: word types, the outcome type, the loop combinators, byte buffers.
  \<^item> \<open>Smi_Bitfield\<close>, \<open>Smi_Regs\<close>: bit fields, and the register structs and offsets of
    \<^verbatim>\<open>smi.h\<close>, \<^verbatim>\<open>dma.h\<close>, \<^verbatim>\<open>gpio.h\<close>, \<^verbatim>\<open>clk.h\<close>; the error codes of \<^verbatim>\<open>errors.h\<close>.
  \<^item> \<open>Smi_Machine\<close>: hardware, clock, scheduler, allocator and kernel as parameters, with the
    log of accesses that theorems speak about, and the laws some of them assume.
  \<^item> \<open>Smi_Timeout\<close> (\<^verbatim>\<open>timeout.h\<close>), \<open>Smi_Gpio\<close> (\<^verbatim>\<open>gpio.c\<close>), \<open>Smi_Context\<close> (the structs
    of \<^verbatim>\<open>smi.h\<close>), \<open>Smi_Dma\<close> (\<^verbatim>\<open>dma.c\<close>).
  \<^item> \<open>Smi_Unpack\<close>: unpackers, truncators and pack ratios of \<^verbatim>\<open>smi.c\<close>; \<open>Smi_Unpack_Spec\<close>: the
    formats they implement, and the proof.
  \<^item> \<open>Smi_Config\<close> (set-up and tear-down), \<open>Smi_Await\<close> (the await loops),
    \<open>Smi_Transfer\<close> (direct and programmed transfers), \<open>Smi_Dma_Transfer\<close> (DMA transfers): the
    rest of \<^verbatim>\<open>smi.c\<close>.
  \<^item> \<open>Smi_Lite_Unpack\<close>, \<open>Smi_Lite\<close>: \<^verbatim>\<open>smilite.h\<close>; its definitions carry the prefix
    \<open>lite_\<close>.
  \<^item> \<open>Smi_Flags\<close>: the offsets, flags and macros the headers define beside those, and the unions of
    a register struct and a word; \<open>Smi_Lite_Types\<close>: the types and constants of \<^verbatim>\<open>smilite.h\<close>.
  \<^item> \<open>Smi_Sram\<close>: the demonstration and the benchmarks of \<^verbatim>\<open>sram.c\<close>, and the SRAM chip they talk
    to; \<open>Smi_Stats\<close>: what the benchmarks compute from the times.
  \<^item> \<open>Smi_Irq\<close>: \<^verbatim>\<open>smi-irq/smi_irq.c\<close> and \<^verbatim>\<open>test_poll.c\<close>; \<open>Smi_Shared\<close>: the module and the library
    on the one control register both write.
  \<^item> \<open>Smi_Fuel\<close>: outcomes ordered by fuel; \<open>Smi_Lifecycle\<close>: the life of a context as a step
    relation; \<open>Smi_Main\<close>: \<^verbatim>\<open>main.c\<close> and \<^verbatim>\<open>smi_examples.c\<close>.

  A definition has the name of the C function it translates; where a loop body or a run of
  assignments is a definition of its own, its name says which (\<open>read_await_body\<close>,
  \<open>programmed_read_setup\<close>).
\<close>

section \<open>How the code is modelled\<close>

text \<open>
  \<^bold>\<open>State.\<close> A function that touches the outside takes a \<open>machine\<close> (functions on a hardware state
  of which nothing is known) and a \<open>world\<close> (that state and the log of accesses) and returns the new
  world. A volatile access is one entry of the log; assigning to a bit-field member is a load and a
  store of the whole register, assigning to a member as wide as the register is a store alone.
  \<^verbatim>\<open>SMI_CXT\<close> is a record passed and returned; a pointer in it is an \<open>option\<close>. \<^verbatim>\<open>ERROR\<close> is an
  entry of the log wherever a world is passed; the unpackers, pack ratios and truncators have none, and
  their messages are left out, as are \<^verbatim>\<open>printf\<close> and \<^verbatim>\<open>LOG\<close>.

  \<^bold>\<open>Results.\<close> \<open>Returns\<close> is a value, \<open>Undefined\<close> an access outside an object, through a null
  pointer, or the use of a value a function did not return, \<open>OutOfFuel\<close> a loop still running
  after the iterations it was given. \<^verbatim>\<open>exit(1)\<close> is \<open>None\<close>. Register values and buffers are
  machine words; an \<^verbatim>\<open>int\<close> is an integer. Where an argument can make \<^verbatim>\<open>int\<close> arithmetic overflow,
  overflowing is \<open>Undefined\<close> (\<open>c_int\<close>): the number of words of a packed read (\<open>word_reads_of\<close>) and the poll
  count of \<^verbatim>\<open>smi_read_await\<close> in \<^verbatim>\<open>smilite.h\<close>. The counts of the other loops stay far below, and the
  length of a DMA transfer (\<open>SMI_DMA_L\<close>) is the exact product stored modulo \<open>2 ^ 32\<close>, so theorems that
  speak of definedness bound it (\<open>len < 2 ^ 29\<close>). Conversions to
  \<^verbatim>\<open>uint8_t\<close>, \<^verbatim>\<open>uint32_t\<close> and \<^verbatim>\<open>size_t\<close> are written out. The build is the 64-bit one for the
  Raspberry Pi 3 (\<^verbatim>\<open>PI_ARM64\<close>). The raw buffer is a list of 32-bit words, the caller's buffer of a
  programmed read a list of bytes. Parameters no body uses (the ratio of the unpackers, the address of
  \<^verbatim>\<open>smi_write_await\<close>) are dropped.

  \<^bold>\<open>Fuel.\<close> Every polling loop has a number of iterations that is enough on any machine with a
  monotonic clock: \<open>513\<close> for each word and \<open>500512\<close> for \<^verbatim>\<open>smi_read_await\<close> (512 polls before the
  wait sleeps, then 100 microseconds a poll for 50 seconds), \<open>500512\<close> for \<^verbatim>\<open>smi_write_await\<close>,
  \<open>20512\<close> for \<^verbatim>\<open>smi_read_await_direct\<close> (2 seconds), \<open>50000001\<close> for \<^verbatim>\<open>smi_dma_await\<close> (1
  microsecond a poll). The loops of \<^verbatim>\<open>smilite.h\<close> never sleep; they need a clock that advances with
  every poll (\<open>passing\<close>), and then \<open>51300000001025\<close> iterations for 50 seconds or \<open>2052000001025\<close>
  for 2. Its \<^verbatim>\<open>smi_read_await\<close> counts its polls in an \<^verbatim>\<open>int\<close> it never resets: with loads of 25
  nanoseconds or more (\<open>paced\<close>) \<open>2000000001\<close> iterations are enough and the count does not overflow; with
  loads of at most 23 (\<open>hasty\<close>) it does. Two loops have no bound: the wait of \<^verbatim>\<open>smi_write_await_direct\<close> (in both libraries) and
  \<^verbatim>\<open>init_smi_clk\<close>; theorems give a machine on which each never ends. Outcomes are ordered with
  \<open>OutOfFuel\<close> below all others, and every operation of the libraries that takes fuel is monotonic in it (\<open>fuel_mono\<close>): a
  result that some fuel gives is the result for all greater fuel.

  \<^bold>\<open>Hypotheses on the outside.\<close> \<open>clock_law\<close>: the clock is monotonic and a sleep lasts. \<open>storage\<close>:
  registers hold what is stored. \<open>alloc_law\<close>: \<^verbatim>\<open>realloc\<close> keeps what fits. \<open>settles\<close>: a
  transfer is undone only finitely often. \<open>passing\<close>, \<open>paced\<close>: each poll takes a nanosecond, or so many, at least;
  \<open>hasty\<close>: at most so many, and no word comes. \<open>accepts\<close>: the FIFO takes the next words sent, and the
  transfer is not done by then.
  \<open>sram_law\<close>: the controller and an 8-bit chip behind it. \<open>control_register\<close>: the control register at
  its two mappings, whose settings hold what is stored and whose done flag is cleared by storing 1
  to it. \<open>rounding_law\<close>: how floating-point results are rounded. Each is shown to hold on a concrete machine.
\<close>

section \<open>What is proved\<close>

text \<open>
  \<^item> Data path: every unpacker and truncator produces the pixels of its format, for any number of
    groups, and is undefined exactly where a buffer is too short (locale \<open>unpack_loop\<close>, interpreted
    for all fifteen). On 8-bit and 16-bit buses the formats are the bits of the pixels in order, cut into
    transfers; for 9 and 18 bits they record what the code does, which is not always what its
    comments say. The pack ratio agrees with the format; the copy in \<^verbatim>\<open>smilite.h\<close> is the same
    function.
  \<^item> Waits: the loops return, in the time and the iterations given above, with the words they moved in
    order; the locale \<open>deadline_wait\<close> is the contract of a wait with a deadline, interpreted on the tiered
    wait of \<^verbatim>\<open>timeout.h\<close> and on the sleeping wait of \<^verbatim>\<open>smi_dma_await\<close>.
  \<^item> Transfers: a packed read delivers the pixels of the words it took, a programmed write sends the
    data, the DMA control blocks and the FIFO set-up are as the transfer needs them. The direct transfers
    are a store a client can rely on (locale \<open>block_store\<close>, interpreted on the block and on the
    single-value operations): what is put is what is got, and the demonstration rests on that alone.
  \<^item> Set-up: registers receive the configured fields (locale \<open>field_access\<close>, interpreted on the bit
    fields), handles are closed, the DMA buffer test covers the buffer.
  \<^item> Interrupts: a step relation for handler and readers with its invariants; with one reader the module
    is a counter of undelivered interrupts; loading and unloading as a ledger of resources.
  \<^item> The life of a context: from a successful set-up on, through assignments, configuration, resizing,
    DMA set-up and packed reads in any order, the context stays well formed, and in it no transfer is
    undefined that is given large enough buffers; the benchmarks are such lives.
  \<^item> The shared control register: the interrupt handler undoes the set-up of a transfer, and the library
    can clear a flag the handler has not seen.
  \<^item> Clients: the control block and the data \<^verbatim>\<open>main\<close> lays out in a buffer of one page, which is more
    than it has mapped; no statistic of the benchmarks is ever not a number.
  \<^item> Defects: theorems that show what goes wrong, and on which input, among them the timeout of
    \<^verbatim>\<open>smi_read_await\<close> that looks like 21 words, the overrun of \<^verbatim>\<open>smi_write_await\<close> by one
    word, the wait that never looks at its deadline, the configure functions without a return value, two
    readers that take one interrupt, and in \<^verbatim>\<open>smilite.h\<close> the word lost to a full FIFO and the poll
    count that overflows.
\<close>

section \<open>Not modelled\<close>

text \<open>
  \<^item> What is printed, and how the numbers in the file of the block test are formatted.
  \<^item> The processor load of the threads as something that runs beside the reads: the threads are created,
    and \<^verbatim>\<open>cpu_load\<close> is a loop that never ends (\<open>cpu_load_never_ends\<close>), but they take no time from the
    reads other than by the clock of the machine.
  \<^item> \<^verbatim>\<open>main\<close> as a whole is modelled but undefined from its first \<^verbatim>\<open>smi_sync_context_device\<close> on
    (\<open>main_never_starts\<close>), and so are the examples, which pass an \<^verbatim>\<open>SMI_CXT**\<close> for an
    \<^verbatim>\<open>SMI_CXT*\<close> (\<open>examples_undefined\<close>). What the DMA controller does to memory is a parameter.
  \<^item> Declarations without a definition (\<^verbatim>\<open>sram_block_byte_write\<close>, the set-up functions
    \<^verbatim>\<open>smilite.h\<close> declares), the macros \<^verbatim>\<open>SMI_DIV\<close> and \<^verbatim>\<open>DMA_DEBUG\<close>, which nothing uses, and the other board revisions the headers select.
  \<^item> Cache and bus effects beyond the order of accesses, and memory models weaker than that order.
\<close>

end
